(* ===== verification/Go_Prelude.thy ===== *)
theory Go_Prelude
  imports Main "HOL-Library.Word"
begin

text \<open>
  The part of the Go language and of its standard library that every component of the
  server uses: byte slices, error values with their wrapping (\<open>fmt.Errorf\<close> with
  \<open>%w\<close>, \<open>errors.Join\<close>, \<open>errors.Is\<close>, \<open>errors.As\<close>), calls that
  return a value or an error or panic, and the lemmas that let invariants and frame
  conditions be proved call by call.

  A function with effects is a computation \<open>'w \<Rightarrow> 'a result \<times> 'w\<close> on the
  state \<open>'w\<close>.  The combinator \<open>call\<close> is Go's
  \<open>x, err := m(); if err != nil { h }; k\<close>; a panic runs through it untouched.
\<close>

named_theorems keeps_rules \<open>rules that carry an invariant through a computation\<close>
named_theorems total_rules \<open>rules that show that a computation returns\<close>
named_theorems comp_simps \<open>evaluation of computations\<close>

type_synonym byte = "8 word"
type_synonym bytes = "byte list"

text \<open>The conversion \<open>[]byte(s)\<close>.\<close>

definition go_bytes :: "string \<Rightarrow> bytes" where
  "go_bytes s = map (\<lambda>ch. of_nat (of_char ch)) s"

section \<open>Errors\<close>

text \<open>The exported error variables the program compares against with \<open>errors.Is\<close>.\<close>

datatype sentinel =
    Io_EOF
  | Io_ErrClosedPipe
  | Context_Canceled
  | Context_DeadlineExceeded
  | Model_ErrNotFound
  | Pgx_ErrNoRows
  | Pgx_ErrTxClosed
  | Pgx_ErrTxCommitRollback
  | Jwt_ErrTokenExpired
  | Migrate_ErrNoChange

text \<open>The gRPC status codes the handlers return (package \<open>codes\<close>).\<close>

datatype code =
    Canceled
  | InvalidArgument
  | AlreadyExists
  | Unauthenticated
  | Internal

text \<open>
  Error values: \<open>errors.New\<close>, an opaque error of a third-party library, one of the
  sentinels, a \<open>*pgconn.PgError\<close> with its SQLSTATE, \<open>fmt.Errorf("...: %w", err)\<close>,
  \<open>errors.Join\<close> and \<open>status.Error\<close>.
\<close>

datatype goerr =
    ErrNew string
  | ErrLib string
  | Sentinel sentinel
  | PgError string
  | Wrap string goerr
  | ErrJoin "goerr list"
  | StatusErr code string

fun first_Some :: "'a option list \<Rightarrow> 'a option" where
  "first_Some [] = None"
| "first_Some (Some x # _) = Some x"
| "first_Some (None # xs) = first_Some xs"

fun errors_Is :: "goerr \<Rightarrow> sentinel \<Rightarrow> bool" where
  "errors_Is (Sentinel t) s = (t = s)"
| "errors_Is (Wrap _ e) s = errors_Is e s"
| "errors_Is (ErrJoin es) s = list_ex (\<lambda>e. errors_Is e s) es"
| "errors_Is _ s = False"

text \<open>\<open>errors.As(err, &pgErr)\<close>: the SQLSTATE of the first \<open>PgError\<close> in the chain.\<close>

fun errors_As_PgError :: "goerr \<Rightarrow> string option" where
  "errors_As_PgError (PgError c) = Some c"
| "errors_As_PgError (Wrap _ e) = errors_As_PgError e"
| "errors_As_PgError (ErrJoin es) = first_Some (map errors_As_PgError es)"
| "errors_As_PgError _ = None"

text \<open>\<open>errors.Join\<close> drops nil errors and is nil when nothing is left.\<close>

definition errors_Join :: "goerr option list \<Rightarrow> goerr option" where
  "errors_Join es =
     (case List.map_filter id es of [] \<Rightarrow> None | es' \<Rightarrow> Some (ErrJoin es'))"

lemma errors_Join_nil_iff: "errors_Join es = None \<longleftrightarrow> (\<forall>e \<in> set es. e = None)"
  by (induction es) (auto simp: errors_Join_def map_filter_simps split: list.splits option.splits)

section \<open>Computations\<close>

text \<open>A call returns a value or an error, panics, or never returns (\<open>Hang\<close>).\<close>

datatype 'a result = Ok 'a | Err goerr | Panic string | Hang

fun is_Ok :: "'a result \<Rightarrow> bool" where
  "is_Ok (Ok _) = True"
| "is_Ok _ = False"

fun is_Panic :: "'a result \<Rightarrow> bool" where
  "is_Panic (Panic _) = True"
| "is_Panic _ = False"

lemma is_Ok_iff: "is_Ok r \<longleftrightarrow> (\<exists>x. r = Ok x)"
  by (cases r) auto

lemma is_Panic_iff: "is_Panic r \<longleftrightarrow> (\<exists>p. r = Panic p)"
  by (cases r) auto

type_synonym ('w, 'a) comp = "'w \<Rightarrow> 'a result \<times> 'w"

definition ret :: "'a \<Rightarrow> ('w, 'a) comp" where
  "ret x w = (Ok x, w)"

definition fail :: "goerr \<Rightarrow> ('w, 'a) comp" where
  "fail e w = (Err e, w)"

definition panic :: "string \<Rightarrow> ('w, 'a) comp" where
  "panic p w = (Panic p, w)"

definition call ::
  "('w, 'a) comp \<Rightarrow> (goerr \<Rightarrow> ('w, 'b) comp) \<Rightarrow> ('a \<Rightarrow> ('w, 'b) comp) \<Rightarrow> ('w, 'b) comp" where
  "call m h k w =
     (case m w of
        (Ok x, w') \<Rightarrow> k x w'
      | (Err e, w') \<Rightarrow> h e w'
      | (Panic p, w') \<Rightarrow> (Panic p, w')
      | (Hang, w') \<Rightarrow> (Hang, w'))"

text \<open>The frequent handler that wraps the error with \<open>%w\<close> and returns it.\<close>

definition wrapping :: "string \<Rightarrow> goerr \<Rightarrow> ('w, 'a) comp" where
  "wrapping msg e = fail (Wrap msg e)"

text \<open>A pure function that returns a value or an error, run without touching the state.\<close>

definition pure_call :: "'a result \<Rightarrow> ('w, 'a) comp" where
  "pure_call r w = (r, w)"

text \<open>The same shape for pure functions, and a slice access with its bounds check.\<close>

definition rcall :: "'a result \<Rightarrow> (goerr \<Rightarrow> 'b result) \<Rightarrow> ('a \<Rightarrow> 'b result) \<Rightarrow> 'b result" where
  "rcall r h k = (case r of Ok x \<Rightarrow> k x | Err e \<Rightarrow> h e | Panic p \<Rightarrow> Panic p | Hang \<Rightarrow> Hang)"

definition index :: "'a list \<Rightarrow> nat \<Rightarrow> 'a result" where
  "index xs i = (if i < length xs then Ok (xs ! i) else Panic ''index out of range'')"

lemma rcall_simps [simp]:
  "rcall (Ok x) h k = k x"
  "rcall (Err e) h k = h e"
  "rcall (Panic p) h k = Panic p"
  "rcall Hang h k = Hang"
  by (simp_all add: rcall_def)

lemma rcall_Ok_iff:
  "(\<And>e. \<not> is_Ok (h e)) \<Longrightarrow> rcall r h k = Ok y \<longleftrightarrow> (\<exists>x. r = Ok x \<and> k x = Ok y)"
  by (cases r) (auto simp: is_Ok_iff)

lemma index_Ok [simp]: "i < length xs \<Longrightarrow> index xs i = Ok (xs ! i)"
  by (simp add: index_def)

lemma index_eq_Ok: "index xs i = Ok x \<longleftrightarrow> i < length xs \<and> x = xs ! i"
  by (auto simp: index_def)

lemma index_Panic [simp]: "length xs \<le> i \<Longrightarrow> index xs i = Panic ''index out of range''"
  by (simp add: index_def)

lemma ret_simp [comp_simps]: "ret x w = (Ok x, w)"
  by (simp add: ret_def)

lemma fail_simp [comp_simps]: "fail e w = (Err e, w)"
  by (simp add: fail_def)

lemma panic_simp [comp_simps]: "panic p w = (Panic p, w)"
  by (simp add: panic_def)

lemma wrapping_simp [comp_simps]: "wrapping msg e w = (Err (Wrap msg e), w)"
  by (simp add: wrapping_def fail_def)

lemma pure_call_simp [comp_simps]: "pure_call r w = (r, w)"
  by (simp add: pure_call_def)

lemma call_Ok [comp_simps]: "m w = (Ok x, w') \<Longrightarrow> call m h k w = k x w'"
  by (simp add: call_def)

lemma call_Err [comp_simps]: "m w = (Err e, w') \<Longrightarrow> call m h k w = h e w'"
  by (simp add: call_def)

lemma call_Panic [comp_simps]: "m w = (Panic p, w') \<Longrightarrow> call m h k w = (Panic p, w')"
  by (simp add: call_def)

lemma call_Hang [comp_simps]: "m w = (Hang, w') \<Longrightarrow> call m h k w = (Hang, w')"
  by (simp add: call_def)

lemma call_cases:
  obtains (Ok) x w' where "m w = (Ok x, w')" and "call m h k w = k x w'"
  | (Err) e w' where "m w = (Err e, w')" and "call m h k w = h e w'"
  | (Panic) p w' where "m w = (Panic p, w')" and "call m h k w = (Panic p, w')"
  | (Hang) w' where "m w = (Hang, w')" and "call m h k w = (Hang, w')"
proof (cases "m w")
  case (Pair r w')
  then show ?thesis
    by (cases r) (auto intro: that simp: call_def)
qed

text \<open>A call whose error handler cannot succeed returns \<open>Ok\<close> only through its continuation.\<close>

lemma call_OkE:
  assumes "call m h k w = (Ok y, w2)" and "\<And>e v. \<not> is_Ok (fst (h e v))"
  obtains x w1 where "m w = (Ok x, w1)" and "k x w1 = (Ok y, w2)"
proof (cases rule: call_cases [of m w h k])
  case (Err e w')
  then have "h e w' = (Ok y, w2)" using assms(1) by simp
  then show ?thesis using assms(2) [of e w'] by simp
qed (use assms that in auto)

lemma call_fail_ret [simp]: "call m fail ret = m"
proof
  fix w show "call m fail ret w = m w"
    by (cases rule: call_cases [of m w fail ret]) (simp_all add: ret_def fail_def)
qed

lemma wrapping_not_Ok: "\<not> is_Ok (fst (wrapping msg e w))"
  by (simp add: comp_simps)

lemma fail_not_Ok: "\<not> is_Ok (fst (fail e w))"
  by (simp add: comp_simps)

lemma call_not_Ok:
  assumes "\<not> is_Ok (fst (m w))" and "\<And>e v. \<not> is_Ok (fst (h e v))"
  shows "\<not> is_Ok (fst (call m h k w))"
  by (cases rule: call_cases [of m w h k]) (use assms in auto)

section \<open>Invariants and frames of computations\<close>

text \<open>\<open>keeps I m\<close>: whatever \<open>m\<close> returns, it leaves the invariant \<open>I\<close> true.\<close>

definition keeps :: "('w \<Rightarrow> bool) \<Rightarrow> ('w, 'a) comp \<Rightarrow> bool" where
  "keeps I m \<longleftrightarrow> (\<forall>w. I w \<longrightarrow> I (snd (m w)))"

lemma keepsI: "(\<And>w. I w \<Longrightarrow> I (snd (m w))) \<Longrightarrow> keeps I m"
  by (simp add: keeps_def)

lemma keepsD: "keeps I m \<Longrightarrow> I w \<Longrightarrow> I (snd (m w))"
  by (simp add: keeps_def)

lemma keepsD': "keeps I m \<Longrightarrow> m w = (r, w') \<Longrightarrow> I w \<Longrightarrow> I w'"
  using keepsD [of I m w] by simp

lemma keeps_conj: "keeps I m \<Longrightarrow> keeps J m \<Longrightarrow> keeps (\<lambda>w. I w \<and> J w) m"
  by (simp add: keeps_def)

lemma keeps_ret [keeps_rules]: "keeps I (ret x)"
  by (simp add: keeps_def comp_simps)

lemma keeps_fail [keeps_rules]: "keeps I (fail e)"
  by (simp add: keeps_def comp_simps)

lemma keeps_panic [keeps_rules]: "keeps I (panic p)"
  by (simp add: keeps_def comp_simps)

lemma keeps_wrapping [keeps_rules]: "keeps I (wrapping msg e)"
  by (simp add: keeps_def comp_simps)

lemma keeps_pure_call [keeps_rules]: "keeps I (pure_call r)"
  by (simp add: keeps_def comp_simps)

lemma keeps_call [keeps_rules]:
  assumes "keeps I m" and "\<And>e. keeps I (h e)" and "\<And>x. keeps I (k x)"
  shows "keeps I (call m h k)"
proof (rule keepsI)
  fix w assume "I w"
  then have *: "I (snd (m w))" using assms(1) by (rule keepsD [rotated])
  show "I (snd (call m h k w))"
    by (cases rule: call_cases [of m w h k]) (use * assms(2,3) in \<open>auto dest: keepsD\<close>)
qed

lemma keeps_if [keeps_rules]:
  "(b \<Longrightarrow> keeps I m) \<Longrightarrow> (\<not> b \<Longrightarrow> keeps I n) \<Longrightarrow> keeps I (if b then m else n)"
  by simp

lemma keeps_case_option [keeps_rules]:
  "keeps I m \<Longrightarrow> (\<And>x. keeps I (f x)) \<Longrightarrow> keeps I (case v of None \<Rightarrow> m | Some x \<Rightarrow> f x)"
  by (cases v) auto

lemma keeps_case_prod [keeps_rules]:
  "(\<And>x y. keeps I (f x y)) \<Longrightarrow> keeps I (case p of (x, y) \<Rightarrow> f x y)"
  by (cases p) auto

lemma keeps_let [keeps_rules]: "(\<And>x. keeps I (f x)) \<Longrightarrow> keeps I (let x = v in f x)"
  by simp

text \<open>\<open>frames f m\<close>: \<open>m\<close> never changes the part \<open>f\<close> of the state.\<close>

definition frames :: "('w \<Rightarrow> 'p) \<Rightarrow> ('w, 'a) comp \<Rightarrow> bool" where
  "frames f m \<longleftrightarrow> (\<forall>c. keeps (\<lambda>w. f w = c) m)"

lemma framesI: "(\<And>w. f (snd (m w)) = f w) \<Longrightarrow> frames f m"
  by (simp add: frames_def keeps_def)

lemma framesD: "frames f m \<Longrightarrow> f (snd (m w)) = f w"
  by (simp add: frames_def keeps_def)

lemma framesD': "frames f m \<Longrightarrow> m w = (r, w') \<Longrightarrow> f w' = f w"
  using framesD [of f m w] by simp

lemma frames_keeps: "frames f m \<Longrightarrow> keeps (\<lambda>w. f w = c) m"
  by (simp add: frames_def)

lemma frames_keepsI: "frames f m \<Longrightarrow> (\<And>w. J w \<longleftrightarrow> I (f w)) \<Longrightarrow> keeps J m"
  by (simp add: frames_def keeps_def)

lemma frames_call:
  assumes "frames f m" and "\<And>e. frames f (h e)" and "\<And>x. frames f (k x)"
  shows "frames f (call m h k)"
  using assms by (auto simp: frames_def intro: keeps_call)

lemma frames_simple: "frames f (ret x)" "frames f (fail e)" "frames f (wrapping msg e)" "frames f (pure_call r)"
  by (simp_all add: frames_def keeps_rules)

lemma frames_if: "frames f m \<Longrightarrow> frames f n \<Longrightarrow> frames f (if b then m else n)"
  by simp

lemmas frames_rules = frames_call frames_simple frames_if

section \<open>Computations that return\<close>

fun returns :: "'a result \<Rightarrow> bool" where
  "returns (Ok _) = True"
| "returns (Err _) = True"
| "returns _ = False"

text \<open>\<open>total m\<close>: \<open>m\<close> returns a value or an error; it never panics and never hangs.\<close>

definition total :: "('w, 'a) comp \<Rightarrow> bool" where
  "total m \<longleftrightarrow> (\<forall>w. returns (fst (m w)))"

lemma totalI: "(\<And>w. returns (fst (m w))) \<Longrightarrow> total m"
  by (simp add: total_def)

lemma totalD: "total m \<Longrightarrow> returns (fst (m w))"
  by (simp add: total_def)

lemma total_ErrE:
  assumes "total m" and "\<not> is_Ok (fst (m w))"
  obtains e where "fst (m w) = Err e"
  using totalD [OF assms(1), of w] assms(2) that by (cases "fst (m w)") auto

lemma total_simple [total_rules]:
  "total (ret x)" "total (fail e)" "total (wrapping msg e)" "returns r \<Longrightarrow> total (pure_call r)"
  by (simp_all add: total_def comp_simps)

lemma total_call [total_rules]:
  assumes "total m" and "\<And>e. total (h e)" and "\<And>x. total (k x)"
  shows "total (call m h k)"
proof (rule totalI)
  fix w show "returns (fst (call m h k w))"
    using totalD [OF assms(1), of w] totalD [OF assms(2)] totalD [OF assms(3)]
    by (cases rule: call_cases [of m w h k]) simp_all
qed

text \<open>The continuation may rely on where its value came from.\<close>

lemma total_call_from:
  assumes "total m" and "\<And>e. total (h e)" and "\<And>x w w1. m w = (Ok x, w1) \<Longrightarrow> total (k x)"
  shows "total (call m h k)"
proof (rule totalI)
  fix w show "returns (fst (call m h k w))"
    using totalD [OF assms(1), of w] totalD [OF assms(2)] totalD [OF assms(3), of w]
    by (cases "m w"; cases "fst (m w)") (auto simp: call_def)
qed

lemma total_if [total_rules]: "(b \<Longrightarrow> total m) \<Longrightarrow> (\<not> b \<Longrightarrow> total n) \<Longrightarrow> total (if b then m else n)"
  by simp

lemma total_case_prod [total_rules]: "(\<And>x y. total (f x y)) \<Longrightarrow> total (case p of (x, y) \<Rightarrow> f x y)"
  by (cases p) auto

lemma total_case_option [total_rules]:
  "total m \<Longrightarrow> (\<And>x. total (f x)) \<Longrightarrow> total (case v of None \<Rightarrow> m | Some x \<Rightarrow> f x)"
  by (cases v) auto

end
