(* ===== verification/Go_Env.thy ===== *)
theory Go_Env
  imports Go_Prelude
begin

text \<open>
  What the process draws from its surroundings: the results of \<open>crypto/rand.Read\<close>
  (one entry per call, an error or a source of bytes) and the wall clock, in nanoseconds
  since the Unix epoch.  Later records extend this one with the database; functions that
  need only randomness or time are stated on every extension.
\<close>

record env =
  rnd_src :: "nat \<Rightarrow> goerr + (nat \<Rightarrow> byte)"
  rnd_pos :: nat
  now :: int

type_synonym time = int

definition second :: int where
  "second = 1000000000"

definition rand_Read :: "nat \<Rightarrow> ('z env_scheme, bytes) comp" where
  "rand_Read n w =
     (let w' = w\<lparr>rnd_pos := Suc (rnd_pos w)\<rparr>
      in case rnd_src w (rnd_pos w) of
           Inl e \<Rightarrow> (Err e, w')
         | Inr f \<Rightarrow> (Ok (map f [0..<n]), w'))"

definition time_Now :: "('z env_scheme, time) comp" where
  "time_Now w = (Ok (now w), w)"

text \<open>\<open>time.Sleep\<close> for a number of seconds; a negative duration returns at once.\<close>

definition time_Sleep :: "int \<Rightarrow> 'z env_scheme \<Rightarrow> 'z env_scheme" where
  "time_Sleep secs w = w\<lparr>now := now w + max 0 secs * second\<rparr>"

lemma rand_Read_length: "rand_Read n w = (Ok bs, w') \<Longrightarrow> length bs = n"
  by (auto simp: rand_Read_def Let_def split: sum.splits)

lemma rand_Read_state: "snd (rand_Read n w) = w\<lparr>rnd_pos := Suc (rnd_pos w)\<rparr>"
  by (simp add: rand_Read_def Let_def split: sum.splits)

lemma rand_Read_no_panic: "fst (rand_Read n w) \<noteq> Panic p"
  by (simp add: rand_Read_def Let_def split: sum.splits)

lemma time_Now_simp [comp_simps]: "time_Now w = (Ok (now w), w)"
  by (simp add: time_Now_def)

end
