(* ===== verification/Model.thy ===== *)
theory Model
  imports Go_Env
begin

text \<open>
  Package \<open>model\<close> (\<open>src/internal/model\<close>): the domain types shared by the
  services and the repositories.  A \<open>DataType\<close> is a string, as in the source, because
  it is compared with the names in the table \<open>data_types\<close>.
\<close>

type_synonym UserID = string
type_synonym DataID = string
type_synonym DataType = string
type_synonym ObjectLocator = string

definition DataTypeUnspecified :: DataType where
  "DataTypeUnspecified = ''DataTypeUnspecified''"

definition DataTypeAuthenticationCredentials :: DataType where
  "DataTypeAuthenticationCredentials = ''DataTypeAuthenticationCredentials''"

definition DataTypeCard :: DataType where
  "DataTypeCard = ''DataTypeCard''"

definition DataTypeBinary :: DataType where
  "DataTypeBinary = '' DataTypeBinary''"

lemmas data_type_defs = DataTypeUnspecified_def DataTypeAuthenticationCredentials_def
  DataTypeCard_def DataTypeBinary_def

lemma data_types_distinct [simp]:
  "DataTypeAuthenticationCredentials \<noteq> DataTypeCard" "DataTypeCard \<noteq> DataTypeAuthenticationCredentials"
  "DataTypeAuthenticationCredentials \<noteq> DataTypeBinary" "DataTypeBinary \<noteq> DataTypeAuthenticationCredentials"
  "DataTypeCard \<noteq> DataTypeBinary" "DataTypeBinary \<noteq> DataTypeCard"
  "DataTypeUnspecified \<noteq> DataTypeAuthenticationCredentials" "DataTypeUnspecified \<noteq> DataTypeCard"
  "DataTypeUnspecified \<noteq> DataTypeBinary" "DataTypeAuthenticationCredentials \<noteq> DataTypeUnspecified"
  "DataTypeCard \<noteq> DataTypeUnspecified" "DataTypeBinary \<noteq> DataTypeUnspecified"
  by (simp_all add: data_type_defs)

definition storable_type :: "DataType \<Rightarrow> bool" where
  "storable_type dt \<longleftrightarrow>
     dt = DataTypeAuthenticationCredentials \<or> dt = DataTypeCard \<or> dt = DataTypeBinary"

record ChunkDescriptor =
  Offset :: "64 word"
  CRC32C :: "32 word"
  Last :: bool

record Metadata =
  CreatedAt :: time
  ChunkDesc :: "ChunkDescriptor option"
  Description :: string
  Name :: string
  MetaUserID :: UserID
  MetaDataType :: DataType
  ID :: DataID

record User =
  PasswordPHC :: string
  LoginHash :: bytes

record MetaLoc =
  Locator :: ObjectLocator
  Meta :: Metadata

text \<open>\<open>RepoOperationTO\<close> is two seconds; Go's zero \<open>time.Time\<close> is the start of year 1.\<close>

definition RepoOperationTO :: int where
  "RepoOperationTO = 2 * second"

definition zero_time :: time where
  "zero_time = - 62135596800 * second"

text \<open>
  \<open>context.Context\<close>: its deadline, the moment its parent is cancelled (if ever), and
  the value stored under \<open>ContextKeyUserID\<close>.  The value is a string of type
  \<open>model.UserID\<close>, or some other value, for which the type assertion fails.
\<close>

datatype ctx_value = IsUserID UserID | OtherType

record ctx =
  deadline :: "time option"
  cancelled_at :: "time option"
  user_value :: "ctx_value option"

definition context_Background :: ctx where
  "context_Background = \<lparr>deadline = None, cancelled_at = None, user_value = None\<rparr>"

definition reached :: "time option \<Rightarrow> time \<Rightarrow> bool" where
  "reached limit t \<longleftrightarrow> (case limit of None \<Rightarrow> False | Some l \<Rightarrow> l \<le> t)"

text \<open>\<open>ctx.Err()\<close> at time \<open>t\<close>: whichever of cancellation and deadline came first.\<close>

definition ctx_Err :: "ctx \<Rightarrow> time \<Rightarrow> goerr option" where
  "ctx_Err c t =
     (if reached (cancelled_at c) t \<and>
         (\<not> reached (deadline c) t \<or> the (cancelled_at c) \<le> the (deadline c))
      then Some (Sentinel Context_Canceled)
      else if reached (deadline c) t then Some (Sentinel Context_DeadlineExceeded)
      else None)"

definition context_WithTimeout :: "ctx \<Rightarrow> int \<Rightarrow> time \<Rightarrow> ctx" where
  "context_WithTimeout c d t =
     c\<lparr>deadline := Some (case deadline c of None \<Rightarrow> t + d | Some l \<Rightarrow> min l (t + d))\<rparr>"

definition context_WithValue_UserID :: "ctx \<Rightarrow> UserID \<Rightarrow> ctx" where
  "context_WithValue_UserID c u = c\<lparr>user_value := Some (IsUserID u)\<rparr>"

text \<open>\<open>userID, ok := ctx.Value(model.ContextKeyUserID).(model.UserID)\<close>.\<close>

definition ctx_UserID :: "ctx \<Rightarrow> UserID option" where
  "ctx_UserID c = (case user_value c of Some (IsUserID u) \<Rightarrow> Some u | _ \<Rightarrow> None)"

lemma ctx_UserID_WithValue [simp]: "ctx_UserID (context_WithValue_UserID c u) = Some u"
  by (simp add: ctx_UserID_def context_WithValue_UserID_def)

lemma ctx_Err_None_iff:
  "ctx_Err c t = None \<longleftrightarrow> \<not> reached (cancelled_at c) t \<and> \<not> reached (deadline c) t"
  by (auto simp: ctx_Err_def)

lemma ctx_Err_mono: "ctx_Err c t \<noteq> None \<Longrightarrow> t \<le> t' \<Longrightarrow> ctx_Err c t' \<noteq> None"
  by (auto simp: ctx_Err_None_iff reached_def split: option.splits)

lemma ctx_Err_Background [simp]: "ctx_Err context_Background t = None"
  by (simp add: ctx_Err_def reached_def context_Background_def)

lemma ctx_Err_expired:
  "t + d \<le> t' \<Longrightarrow> ctx_Err (context_WithTimeout c d t) t' \<noteq> None"
  by (auto simp: ctx_Err_None_iff context_WithTimeout_def reached_def min_def split: option.splits)

lemma ctx_Err_WithTimeout:
  "ctx_Err c t' = None \<Longrightarrow> t' < t + d \<Longrightarrow> ctx_Err (context_WithTimeout c d t) t' = None"
  by (auto simp: ctx_Err_None_iff context_WithTimeout_def reached_def min_def split: option.splits)

lemma ctx_UserID_WithTimeout [simp]: "ctx_UserID (context_WithTimeout c d t) = ctx_UserID c"
  by (simp add: ctx_UserID_def context_WithTimeout_def)

lemma ctx_Err_WithValue [simp]: "ctx_Err (context_WithValue_UserID c u) t = ctx_Err c t"
  by (simp add: ctx_Err_def context_WithValue_UserID_def)

text \<open>\<open>ctxTO, cancel := context.WithTimeout(ctx, model.RepoOperationTO)\<close> around a call.\<close>

definition with_timeout :: "ctx \<Rightarrow> (ctx \<Rightarrow> ('z env_scheme, 'a) comp) \<Rightarrow> ('z env_scheme, 'a) comp" where
  "with_timeout c f w = f (context_WithTimeout c RepoOperationTO (now w)) w"

lemma keeps_with_timeout [keeps_rules]: "(\<And>c. keeps I (f c)) \<Longrightarrow> keeps I (with_timeout c f)"
  by (simp add: keeps_def with_timeout_def)

lemma ctx_Err_with_timeout:
  "ctx_Err c t = None \<Longrightarrow> ctx_Err (context_WithTimeout c RepoOperationTO t) t = None"
  by (rule ctx_Err_WithTimeout) (simp_all add: RepoOperationTO_def second_def)

end
