(* ===== verification/Proto.thy ===== *)
theory Proto
  imports Model
begin

text \<open>
  The protobuf messages of \<open>src/proto/v1\<close> that the server reads and writes, as the
  generated Go code has them: a message is a record, a field with presence is optional, a
  pointer to a message is optional, and every getter accepts a nil receiver.  Enumerations
  are open: any 32-bit number may arrive.  The well-known type \<open>Timestamp\<close> and its
  conversions belong to the protobuf runtime and are the record \<open>timestamp_lib\<close>.
\<close>

section \<open>Metadata\<close>

record timestamp =
  ts_Seconds :: int
  ts_Nanos :: int

record timestamp_lib =
  timestamppb_New :: "time \<Rightarrow> timestamp"
  timestamp_AsTime :: "timestamp \<Rightarrow> time"

definition Metadata_DATA_TYPE_UNSPECIFIED :: int where "Metadata_DATA_TYPE_UNSPECIFIED = 0"
definition Metadata_DATA_TYPE_AUTH :: int where "Metadata_DATA_TYPE_AUTH = 1"
definition Metadata_DATA_TYPE_CARD :: int where "Metadata_DATA_TYPE_CARD = 2"
definition Metadata_DATA_TYPE_BINARY :: int where "Metadata_DATA_TYPE_BINARY = 3"

lemmas pb_data_type_defs = Metadata_DATA_TYPE_UNSPECIFIED_def Metadata_DATA_TYPE_AUTH_def
  Metadata_DATA_TYPE_CARD_def Metadata_DATA_TYPE_BINARY_def

record pb_ChunkDescriptor =
  pb_Offset :: "64 word option"
  pb_Last :: "bool option"
  pb_Crc32C :: "32 word option"

record pb_Metadata =
  pb_DataType :: "int option"
  pb_Id :: "string option"
  pb_Name :: "string option"
  pb_Description :: "string option"
  pb_CreatedAt :: "timestamp option"
  pb_ChunkDesc :: "pb_ChunkDescriptor option"

definition or_zero :: "'a \<Rightarrow> 'a option \<Rightarrow> 'a" where
  "or_zero z v = (case v of None \<Rightarrow> z | Some x \<Rightarrow> x)"

lemma or_zero_simps [simp]: "or_zero z None = z" "or_zero z (Some x) = x"
  by (simp_all add: or_zero_def)

definition Metadata_GetDataType :: "pb_Metadata option \<Rightarrow> int" where
  "Metadata_GetDataType x = or_zero Metadata_DATA_TYPE_UNSPECIFIED (Option.bind x pb_DataType)"

definition Metadata_GetId :: "pb_Metadata option \<Rightarrow> string" where
  "Metadata_GetId x = or_zero '''' (Option.bind x pb_Id)"

definition Metadata_GetName :: "pb_Metadata option \<Rightarrow> string" where
  "Metadata_GetName x = or_zero '''' (Option.bind x pb_Name)"

definition Metadata_GetDescription :: "pb_Metadata option \<Rightarrow> string" where
  "Metadata_GetDescription x = or_zero '''' (Option.bind x pb_Description)"

definition Metadata_GetCreatedAt :: "pb_Metadata option \<Rightarrow> timestamp option" where
  "Metadata_GetCreatedAt x = Option.bind x pb_CreatedAt"

definition Metadata_GetChunkDescriptor :: "pb_Metadata option \<Rightarrow> pb_ChunkDescriptor option" where
  "Metadata_GetChunkDescriptor x = Option.bind x pb_ChunkDesc"

definition ChunkDescriptor_GetOffset :: "pb_ChunkDescriptor option \<Rightarrow> 64 word" where
  "ChunkDescriptor_GetOffset x = or_zero 0 (Option.bind x pb_Offset)"

definition ChunkDescriptor_GetLast :: "pb_ChunkDescriptor option \<Rightarrow> bool" where
  "ChunkDescriptor_GetLast x = or_zero False (Option.bind x pb_Last)"

definition ChunkDescriptor_GetCrc32C :: "pb_ChunkDescriptor option \<Rightarrow> 32 word" where
  "ChunkDescriptor_GetCrc32C x = or_zero 0 (Option.bind x pb_Crc32C)"

lemmas metadata_getters = Metadata_GetDataType_def Metadata_GetId_def Metadata_GetName_def
  Metadata_GetDescription_def Metadata_GetCreatedAt_def Metadata_GetChunkDescriptor_def
  ChunkDescriptor_GetOffset_def ChunkDescriptor_GetLast_def ChunkDescriptor_GetCrc32C_def

section \<open>Payload and the keeper messages\<close>

text \<open>A \<open>[]byte\<close> field is nil (\<open>None\<close>) when it is absent from the wire.\<close>

record Payload =
  SealedData :: "bytes option"

definition Payload_GetSealedData :: "Payload option \<Rightarrow> bytes option" where
  "Payload_GetSealedData x = Option.bind x SealedData"

definition SYNC_MODE_UNSPECIFIED :: int where "SYNC_MODE_UNSPECIFIED = 0"
definition SYNC_MODE_SHORT :: int where "SYNC_MODE_SHORT = 1"
definition SYNC_MODE_FULL :: int where "SYNC_MODE_FULL = 2"

record SyncRequest =
  sr_SyncMode :: "int option"

definition SyncRequest_GetSyncMode :: "SyncRequest option \<Rightarrow> int" where
  "SyncRequest_GetSyncMode x = or_zero SYNC_MODE_UNSPECIFIED (Option.bind x sr_SyncMode)"

text \<open>\<open>AddRequest\<close>, \<open>SyncResponse\<close> and \<open>GetResponse\<close> carry metadata and a payload.\<close>

record AddRequest =
  add_Metadata :: "pb_Metadata option"
  add_Payload :: "Payload option"

definition AddRequest_GetMetadata :: "AddRequest option \<Rightarrow> pb_Metadata option" where
  "AddRequest_GetMetadata x = Option.bind x add_Metadata"

definition AddRequest_GetPayload :: "AddRequest option \<Rightarrow> Payload option" where
  "AddRequest_GetPayload x = Option.bind x add_Payload"

record SyncResponse =
  sync_Metadata :: "pb_Metadata option"
  sync_Payload :: "Payload option"

record GetResponse =
  get_Metadata :: "pb_Metadata option"
  get_Payload :: "Payload option"

record GetRequest =
  getreq_Metadata :: "pb_Metadata option"

definition GetRequest_GetMetadata :: "GetRequest option \<Rightarrow> pb_Metadata option" where
  "GetRequest_GetMetadata x = Option.bind x getreq_Metadata"

record DeleteRequest =
  delreq_Metadata :: "pb_Metadata option"

definition DeleteRequest_GetMetadata :: "DeleteRequest option \<Rightarrow> pb_Metadata option" where
  "DeleteRequest_GetMetadata x = Option.bind x delreq_Metadata"

record ListResponse =
  list_Metadata :: "pb_Metadata option list"

section \<open>The authentication messages\<close>

record AuthData =
  ad_Login :: "bytes option"
  ad_Password :: "bytes option"

definition AuthData_GetLogin :: "AuthData option \<Rightarrow> bytes option" where
  "AuthData_GetLogin x = Option.bind x ad_Login"

definition AuthData_GetPassword :: "AuthData option \<Rightarrow> bytes option" where
  "AuthData_GetPassword x = Option.bind x ad_Password"

record LoginRequest =
  login_AuthData :: "AuthData option"

definition LoginRequest_GetAuthData :: "LoginRequest option \<Rightarrow> AuthData option" where
  "LoginRequest_GetAuthData x = Option.bind x login_AuthData"

record RegisterRequest =
  register_AuthData :: "AuthData option"

definition RegisterRequest_GetAuthData :: "RegisterRequest option \<Rightarrow> AuthData option" where
  "RegisterRequest_GetAuthData x = Option.bind x register_AuthData"

record pb_RefreshToken =
  rt_RefreshToken :: "bytes option"

definition RefreshToken_GetRefreshToken :: "pb_RefreshToken option \<Rightarrow> bytes option" where
  "RefreshToken_GetRefreshToken x = Option.bind x rt_RefreshToken"

record LogoutRequest =
  logout_RefreshToken :: "pb_RefreshToken option"

definition LogoutRequest_GetRefreshToken :: "LogoutRequest option \<Rightarrow> pb_RefreshToken option" where
  "LogoutRequest_GetRefreshToken x = Option.bind x logout_RefreshToken"

record pb_AccessToken =
  at_AccessToken :: "string option"

record Tokens =
  tok_AccessToken :: "pb_AccessToken option"
  tok_RefreshToken :: "pb_RefreshToken option"

record LoginResponse =
  loginresp_Tokens :: "Tokens option"

record RegisterResponse =
  registerresp_Tokens :: "Tokens option"

lemmas request_getters = Payload_GetSealedData_def SyncRequest_GetSyncMode_def
  AddRequest_GetMetadata_def AddRequest_GetPayload_def GetRequest_GetMetadata_def
  DeleteRequest_GetMetadata_def AuthData_GetLogin_def AuthData_GetPassword_def
  LoginRequest_GetAuthData_def RegisterRequest_GetAuthData_def
  RefreshToken_GetRefreshToken_def LogoutRequest_GetRefreshToken_def

end
