(* ===== verification/Pg_Store.thy ===== *)
theory Pg_Store
  imports Proto
begin

text \<open>
  The database: the tables of \<open>src/sql/migrations\<close>, the SQL statements of
  \<open>src/internal/repo/db/internal/sqlc\<close> as functions on them, and the client side of
  \<open>pgxpool\<close> that runs a statement, alone or in a transaction.

  A statement sees the tables, a value from \<open>gen_random_uuid()\<close> and \<open>now()\<close>; a
  violated constraint is a \<open>PgError\<close> with its SQLSTATE and leaves the tables as they
  were.  The network is the list \<open>net\<close> of what happens to the next round trips, with
  their duration: the reply arrives, the request is lost, or the statement runs and its reply
  is lost.  Nothing is assumed of it, so a theorem for all worlds covers every pattern of
  failures.  Rows are kept in the order of insertion.
\<close>

type_synonym uuid = "128 word"

text \<open>A Go byte slice, \<open>None\<close> for nil, which the driver sends as NULL.\<close>

type_synonym slice = "bytes option"

section \<open>Tables\<close>

record user_row =
  u_id :: uuid
  u_login_hash :: bytes
  u_password_phc :: string

text \<open>The identity column of \<open>refresh_tokens\<close> is left out: no query reads it.\<close>

record token_row =
  t_user_id :: uuid
  t_token_hash :: bytes
  t_expires_at :: time

record data_type_row =
  d_id :: int
  d_name :: string

record object_row =
  o_id :: uuid
  o_user_id :: uuid
  o_id_data_type :: int
  o_name :: string
  o_description :: "string option"
  o_storage_locator :: string
  o_created_at :: time

record blob_row =
  b_id :: uuid
  b_objects_id :: uuid
  b_sealed :: bytes

record manifest_row =
  m_objects_id :: uuid
  m_blob_id :: uuid
  m_chunk_index :: int
  m_length :: int

record tables =
  users :: "user_row list"
  refresh_tokens :: "token_row list"
  data_types :: "data_type_row list"
  objects :: "object_row list"
  secret_blobs :: "blob_row list"
  chunk_manifest :: "manifest_row list"

text \<open>The tables after both migrations.\<close>

definition migrated :: tables where
  "migrated = \<lparr>users = [], refresh_tokens = [],
     data_types = [\<lparr>d_id = 1, d_name = ''DataTypeAuthenticationCredentials''\<rparr>,
                   \<lparr>d_id = 2, d_name = ''DataTypeCard''\<rparr>,
                   \<lparr>d_id = 3, d_name = ''DataTypeBinary''\<rparr>],
     objects = [], secret_blobs = [], chunk_manifest = []\<rparr>"

text \<open>SQLSTATE codes of the server's answers.\<close>

definition not_null_violation :: goerr where "not_null_violation = PgError ''23502''"
definition foreign_key_violation :: goerr where "foreign_key_violation = PgError ''23503''"
definition unique_violation :: goerr where "unique_violation = PgError ''23505''"
definition check_violation :: goerr where "check_violation = PgError ''23514''"
definition in_failed_transaction :: goerr where "in_failed_transaction = PgError ''25P02''"
definition undefined_operator :: goerr where "undefined_operator = PgError ''42883''"
definition undefined_table :: goerr where "undefined_table = PgError ''42P01''"
definition cardinality_violation :: goerr where "cardinality_violation = PgError ''21000''"

lemmas pg_error_defs = not_null_violation_def foreign_key_violation_def unique_violation_def
  check_violation_def in_failed_transaction_def undefined_operator_def undefined_table_def
  cardinality_violation_def

section \<open>Statements\<close>

type_synonym 'a stmt = "uuid \<Rightarrow> time \<Rightarrow> tables \<Rightarrow> 'a result \<times> tables"

text \<open>Deleting objects cascades to their blobs and manifest rows.\<close>

definition delete_objects :: "(object_row \<Rightarrow> bool) \<Rightarrow> tables \<Rightarrow> tables" where
  "delete_objects P t =
     (let gone = o_id ` set (filter P (objects t)) in
      t\<lparr>objects := filter (\<lambda>r. \<not> P r) (objects t),
        secret_blobs := filter (\<lambda>r. b_objects_id r \<notin> gone) (secret_blobs t),
        chunk_manifest := filter (\<lambda>r. m_objects_id r \<notin> gone) (chunk_manifest t)\<rparr>)"

subsection \<open>users.sql\<close>

definition sql_Create :: "bytes \<Rightarrow> string \<Rightarrow> uuid stmt" where
  "sql_Create loginHash passwordPhc fresh at t =
     (if fresh \<in> u_id ` set (users t) \<or> loginHash \<in> u_login_hash ` set (users t)
      then (Err unique_violation, t)
      else (Ok fresh, t\<lparr>users := users t @
        [\<lparr>u_id = fresh, u_login_hash = loginHash, u_password_phc = passwordPhc\<rparr>]\<rparr>))"

text \<open>The statement compares with \<open>==\<close>, an operator PostgreSQL does not have.\<close>

definition sql_FindByLogin :: "bytes \<Rightarrow> (uuid \<times> string) stmt" where
  "sql_FindByLogin loginHash fresh at t = (Err undefined_operator, t)"

definition sql_DeleteUser :: "uuid \<Rightarrow> unit stmt" where
  "sql_DeleteUser uid fresh at t =
     (Ok (), (delete_objects (\<lambda>r. o_user_id r = uid) t)
        \<lparr>users := filter (\<lambda>r. u_id r \<noteq> uid) (users t),
         refresh_tokens := filter (\<lambda>r. t_user_id r \<noteq> uid) (refresh_tokens t)\<rparr>)"

subsection \<open>tokens.sql\<close>

definition upsert_token :: "token_row \<Rightarrow> token_row list \<Rightarrow> token_row list" where
  "upsert_token r rs =
     (if t_token_hash r \<in> t_token_hash ` set rs
      then map (\<lambda>s. if t_token_hash s = t_token_hash r then r else s) rs
      else rs @ [r])"

definition sql_Save :: "uuid \<Rightarrow> slice \<Rightarrow> time \<Rightarrow> unit stmt" where
  "sql_Save uid tokenHash expiresAt fresh at t =
     (case tokenHash of
        None \<Rightarrow> (Err not_null_violation, t)
      | Some h \<Rightarrow>
          if uid \<notin> u_id ` set (users t) then (Err foreign_key_violation, t)
          else (Ok (), t\<lparr>refresh_tokens := upsert_token
            \<lparr>t_user_id = uid, t_token_hash = h, t_expires_at = expiresAt\<rparr> (refresh_tokens t)\<rparr>))"

definition sql_Validate :: "slice \<Rightarrow> uuid \<Rightarrow> bool stmt" where
  "sql_Validate tokenHash uid fresh at t =
     (Ok (list_ex (\<lambda>r. Some (t_token_hash r) = tokenHash \<and> t_user_id r = uid \<and> at < t_expires_at r)
        (refresh_tokens t)), t)"

definition sql_DeleteToken :: "slice \<Rightarrow> unit stmt" where
  "sql_DeleteToken tokenHash fresh at t =
     (Ok (), t\<lparr>refresh_tokens :=
        filter (\<lambda>r. Some (t_token_hash r) \<noteq> tokenHash) (refresh_tokens t)\<rparr>)"

subsection \<open>metadata.sql\<close>

definition data_type_id :: "tables \<Rightarrow> string \<Rightarrow> int option" where
  "data_type_id t nm = map_option d_id (List.find (\<lambda>r. d_name r = nm) (data_types t))"

definition data_type_name :: "tables \<Rightarrow> int \<Rightarrow> string option" where
  "data_type_name t i = map_option d_name (List.find (\<lambda>r. d_id r = i) (data_types t))"

definition sql_PutMetadata ::
  "uuid \<Rightarrow> string \<Rightarrow> string \<Rightarrow> string option \<Rightarrow> string \<Rightarrow> uuid stmt" where
  "sql_PutMetadata uid dataTypeName objectName description storageLocator fresh at t =
     (case data_type_id t dataTypeName of
        None \<Rightarrow> (Err not_null_violation, t)
      | Some dt \<Rightarrow>
          if fresh \<in> o_id ` set (objects t) then (Err unique_violation, t)
          else if uid \<notin> u_id ` set (users t) then (Err foreign_key_violation, t)
          else (Ok fresh, t\<lparr>objects := objects t @
            [\<lparr>o_id = fresh, o_user_id = uid, o_id_data_type = dt, o_name = objectName,
              o_description = description, o_storage_locator = storageLocator,
              o_created_at = at\<rparr>]\<rparr>))"

text \<open>A row of \<open>GetMetadata\<close> and \<open>ListByUser\<close>: an object joined with its type.\<close>

record metadata_row =
  mr_ID :: uuid
  mr_StorageLocator :: string
  mr_DataTypeName :: string
  mr_ObjectName :: string
  mr_Description :: "string option"
  mr_CreatedAt :: time

definition join_type :: "tables \<Rightarrow> object_row \<Rightarrow> metadata_row option" where
  "join_type t r =
     map_option (\<lambda>nm. \<lparr>mr_ID = o_id r, mr_StorageLocator = o_storage_locator r,
         mr_DataTypeName = nm, mr_ObjectName = o_name r, mr_Description = o_description r,
         mr_CreatedAt = o_created_at r\<rparr>)
       (data_type_name t (o_id_data_type r))"

definition sql_GetMetadata :: "uuid \<Rightarrow> metadata_row stmt" where
  "sql_GetMetadata oid fresh at t =
     (case List.map_filter (join_type t) (filter (\<lambda>r. o_id r = oid) (objects t)) of
        [] \<Rightarrow> (Err (Sentinel Pgx_ErrNoRows), t)
      | row # _ \<Rightarrow> (Ok row, t))"

definition sql_ListByUser :: "uuid \<Rightarrow> metadata_row list stmt" where
  "sql_ListByUser uid fresh at t =
     (Ok (List.map_filter (join_type t) (filter (\<lambda>r. o_user_id r = uid) (objects t))), t)"

definition sql_DeleteMetadata :: "uuid \<Rightarrow> string stmt" where
  "sql_DeleteMetadata oid fresh at t =
     (case List.find (\<lambda>r. o_id r = oid) (objects t) of
        None \<Rightarrow> (Err (Sentinel Pgx_ErrNoRows), t)
      | Some r \<Rightarrow> (Ok (o_storage_locator r), delete_objects (\<lambda>r. o_id r = oid) t))"

subsection \<open>objects.sql and the query of sealed_repo.go\<close>

definition sql_InsertBlob :: "uuid \<Rightarrow> bytes \<Rightarrow> uuid stmt" where
  "sql_InsertBlob oid sealed fresh at t =
     (if fresh \<in> b_id ` set (secret_blobs t) then (Err unique_violation, t)
      else if oid \<notin> o_id ` set (objects t) then (Err foreign_key_violation, t)
      else (Ok fresh, t\<lparr>secret_blobs := secret_blobs t @
        [\<lparr>b_id = fresh, b_objects_id = oid, b_sealed = sealed\<rparr>]\<rparr>))"

definition sql_PutManifest :: "uuid \<Rightarrow> uuid \<Rightarrow> int \<Rightarrow> int \<Rightarrow> unit stmt" where
  "sql_PutManifest oid bid idx len fresh at t =
     (if idx < 0 \<or> len \<le> 0 then (Err check_violation, t)
      else if list_ex (\<lambda>r. m_objects_id r = oid \<and> m_chunk_index r = idx \<or> m_blob_id r = bid)
                (chunk_manifest t)
      then (Err unique_violation, t)
      else if \<not> list_ex (\<lambda>r. b_id r = bid \<and> b_objects_id r = oid) (secret_blobs t)
      then (Err foreign_key_violation, t)
      else (Ok (), t\<lparr>chunk_manifest := chunk_manifest t @
        [\<lparr>m_objects_id = oid, m_blob_id = bid, m_chunk_index = idx, m_length = len\<rparr>]\<rparr>))"

text \<open>The statement names a table alias \<open>cm\<close> that its FROM clause does not declare.\<close>

definition sql_DeleteObject :: "string \<Rightarrow> unit stmt" where
  "sql_DeleteObject storageLocator fresh at t = (Err undefined_table, t)"

definition chunks_of :: "tables \<Rightarrow> uuid \<Rightarrow> (bytes \<times> int) list" where
  "chunks_of t oid =
     concat (map (\<lambda>m. map (\<lambda>b. (b_sealed b, m_length m))
                        (filter (\<lambda>b. b_id b = m_blob_id m) (secret_blobs t)))
       (sort_key m_chunk_index (filter (\<lambda>m. m_objects_id m = oid) (chunk_manifest t))))"

definition sql_getQuery :: "string \<Rightarrow> (bytes \<times> int) list stmt" where
  "sql_getQuery loc fresh at t =
     (case filter (\<lambda>r. o_storage_locator r = loc) (objects t) of
        [] \<Rightarrow> (Ok [], t)
      | [r] \<Rightarrow> (Ok (chunks_of t (o_id r)), t)
      | _ \<Rightarrow> (Err cardinality_violation, t))"

section \<open>The client side\<close>

text \<open>
  A failed round trip is reported as an SQLSTATE (a connection exception, for instance) or as
  an opaque error of the driver.
\<close>

datatype net_fault = SqlState string | IoFault string

fun fault_err :: "net_fault \<Rightarrow> goerr" where
  "fault_err (SqlState c) = PgError c"
| "fault_err (IoFault m) = ErrLib m"

datatype net_event = Reply | LostRequest net_fault | LostReply net_fault

datatype tx_status = Tx_Active | Tx_Aborted | Tx_Dead

record tx =
  tx_tables :: tables
  tx_status :: tx_status

text \<open>
  The world: environment, database, network, the supply of random UUIDs, the open
  transaction (one connection at a time), the heap of \<open>bytes.Reader\<close> objects with the
  bytes each still has to deliver, and the messages sent on the response stream of the
  current call with the outcome of each further \<open>Send\<close>.
\<close>

record world = env +
  db :: tables
  net :: "(nat \<times> net_event) list"
  uuid_src :: "nat \<Rightarrow> uuid"
  uuid_pos :: nat
  open_tx :: "tx option"
  readers :: "nat \<Rightarrow> bytes"
  next_reader :: nat
  sent :: "(pb_Metadata option \<times> Payload option) list"
  send_err :: "nat \<Rightarrow> goerr option"

definition next_event :: "world \<Rightarrow> nat \<times> net_event" where
  "next_event w = (case net w of [] \<Rightarrow> (0, Reply) | e # _ \<Rightarrow> e)"

definition after_event :: "world \<Rightarrow> world" where
  "after_event w = w\<lparr>net := tl (net w), now := now w + int (fst (next_event w))\<rparr>"

definition run_stmt :: "'a stmt \<Rightarrow> (world, 'a) comp" where
  "run_stmt st w =
     (case st (uuid_src w (uuid_pos w)) (now w) (db w) of
        (r, t) \<Rightarrow> (r, w\<lparr>db := t, uuid_pos := Suc (uuid_pos w)\<rparr>))"

text \<open>
  One round trip of the pool.  A context that is already done fails before anything is sent;
  one that expires while waiting cancels the statement.
\<close>

definition pool_exec :: "ctx \<Rightarrow> 'a stmt \<Rightarrow> (world, 'a) comp" where
  "pool_exec c st w =
     (case ctx_Err c (now w) of
        Some e \<Rightarrow> (Err e, w)
      | None \<Rightarrow>
          (case snd (next_event w) of
             LostRequest f \<Rightarrow> (Err (fault_err f), after_event w)
           | LostReply f \<Rightarrow> (Err (fault_err f), snd (run_stmt st (after_event w)))
           | Reply \<Rightarrow>
               (case ctx_Err c (now (after_event w)) of
                  Some e \<Rightarrow> (Err e, after_event w)
                | None \<Rightarrow> run_stmt st (after_event w))))"

definition sql_Begin :: "tables stmt" where
  "sql_Begin fresh at t = (Ok t, t)"

definition pool_Begin :: "ctx \<Rightarrow> (world, unit) comp" where
  "pool_Begin c =
     call (pool_exec c sql_Begin) fail (\<lambda>t w.
       (Ok (), w\<lparr>open_tx := Some \<lparr>tx_tables = t, tx_status = Tx_Active\<rparr>\<rparr>))"

definition conn_closed :: goerr where
  "conn_closed = ErrLib ''conn closed''"

definition kill_tx :: "tx \<Rightarrow> world \<Rightarrow> world" where
  "kill_tx x w = w\<lparr>open_tx := Some (x\<lparr>tx_status := Tx_Dead\<rparr>)\<rparr>"

definition run_in_tx :: "tx \<Rightarrow> 'a stmt \<Rightarrow> (world, 'a) comp" where
  "run_in_tx x st w =
     (if tx_status x = Tx_Aborted then (Err in_failed_transaction, w)
      else
        let w' = w\<lparr>uuid_pos := Suc (uuid_pos w)\<rparr> in
        (case st (uuid_src w (uuid_pos w)) (now w) (tx_tables x) of
           (Ok v, t) \<Rightarrow> (Ok v, w'\<lparr>open_tx := Some (x\<lparr>tx_tables := t\<rparr>)\<rparr>)
         | (r, t) \<Rightarrow> (r, w'\<lparr>open_tx := Some (x\<lparr>tx_status := Tx_Aborted\<rparr>)\<rparr>)))"

definition tx_exec :: "ctx \<Rightarrow> 'a stmt \<Rightarrow> (world, 'a) comp" where
  "tx_exec c st w =
     (case open_tx w of
        None \<Rightarrow> (Err (Sentinel Pgx_ErrTxClosed), w)
      | Some x \<Rightarrow>
          if tx_status x = Tx_Dead then (Err conn_closed, w)
          else
            (case ctx_Err c (now w) of
               Some e \<Rightarrow> (Err e, w)
             | None \<Rightarrow>
                 (case snd (next_event w) of
                    LostRequest f \<Rightarrow> (Err (fault_err f), kill_tx x (after_event w))
                  | LostReply f \<Rightarrow> (Err (fault_err f), kill_tx x (after_event w))
                  | Reply \<Rightarrow>
                      (case ctx_Err c (now (after_event w)) of
                         Some e \<Rightarrow> (Err e, kill_tx x (after_event w))
                       | None \<Rightarrow> run_in_tx x st (after_event w)))))"

text \<open>\<open>Commit\<close> closes the transaction whatever happens.\<close>

definition commit_tables :: "tx \<Rightarrow> world \<Rightarrow> world" where
  "commit_tables x w = (if tx_status x = Tx_Active then w\<lparr>db := tx_tables x\<rparr> else w)"

definition tx_Commit :: "ctx \<Rightarrow> (world, unit) comp" where
  "tx_Commit c w =
     (case open_tx w of
        None \<Rightarrow> (Err (Sentinel Pgx_ErrTxClosed), w)
      | Some x \<Rightarrow>
          let w0 = w\<lparr>open_tx := None\<rparr> in
          if tx_status x = Tx_Dead then (Err conn_closed, w0)
          else
            (case ctx_Err c (now w) of
               Some e \<Rightarrow> (Err e, w0)
             | None \<Rightarrow>
                 (case snd (next_event w) of
                    LostRequest f \<Rightarrow> (Err (fault_err f), after_event w0)
                  | LostReply f \<Rightarrow> (Err (fault_err f), commit_tables x (after_event w0))
                  | Reply \<Rightarrow>
                      (case ctx_Err c (now (after_event w0)) of
                         Some e \<Rightarrow> (Err e, after_event w0)
                       | None \<Rightarrow>
                           if tx_status x = Tx_Aborted
                           then (Err (Sentinel Pgx_ErrTxCommitRollback), after_event w0)
                           else (Ok (), commit_tables x (after_event w0))))))"

text \<open>The deferred \<open>Rollback\<close>: its result is only logged.\<close>

definition tx_Rollback :: "world \<Rightarrow> world" where
  "tx_Rollback w = w\<lparr>open_tx := None\<rparr>"

end
