(* ===== verification/Pg_Invariant.thy ===== *)
theory Pg_Invariant
  imports Pg_Store
begin

text \<open>
  The integrity of the database: primary keys and unique columns are distinct, foreign keys
  point at rows that exist, check constraints hold.  Every statement keeps it, a round trip
  keeps it whatever the network does, and a transaction keeps it in its working copy and
  carries it over at commit.
\<close>

named_theorems stmt_keeps \<open>statements that keep the integrity of the tables\<close>

section \<open>Integrity of the tables\<close>

definition keys_ok :: "tables \<Rightarrow> bool" where
  "keys_ok t \<longleftrightarrow>
     distinct (map u_id (users t)) \<and> distinct (map u_login_hash (users t)) \<and>
     distinct (map t_token_hash (refresh_tokens t)) \<and>
     distinct (map d_id (data_types t)) \<and> distinct (map d_name (data_types t)) \<and>
     distinct (map o_id (objects t)) \<and>
     distinct (map b_id (secret_blobs t)) \<and>
     distinct (map (\<lambda>m. (m_objects_id m, m_chunk_index m)) (chunk_manifest t)) \<and>
     distinct (map m_blob_id (chunk_manifest t))"

definition refs_ok :: "tables \<Rightarrow> bool" where
  "refs_ok t \<longleftrightarrow>
     t_user_id ` set (refresh_tokens t) \<subseteq> u_id ` set (users t) \<and>
     o_user_id ` set (objects t) \<subseteq> u_id ` set (users t) \<and>
     o_id_data_type ` set (objects t) \<subseteq> d_id ` set (data_types t) \<and>
     b_objects_id ` set (secret_blobs t) \<subseteq> o_id ` set (objects t) \<and>
     (\<lambda>m. (m_blob_id m, m_objects_id m)) ` set (chunk_manifest t)
       \<subseteq> (\<lambda>b. (b_id b, b_objects_id b)) ` set (secret_blobs t)"

definition checks_ok :: "tables \<Rightarrow> bool" where
  "checks_ok t \<longleftrightarrow> list_all (\<lambda>m. 0 \<le> m_chunk_index m \<and> 0 < m_length m) (chunk_manifest t)"

definition wf_tables :: "tables \<Rightarrow> bool" where
  "wf_tables t \<longleftrightarrow> keys_ok t \<and> refs_ok t \<and> checks_ok t"

lemmas wf_defs = wf_tables_def keys_ok_def refs_ok_def checks_ok_def

lemma wf_migrated: "wf_tables migrated"
  by (simp add: wf_defs migrated_def)

definition stmt_preserves :: "(tables \<Rightarrow> bool) \<Rightarrow> 'a stmt \<Rightarrow> bool" where
  "stmt_preserves I st \<longleftrightarrow> (\<forall>fresh at t. I t \<longrightarrow> I (snd (st fresh at t)))"

lemma stmt_preservesI:
  "(\<And>fresh at t. I t \<Longrightarrow> I (snd (st fresh at t))) \<Longrightarrow> stmt_preserves I st"
  by (simp add: stmt_preserves_def)

lemma delete_objects_refs:
  assumes "refs_ok t"
  shows "refs_ok (delete_objects P t)"
proof -
  let ?gone = "o_id ` set (filter P (objects t))"
  have "b_objects_id ` {b \<in> set (secret_blobs t). b_objects_id b \<notin> ?gone}
      \<subseteq> o_id ` {r \<in> set (objects t). \<not> P r}"
    using assms by (force simp: refs_ok_def image_subset_iff)
  moreover have "(\<lambda>m. (m_blob_id m, m_objects_id m)) ` {m \<in> set (chunk_manifest t). m_objects_id m \<notin> ?gone}
      \<subseteq> (\<lambda>b. (b_id b, b_objects_id b)) ` {b \<in> set (secret_blobs t). b_objects_id b \<notin> ?gone}"
  proof (rule image_subsetI)
    fix m assume m: "m \<in> {m \<in> set (chunk_manifest t). m_objects_id m \<notin> ?gone}"
    then have "(m_blob_id m, m_objects_id m) \<in> (\<lambda>b. (b_id b, b_objects_id b)) ` set (secret_blobs t)"
      using assms by (simp add: refs_ok_def image_subset_iff)
    with m show "(m_blob_id m, m_objects_id m) \<in>
        (\<lambda>b. (b_id b, b_objects_id b)) ` {b \<in> set (secret_blobs t). b_objects_id b \<notin> ?gone}"
      by (elim imageE) (intro rev_image_eqI, auto)
  qed
  ultimately show ?thesis
    using assms by (simp add: refs_ok_def delete_objects_def Let_def image_subset_iff)
qed

lemma delete_objects_wf: "wf_tables t \<Longrightarrow> wf_tables (delete_objects P t)"
  by (simp add: wf_tables_def delete_objects_refs)
     (simp add: keys_ok_def checks_ok_def delete_objects_def Let_def distinct_map_filter list_all_iff)

lemma upsert_hashes:
  "map t_token_hash (upsert_token r rs) =
     (if t_token_hash r \<in> t_token_hash ` set rs then map t_token_hash rs
      else map t_token_hash rs @ [t_token_hash r])"
  by (auto simp: upsert_token_def)

lemma upsert_set: "set (upsert_token r rs) \<subseteq> insert r (set rs)"
  by (auto simp: upsert_token_def)

lemma upsert_users: "t_user_id ` set (upsert_token r rs) \<subseteq> insert (t_user_id r) (t_user_id ` set rs)"
  using image_mono [OF upsert_set, of t_user_id] by simp

lemma sql_Create_wf [stmt_keeps]: "stmt_preserves wf_tables (sql_Create l p)"
  by (rule stmt_preservesI) (auto simp: sql_Create_def wf_defs)

lemma sql_FindByLogin_wf [stmt_keeps]: "stmt_preserves I (sql_FindByLogin l)"
  by (rule stmt_preservesI) (simp add: sql_FindByLogin_def)

lemma sql_Save_wf [stmt_keeps]: "stmt_preserves wf_tables (sql_Save u h e)"
proof (rule stmt_preservesI)
  fix fresh at t assume "wf_tables t"
  then show "wf_tables (snd (sql_Save u h e fresh at t))"
    using upsert_users [of "\<lparr>t_user_id = u, t_token_hash = the h, t_expires_at = e\<rparr>" "refresh_tokens t"]
    by (cases h) (auto simp: sql_Save_def wf_defs upsert_hashes)
qed

lemma sql_Validate_wf [stmt_keeps]: "stmt_preserves I (sql_Validate h u)"
  by (rule stmt_preservesI) (simp add: sql_Validate_def)

lemma sql_DeleteToken_wf [stmt_keeps]: "stmt_preserves wf_tables (sql_DeleteToken h)"
  by (rule stmt_preservesI) (auto simp: sql_DeleteToken_def wf_defs distinct_map_filter)

lemma data_type_id_in: "data_type_id t nm = Some i \<Longrightarrow> i \<in> d_id ` set (data_types t)"
  by (auto simp: data_type_id_def find_Some_iff)

lemma sql_PutMetadata_wf [stmt_keeps]: "stmt_preserves wf_tables (sql_PutMetadata u d n s l)"
  by (rule stmt_preservesI)
     (auto simp: sql_PutMetadata_def wf_defs data_type_id_in split: option.splits)

lemma sql_GetMetadata_wf [stmt_keeps]: "stmt_preserves I (sql_GetMetadata i)"
  by (rule stmt_preservesI) (simp add: sql_GetMetadata_def split: list.splits)

lemma sql_ListByUser_wf [stmt_keeps]: "stmt_preserves I (sql_ListByUser i)"
  by (rule stmt_preservesI) (simp add: sql_ListByUser_def)

lemma sql_DeleteMetadata_wf [stmt_keeps]: "stmt_preserves wf_tables (sql_DeleteMetadata i)"
  by (rule stmt_preservesI) (simp add: sql_DeleteMetadata_def delete_objects_wf split: option.splits)

lemma sql_InsertBlob_wf [stmt_keeps]: "stmt_preserves wf_tables (sql_InsertBlob oid s)"
  by (rule stmt_preservesI) (auto simp: sql_InsertBlob_def wf_defs)

lemma sql_PutManifest_wf [stmt_keeps]: "stmt_preserves wf_tables (sql_PutManifest oid b i l)"
  by (rule stmt_preservesI)
     (auto simp: sql_PutManifest_def wf_defs list_ex_iff list_all_iff image_iff)

lemma sql_DeleteObject_wf [stmt_keeps]: "stmt_preserves I (sql_DeleteObject l)"
  by (rule stmt_preservesI) (simp add: sql_DeleteObject_def)

lemma sql_getQuery_wf [stmt_keeps]: "stmt_preserves I (sql_getQuery l)"
  by (rule stmt_preservesI) (simp add: sql_getQuery_def split: list.splits)

lemma sql_Begin_wf [stmt_keeps]: "stmt_preserves I sql_Begin"
  by (rule stmt_preservesI) (simp add: sql_Begin_def)

lemma delete_user_wf:
  assumes "wf_tables t" and "\<forall>r \<in> set (objects t). o_user_id r \<noteq> u"
  shows "wf_tables (t\<lparr>users := filter (\<lambda>r. u_id r \<noteq> u) (users t),
    refresh_tokens := filter (\<lambda>r. t_user_id r \<noteq> u) (refresh_tokens t)\<rparr>)"
proof -
  let ?users = "{r \<in> set (users t). u_id r \<noteq> u}"
  have "t_user_id ` {r \<in> set (refresh_tokens t). t_user_id r \<noteq> u} \<subseteq> u_id ` ?users"
    and "o_user_id ` set (objects t) \<subseteq> u_id ` ?users"
    using assms unfolding wf_tables_def refs_ok_def by (force simp: image_subset_iff)+
  with assms(1) show ?thesis
    by (simp add: wf_defs distinct_map_filter)
qed

lemma sql_DeleteUser_wf [stmt_keeps]: "stmt_preserves wf_tables (sql_DeleteUser u)"
proof (rule stmt_preservesI)
  fix fresh at t assume "wf_tables t"
  let ?t = "delete_objects (\<lambda>r. o_user_id r = u) t"
  have same: "users ?t = users t" "refresh_tokens ?t = refresh_tokens t"
    by (simp_all add: delete_objects_def Let_def)
  have "wf_tables (?t\<lparr>users := filter (\<lambda>r. u_id r \<noteq> u) (users ?t),
      refresh_tokens := filter (\<lambda>r. t_user_id r \<noteq> u) (refresh_tokens ?t)\<rparr>)"
    using delete_objects_wf [OF \<open>wf_tables t\<close>]
    by (rule delete_user_wf) (simp add: delete_objects_def Let_def)
  then show "wf_tables (snd (sql_DeleteUser u fresh at t))"
    by (simp add: sql_DeleteUser_def same)
qed

section \<open>Integrity of the world\<close>

definition wf_world :: "world \<Rightarrow> bool" where
  "wf_world w \<longleftrightarrow> wf_tables (db w) \<and> (\<forall>x. open_tx w = Some x \<longrightarrow> wf_tables (tx_tables x))"

lemma after_event_simps [simp]:
  "db (after_event w) = db w" "open_tx (after_event w) = open_tx w"
  "uuid_src (after_event w) = uuid_src w" "uuid_pos (after_event w) = uuid_pos w"
  "readers (after_event w) = readers w" "next_reader (after_event w) = next_reader w"
  "sent (after_event w) = sent w" "send_err (after_event w) = send_err w"
  "rnd_src (after_event w) = rnd_src w" "rnd_pos (after_event w) = rnd_pos w"
  "now (after_event w) = now w + int (fst (next_event w))" "net (after_event w) = tl (net w)"
  by (simp_all add: after_event_def)

text \<open>A property of the tables, of the database and of the working copy of a transaction.\<close>

definition tables_inv :: "(tables \<Rightarrow> bool) \<Rightarrow> world \<Rightarrow> bool" where
  "tables_inv J w \<longleftrightarrow> J (db w) \<and> (\<forall>x. open_tx w = Some x \<longrightarrow> J (tx_tables x))"

lemma wf_world_inv: "wf_world = tables_inv wf_tables"
  by (rule ext) (simp add: wf_world_def tables_inv_def)

lemma run_stmt_inv:
  assumes "stmt_preserves J st"
  shows "keeps (tables_inv J) (run_stmt st)"
  using assms by (auto simp: keeps_def run_stmt_def tables_inv_def stmt_preserves_def split: prod.splits)
    (metis snd_conv)

lemma inv_after_event: "tables_inv J w \<Longrightarrow> tables_inv J (after_event w)"
  by (simp add: tables_inv_def)

lemma pool_exec_inv:
  assumes "stmt_preserves J st"
  shows "keeps (tables_inv J) (pool_exec c st)"
proof (rule keepsI)
  fix w assume "tables_inv J w"
  then have "tables_inv J (after_event w)" by (rule inv_after_event)
  with run_stmt_inv [OF assms] \<open>tables_inv J w\<close> show "tables_inv J (snd (pool_exec c st w))"
    by (auto simp: pool_exec_def dest: keepsD split: option.splits net_event.splits)
qed

lemma kill_tx_inv: "tables_inv J w \<Longrightarrow> J (tx_tables x) \<Longrightarrow> tables_inv J (kill_tx x w)"
  by (simp add: tables_inv_def kill_tx_def)

lemma run_in_tx_inv:
  assumes "stmt_preserves J st" and "tables_inv J w" and "J (tx_tables x)"
  shows "tables_inv J (snd (run_in_tx x st w))"
  using assms
  by (auto simp: run_in_tx_def tables_inv_def stmt_preserves_def Let_def split: prod.splits result.splits)
     (metis snd_conv)

lemma tx_exec_inv:
  assumes "stmt_preserves J st"
  shows "keeps (tables_inv J) (tx_exec c st)"
proof (rule keepsI)
  fix w assume w: "tables_inv J w"
  show "tables_inv J (snd (tx_exec c st w))"
  proof (cases "open_tx w")
    case None
    then show ?thesis using w by (simp add: tx_exec_def)
  next
    case (Some x)
    then have x: "J (tx_tables x)" using w by (simp add: tables_inv_def)
    have w': "tables_inv J (after_event w)" using w by (rule inv_after_event)
    show ?thesis
      using Some w kill_tx_inv [OF w' x] run_in_tx_inv [OF assms w' x]
      by (auto simp: tx_exec_def split: option.splits net_event.splits)
  qed
qed

text \<open>\<open>Begin\<close> copies the tables, whatever an earlier transaction left open.\<close>

lemma pool_Begin_cases:
  obtains w1 where "pool_Begin c w = (Ok (), w1)" and "db w1 = db w"
    and "open_tx w1 = Some \<lparr>tx_tables = db w, tx_status = Tx_Active\<rparr>"
    and "readers w1 = readers w"
  | e w1 where "pool_Begin c w = (Err e, w1)" and "db w1 = db w" and "open_tx w1 = open_tx w"
    and "readers w1 = readers w"
proof -
  let ?run = "pool_exec c sql_Begin w"
  have "(fst ?run = Ok (db w) \<or> (\<exists>e. fst ?run = Err e)) \<and> db (snd ?run) = db w \<and>
      open_tx (snd ?run) = open_tx w \<and> readers (snd ?run) = readers w"
    by (simp add: pool_exec_def run_stmt_def sql_Begin_def split: option.split net_event.split)
  then consider w1 where "?run = (Ok (db w), w1)" "db w1 = db w" "readers w1 = readers w"
    | e w1 where "?run = (Err e, w1)" "db w1 = db w" "open_tx w1 = open_tx w" "readers w1 = readers w"
    by (metis prod.collapse)
  then show thesis
    by cases (auto simp: pool_Begin_def call_def comp_simps intro: that)
qed

lemma pool_Begin_inv: "keeps (tables_inv J) (pool_Begin c)"
proof (rule keepsI)
  fix w assume "tables_inv J w"
  then show "tables_inv J (snd (pool_Begin c w))"
    by (cases rule: pool_Begin_cases [of c w]) (simp_all add: tables_inv_def)
qed

lemma tx_Commit_inv: "keeps (tables_inv J) (tx_Commit c)"
  by (rule keepsI)
     (auto simp: tx_Commit_def tables_inv_def commit_tables_def Let_def
       split: option.splits net_event.splits)

lemma tx_Rollback_inv: "tables_inv J w \<Longrightarrow> tables_inv J (tx_Rollback w)"
  by (simp add: tables_inv_def tx_Rollback_def)

lemmas pool_exec_keeps [keeps_rules] = pool_exec_inv [of wf_tables, folded wf_world_inv]
  and tx_exec_keeps [keeps_rules] = tx_exec_inv [of wf_tables, folded wf_world_inv]
  and pool_Begin_keeps [keeps_rules] = pool_Begin_inv [of wf_tables, folded wf_world_inv]
  and tx_Commit_keeps [keeps_rules] = tx_Commit_inv [of wf_tables, folded wf_world_inv]
  and tx_Rollback_wf = tx_Rollback_inv [of wf_tables, folded wf_world_inv]

end
