(* ===== verification/Go_Strings.thy ===== *)
theory Go_Strings
  imports Go_Prelude
begin

text \<open>
  The standard-library string functions the program calls: \<open>strings.HasPrefix\<close>,
  \<open>strings.TrimPrefix\<close>, \<open>strings.Split\<close> with a one-byte separator,
  \<open>strconv.Atoi\<close>, the \<open>%d\<close> verb of \<open>fmt.Sprintf\<close> and of
  \<open>fmt.Sscanf\<close>.  A Go string is a sequence of bytes, here a list of characters of
  eight bits.  The lemmas give the round trip between printing and scanning decimals and
  the parts of a string that was put together with a separator.
\<close>

section \<open>Prefixes and splitting\<close>

definition strings_HasPrefix :: "string \<Rightarrow> string \<Rightarrow> bool" where
  "strings_HasPrefix s p \<longleftrightarrow> take (length p) s = p"

definition strings_TrimPrefix :: "string \<Rightarrow> string \<Rightarrow> string" where
  "strings_TrimPrefix s p = (if strings_HasPrefix s p then drop (length p) s else s)"

lemma HasPrefix_append [simp]: "strings_HasPrefix (p @ s) p"
  by (simp add: strings_HasPrefix_def)

lemma TrimPrefix_append [simp]: "strings_TrimPrefix (p @ s) p = s"
  by (simp add: strings_TrimPrefix_def strings_HasPrefix_def)

fun strings_Split :: "string \<Rightarrow> char \<Rightarrow> string list" where
  "strings_Split [] c = [[]]"
| "strings_Split (x # xs) c =
     (if x = c then [] # strings_Split xs c
      else case strings_Split xs c of
             [] \<Rightarrow> [[x]]
           | p # ps \<Rightarrow> (x # p) # ps)"

lemma Split_not_Nil [simp]: "strings_Split s c \<noteq> []"
  by (induction s) (auto split: list.splits)

lemma Split_no_sep: "c \<notin> set s \<Longrightarrow> strings_Split s c = [s]"
  by (induction s) auto

lemma Split_append_sep:
  "c \<notin> set s \<Longrightarrow> strings_Split (s @ c # t) c = s # strings_Split t c"
  by (induction s) auto

lemma length_Split: "length (strings_Split s c) = Suc (count_list s c)"
  by (induction s) (auto split: list.splits)

section \<open>Decimal numbers\<close>

definition is_digit :: "char \<Rightarrow> bool" where
  "is_digit c \<longleftrightarrow> 48 \<le> (of_char c :: nat) \<and> (of_char c :: nat) \<le> 57"

definition digit_val :: "char \<Rightarrow> nat" where
  "digit_val c = of_char c - 48"

definition digit_char :: "nat \<Rightarrow> char" where
  "digit_char d = char_of (48 + d)"

definition digits_val :: "string \<Rightarrow> nat" where
  "digits_val s = foldl (\<lambda>a c. 10 * a + digit_val c) 0 s"

fun itoa :: "nat \<Rightarrow> string" where
  "itoa n = (if n < 10 then [digit_char n] else itoa (n div 10) @ [digit_char (n mod 10)])"

declare itoa.simps [simp del]

text \<open>\<open>%d\<close> of a signed number.\<close>

definition itoa_int :: "int \<Rightarrow> string" where
  "itoa_int i = (if i < 0 then CHR ''-'' # itoa (nat (- i)) else itoa (nat i))"

lemma of_char_digit_char: "d < 10 \<Longrightarrow> of_char (digit_char d) = 48 + d"
  by (simp add: digit_char_def)

lemma is_digit_digit_char: "d < 10 \<Longrightarrow> is_digit (digit_char d)"
  by (simp add: is_digit_def of_char_digit_char)

lemma digit_val_digit_char: "d < 10 \<Longrightarrow> digit_val (digit_char d) = d"
  by (simp add: digit_val_def of_char_digit_char)

lemma itoa_not_Nil [simp]: "itoa n \<noteq> []"
  by (subst itoa.simps) simp

lemma itoa_digits: "list_all is_digit (itoa n)"
proof (induction n rule: itoa.induct)
  case (1 n)
  then show ?case
    by (subst itoa.simps) (simp add: is_digit_digit_char)
qed

lemma itoa_is_digit: "c \<in> set (itoa n) \<Longrightarrow> is_digit c"
  using itoa_digits [of n] by (simp add: list_all_iff)

lemma digits_val_itoa: "digits_val (itoa n) = n"
proof (induction n rule: itoa.induct)
  case (1 n)
  then show ?case
    by (subst itoa.simps) (simp add: digits_val_def digit_val_digit_char)
qed

lemma itoa_inject: "itoa m = itoa n \<longleftrightarrow> m = n"
  by (metis digits_val_itoa)

lemma digit_char_ne:
  assumes "is_digit c"
  shows "c \<noteq> CHR ''$''" "c \<noteq> CHR '',''" "c \<noteq> CHR ''-''" "c \<noteq> CHR ''+''" "c \<noteq> CHR ''=''"
  using assms by (auto simp: is_digit_def)

text \<open>\<open>strconv.Atoi\<close>: an optional sign and digits, within the range of a 64-bit \<open>int\<close>.\<close>

definition parse_nat :: "string \<Rightarrow> nat option" where
  "parse_nat s = (if s \<noteq> [] \<and> list_all is_digit s then Some (digits_val s) else None)"

definition strconv_Atoi :: "string \<Rightarrow> int result" where
  "strconv_Atoi s =
     (let (neg, ds) = (case s of
            c # cs \<Rightarrow> if c = CHR ''-'' then (True, cs) else if c = CHR ''+'' then (False, cs) else (False, s)
          | [] \<Rightarrow> (False, s))
      in case parse_nat ds of
           None \<Rightarrow> Err (ErrNew ''strconv.Atoi: invalid syntax'')
         | Some n \<Rightarrow>
             let i = (if neg then - int n else int n)
             in if - (2 ^ 63) \<le> i \<and> i < 2 ^ 63 then Ok i
                else Err (ErrNew ''strconv.Atoi: value out of range''))"

lemma parse_nat_itoa: "parse_nat (itoa n) = Some n"
  by (simp add: parse_nat_def itoa_digits digits_val_itoa)

lemma itoa_Cons: obtains d ds where "itoa n = d # ds" and "is_digit d"
proof (cases "itoa n")
  case (Cons d ds)
  then show ?thesis using itoa_is_digit [of d n] that by simp
qed simp

lemma Atoi_itoa_int:
  assumes "- (2 ^ 63) \<le> i" and "i < 2 ^ 63"
  shows "strconv_Atoi (itoa_int i) = Ok i"
proof (cases "i < 0")
  case True
  then show ?thesis using assms
    by (simp add: strconv_Atoi_def itoa_int_def parse_nat_itoa Let_def)
next
  case False
  obtain d ds where "itoa (nat i) = d # ds" and "is_digit d" by (rule itoa_Cons)
  then have "d \<noteq> CHR ''-''" "d \<noteq> CHR ''+''" by (auto dest: digit_char_ne)
  with False assms \<open>itoa (nat i) = d # ds\<close> parse_nat_itoa [of "nat i"] show ?thesis
    by (simp add: strconv_Atoi_def itoa_int_def Let_def)
qed

lemma itoa_int_set: "set (itoa_int i) \<subseteq> insert (CHR ''-'') {c. is_digit c}"
  by (auto simp: itoa_int_def dest: itoa_is_digit)

lemma itoa_int_no_sep: "CHR ''$'' \<notin> set (itoa_int i)"
  using itoa_int_set [of i] by (auto dest: digit_char_ne)

section \<open>fmt.Sscanf\<close>

text \<open>
  The white space of package \<open>fmt\<close>'s scanner, as the UTF-8 sequences of its table:
  U+0009 to U+000D without the newline, U+0020, U+0085, U+00A0, U+1680, U+2000 to U+200A,
  U+2028, U+2029, U+202F, U+205F and U+3000.  In \<open>Sscanf\<close> a newline is not white
  space: skipping onto one is an error.
\<close>

definition utf8_spaces :: "nat list list" where
  "utf8_spaces =
     [[9], [11], [12], [13], [32], [194, 133], [194, 160], [225, 154, 128]] @
     map (\<lambda>k. [226, 128, 128 + k]) [0..<11] @
     [[226, 128, 168], [226, 128, 169], [226, 128, 175], [226, 129, 159], [227, 128, 128]]"

definition space_prefix :: "string \<Rightarrow> nat option" where
  "space_prefix s =
     map_option length
       (List.find (\<lambda>p. take (length p) (map of_char s) = p) utf8_spaces)"

text \<open>\<open>SkipSpace\<close>: \<open>None\<close> is the error "unexpected newline".\<close>

function skip_space :: "string \<Rightarrow> string option" where
  "skip_space s =
     (case s of
        [] \<Rightarrow> Some []
      | c # cs \<Rightarrow>
          if (of_char c :: nat) = 10 then None
          else case space_prefix s of
                 None \<Rightarrow> Some s
               | Some k \<Rightarrow> if k = 0 then Some s else skip_space (drop k s))"
  by pat_completeness auto
termination
  by (relation "measure length") auto

declare skip_space.simps [simp del]

lemma take_ge_not_prefix:
  assumes "list_all (\<lambda>p. p \<noteq> [] \<and> hd p \<noteq> of_char c) ps"
  shows "List.find (\<lambda>p. take (length p) (map of_char (c # cs)) = p) ps = None"
  unfolding find_None_iff using assms
  by (auto simp: list_all_iff neq_Nil_conv take_Cons' split: if_splits)

lemma skip_space_nonspace:
  assumes "is_digit c"
  shows "skip_space (c # cs) = Some (c # cs)"
proof -
  have "list_all (\<lambda>p. p \<noteq> [] \<and> hd p \<noteq> of_char c) utf8_spaces"
    using assms by (auto simp: is_digit_def utf8_spaces_def list_all_iff)
  then have "space_prefix (c # cs) = None"
    unfolding space_prefix_def by (simp add: take_ge_not_prefix del: list.map)
  then show ?thesis
    using assms by (subst skip_space.simps) (simp add: is_digit_def)
qed

text \<open>A literal of the format must match the input exactly.\<close>

definition scan_lit :: "string \<Rightarrow> string \<Rightarrow> string option" where
  "scan_lit lit s = (if strings_HasPrefix s lit then Some (drop (length lit) s) else None)"

text \<open>
  \<open>%d\<close> into an unsigned variable of \<open>bits\<close> bits: skip space, take the longest run
  of digits (at least one), parse it as a 64-bit unsigned number, reject what does not fit.
\<close>

definition scan_uint :: "nat \<Rightarrow> string \<Rightarrow> (nat \<times> string) option" where
  "scan_uint bits s =
     (case skip_space s of
        None \<Rightarrow> None
      | Some s' \<Rightarrow>
          (case parse_nat (takeWhile is_digit s') of
             None \<Rightarrow> None
           | Some n \<Rightarrow>
               if n < 2 ^ 64 \<and> n < 2 ^ bits then Some (n, dropWhile is_digit s') else None))"

lemma scan_lit_append [simp]: "scan_lit p (p @ s) = Some s"
  by (simp add: scan_lit_def)

lemma takeWhile_itoa:
  assumes "rest = [] \<or> \<not> is_digit (hd rest)"
  shows "takeWhile is_digit (itoa n @ rest) = itoa n"
    and "dropWhile is_digit (itoa n @ rest) = rest"
  using assms by (auto simp: takeWhile_append2 dropWhile_append2 itoa_is_digit takeWhile_eq_Nil_iff
      dropWhile_eq_self_iff)

lemma scan_uint_itoa:
  assumes "n < 2 ^ bits" and "bits \<le> 64" and "rest = [] \<or> \<not> is_digit (hd rest)"
  shows "scan_uint bits (itoa n @ rest) = Some (n, rest)"
proof -
  obtain d ds where d: "itoa n = d # ds" "is_digit d" by (rule itoa_Cons)
  have "skip_space (itoa n @ rest) = Some (itoa n @ rest)"
    using d by (simp add: skip_space_nonspace)
  moreover have "n < 2 ^ 64"
    using assms(1,2) by (meson less_le_trans numeral_le_iff one_le_numeral power_increasing)
  ultimately show ?thesis
    using assms takeWhile_itoa [OF assms(3), of n]
    by (simp add: scan_uint_def parse_nat_itoa)
qed

end
