(* ===== verification/Db_Common.thy ===== *)
theory Db_Common
  imports Pg_Invariant Go_Strings
begin

text \<open>
  \<open>src/internal/repo/db/common.go\<close>: the conversion of identifiers to UUIDs and the
  retry loop every repository runs its queries in.  UUID parsing and printing belong to
  third-party packages (\<open>google/uuid\<close>, \<open>pgtype\<close>): the record \<open>uuid_lib\<close>.
\<close>

record uuid_lib =
  uuid_Parse :: "string \<Rightarrow> uuid option"
  uuid_String :: "uuid \<Rightarrow> string"

definition ToPgUUID :: "uuid_lib \<Rightarrow> string \<Rightarrow> uuid result" where
  "ToPgUUID U idStr =
     (case uuid_Parse U idStr of
        None \<Rightarrow> Err (Wrap ''uuid.Parse()'' (ErrLib ''uuid''))
      | Some u \<Rightarrow> Ok u)"

text \<open>The connection exceptions of package \<open>pgerrcode\<close>, in the order of the source.\<close>

definition retryable_codes :: "string list" where
  "retryable_codes = [''08000'', ''08003'', ''08006'', ''57P03'', ''08001'', ''08004'', ''08007'']"

definition isRetryableError :: "goerr \<Rightarrow> bool" where
  "isRetryableError err =
     (case errors_As_PgError err of
        None \<Rightarrow> False
      | Some c \<Rightarrow> c \<in> set retryable_codes)"

definition maxAttemptCount :: int where
  "maxAttemptCount = 3"

function WithRetry ::
  "('z env_scheme, 'a) comp \<Rightarrow> int \<Rightarrow> ('z env_scheme, 'a) comp" where
  "WithRetry dbQuery counter w =
     (case dbQuery w of
        (Ok res, w1) \<Rightarrow> (Ok res, w1)
      | (Panic p, w1) \<Rightarrow> (Panic p, w1)
      | (Hang, w1) \<Rightarrow> (Hang, w1)
      | (Err err, w1) \<Rightarrow>
          if maxAttemptCount \<le> counter then (Err (Wrap ''reatempt failed'' err), w1)
          else if isRetryableError err
          then WithRetry dbQuery (counter + 1) (time_Sleep (counter * 2 + 1) w1)
          else (Err (Wrap (''on attempt #'' @ itoa_int counter @ '' error occured'') err), w1))"
  by pat_completeness auto
termination
  by (relation "measure (\<lambda>(q, c, w). nat (maxAttemptCount - c))") auto

declare WithRetry.simps [simp del]

lemma ToPgUUID_Ok: "ToPgUUID U s = Ok u \<longleftrightarrow> uuid_Parse U s = Some u"
  by (simp add: ToPgUUID_def split: option.splits)

lemma ToPgUUID_no_panic [simp]: "ToPgUUID U s \<noteq> Panic p"
  by (simp add: ToPgUUID_def split: option.splits)

section \<open>Invariants and results of the retry loop\<close>

lemma WithRetry_Ok: "q w = (Ok x, w1) \<Longrightarrow> WithRetry q n w = (Ok x, w1)"
  by (simp add: WithRetry.simps)

lemma WithRetry_Panic: "q w = (Panic p, w1) \<Longrightarrow> WithRetry q n w = (Panic p, w1)"
  by (simp add: WithRetry.simps)

lemma WithRetry_Hang: "q w = (Hang, w1) \<Longrightarrow> WithRetry q n w = (Hang, w1)"
  by (simp add: WithRetry.simps)

lemma WithRetry_stop:
  "q w = (Err e, w1) \<Longrightarrow> \<not> isRetryableError e \<Longrightarrow> \<exists>msg. WithRetry q n w = (Err (Wrap msg e), w1)"
  by (auto simp: WithRetry.simps)

lemma WithRetry_again:
  "q w = (Err e, w1) \<Longrightarrow> isRetryableError e \<Longrightarrow> n < maxAttemptCount \<Longrightarrow>
     WithRetry q n w = WithRetry q (n + 1) (time_Sleep (n * 2 + 1) w1)"
  by (subst WithRetry.simps) simp

lemma WithRetry_last:
  "q w = (Err e, w1) \<Longrightarrow> maxAttemptCount \<le> n \<Longrightarrow>
     WithRetry q n w = (Err (Wrap ''reatempt failed'' e), w1)"
  by (simp add: WithRetry.simps)

text \<open>Induction over the attempts: one case per way an attempt can end.\<close>

lemma WithRetry_induct [case_names Ok Panic Hang Again Stop]:
  fixes P :: "'z env_scheme \<Rightarrow> int \<Rightarrow> 'a result \<times> 'z env_scheme \<Rightarrow> bool"
  assumes "\<And>n w x w1. q w = (Ok x, w1) \<Longrightarrow> P w n (Ok x, w1)"
    and "\<And>n w p w1. q w = (Panic p, w1) \<Longrightarrow> P w n (Panic p, w1)"
    and "\<And>n w w1. q w = (Hang, w1) \<Longrightarrow> P w n (Hang, w1)"
    and "\<And>n w e w1 r. q w = (Err e, w1) \<Longrightarrow> isRetryableError e \<Longrightarrow> n < maxAttemptCount \<Longrightarrow>
      P (time_Sleep (n * 2 + 1) w1) (n + 1) r \<Longrightarrow> P w n r"
    and "\<And>n w e w1 msg. q w = (Err e, w1) \<Longrightarrow> \<not> (isRetryableError e \<and> n < maxAttemptCount) \<Longrightarrow>
      P w n (Err (Wrap msg e), w1)"
  shows "P w n (WithRetry q n w)"
  using assms
proof (induction q n w rule: WithRetry.induct [case_names step])
  case (step q n w)
  obtain r w1 where q: "q w = (r, w1)" by (cases "q w")
  show ?case
  proof (cases r)
    case (Ok x)
    then show ?thesis using q step.prems(1) [of w x w1 n] by (simp add: WithRetry_Ok)
  next
    case (Panic p)
    then show ?thesis using q step.prems(2) [of w p w1 n] by (simp add: WithRetry_Panic)
  next
    case Hang
    then show ?thesis using q step.prems(3) [of w w1 n] by (simp add: WithRetry_Hang)
  next
    case (Err e)
    then have qe: "q w = (Err e, w1)" using q by simp
    show ?thesis
    proof (cases "isRetryableError e \<and> n < maxAttemptCount")
      case True
      with qe have again: "WithRetry q n w = WithRetry q (n + 1) (time_Sleep (n * 2 + 1) w1)"
        by (simp add: WithRetry_again)
      have "P (time_Sleep (n * 2 + 1) w1) (n + 1) (WithRetry q (n + 1) (time_Sleep (n * 2 + 1) w1))"
        using step.IH [OF qe [symmetric] refl _ _ step.prems] True by simp
      with True qe show ?thesis unfolding again by (blast intro: step.prems(4))
    next
      case False
      moreover have "\<exists>msg. WithRetry q n w = (Err (Wrap msg e), w1)"
        using qe False WithRetry_last [of q w e w1 n] WithRetry_stop [of q w e w1 n] by auto
      ultimately show ?thesis using qe step.prems(5) by auto
    qed
  qed
qed

lemma WithRetry_keeps:
  fixes q :: "('z env_scheme, 'a) comp"
  assumes "keeps I q" and sleep: "\<And>n w. I w \<Longrightarrow> I (time_Sleep n w)"
  shows "keeps I (WithRetry q n)"
proof (rule keepsI)
  fix w
  have "I w \<longrightarrow> I (snd (WithRetry q n w))"
  proof (rule WithRetry_induct [where P = "\<lambda>w n r. I w \<longrightarrow> I (snd r)" and q = q])
    fix n w e w1 and r :: "'a result \<times> 'z env_scheme"
    assume "q w = (Err e, w1)" and "I (time_Sleep (n * 2 + 1) w1) \<longrightarrow> I (snd r)"
    then show "I w \<longrightarrow> I (snd r)"
      using keepsD [OF assms(1), of w] sleep [of w1] by simp
  qed (use keepsD [OF assms(1)] in \<open>auto, (metis snd_conv)+\<close>)
  then show "I w \<Longrightarrow> I (snd (WithRetry q n w))" by blast
qed

text \<open>A successful loop is a successful attempt, made from a world in which an invariant of
  the query still holds.\<close>

lemma WithRetry_OkE:
  fixes q :: "('z env_scheme, 'a) comp"
  assumes "WithRetry q n w = (Ok x, w')" and "I w" and "keeps I q"
    and sleep: "\<And>n w. I w \<Longrightarrow> I (time_Sleep n w)"
  obtains v where "I v" and "q v = (Ok x, w')"
proof -
  let ?P = "\<lambda>w n r. I w \<longrightarrow> r = (Ok x, w') \<longrightarrow> (\<exists>v. I v \<and> q v = (Ok x, w'))"
  have "?P w n (WithRetry q n w)"
  proof (rule WithRetry_induct [where P = ?P and q = q])
    fix n w e w1 r
    assume "q w = (Err e, w1)" and "?P (time_Sleep (n * 2 + 1) w1) (n + 1) r"
    then show "?P w n r"
      using keepsD [OF assms(3), of w] sleep [of w1] by simp
  qed auto
  with assms(1,2) that show thesis by blast
qed

text \<open>A failed loop reports the error of its last attempt.\<close>

lemma WithRetry_ErrE:
  fixes q :: "('z env_scheme, 'a) comp"
  assumes "WithRetry q n w = (Err e, w')" and "I w" and "keeps I q"
    and sleep: "\<And>n w. I w \<Longrightarrow> I (time_Sleep n w)"
  obtains v msg e' where "I v" and "q v = (Err e', w')" and "e = Wrap msg e'"
proof -
  let ?P = "\<lambda>w n r. I w \<longrightarrow> r = (Err e, w') \<longrightarrow> (\<exists>v msg e'. I v \<and> q v = (Err e', w') \<and> e = Wrap msg e')"
  have "?P w n (WithRetry q n w)"
  proof (rule WithRetry_induct [where P = ?P and q = q])
    fix n w e0 w1 r
    assume "q w = (Err e0, w1)" and "?P (time_Sleep (n * 2 + 1) w1) (n + 1) r"
    then show "?P w n r"
      using keepsD [OF assms(3), of w] sleep [of w1] by simp
  qed auto
  with assms(1,2) that show thesis by blast
qed

lemma WithRetry_never_Ok:
  assumes "\<And>v. \<not> is_Ok (fst (q v))"
  shows "\<not> is_Ok (fst (WithRetry q n w))"
proof
  assume "is_Ok (fst (WithRetry q n w))"
  then obtain x w' where "WithRetry q n w = (Ok x, w')" by (auto simp: is_Ok_iff prod_eq_iff)
  then obtain v where "q v = (Ok x, w')"
    by (rule WithRetry_OkE [where I = "\<lambda>_. True"]) (simp_all add: keeps_def)
  then show False using assms [of v] by simp
qed

lemma WithRetry_frames:
  assumes "frames f q" and "\<And>n w. f (time_Sleep n w) = f w"
  shows "frames f (WithRetry q n)"
  unfolding frames_def using assms by (intro allI WithRetry_keeps frames_keeps) simp_all

lemma wf_time_Sleep: "wf_world w \<Longrightarrow> wf_world (time_Sleep n w)"
  by (simp add: wf_world_def time_Sleep_def)

lemma WithRetry_wf [keeps_rules]: "keeps wf_world q \<Longrightarrow> keeps wf_world (WithRetry q n)"
  by (rule WithRetry_keeps) (auto intro: wf_time_Sleep)

section \<open>Attempts\<close>

text \<open>The world just before attempt \<open>k\<close>, counted from the counter \<open>c\<close>, when every
  earlier attempt failed and was retried.\<close>

fun attempt_from ::
  "('z env_scheme, 'a) comp \<Rightarrow> int \<Rightarrow> nat \<Rightarrow> 'z env_scheme \<Rightarrow> 'z env_scheme" where
  "attempt_from q c 0 w = w"
| "attempt_from q c (Suc k) w = attempt_from q (c + 1) k (time_Sleep (c * 2 + 1) (snd (q w)))"

definition retried :: "('z env_scheme, 'a) comp \<Rightarrow> 'z env_scheme \<Rightarrow> bool" where
  "retried q w = (case fst (q w) of Err e \<Rightarrow> isRetryableError e | _ \<Rightarrow> False)"

text \<open>The first \<open>k\<close> attempts failed with an error that is retried.\<close>

fun all_retried :: "('z env_scheme, 'a) comp \<Rightarrow> int \<Rightarrow> nat \<Rightarrow> 'z env_scheme \<Rightarrow> bool" where
  "all_retried q c 0 w = True"
| "all_retried q c (Suc k) w =
     (retried q w \<and> all_retried q (c + 1) k (time_Sleep (c * 2 + 1) (snd (q w))))"

lemma ex_nat_0_Suc: "(\<exists>k. P k) \<longleftrightarrow> P 0 \<or> (\<exists>k. P (Suc k))"
  by (metis not0_implies_Suc)

lemma WithRetry_Ok_iff_from:
  assumes "c \<le> maxAttemptCount"
  shows "WithRetry q c w = (Ok x, w') \<longleftrightarrow>
    (\<exists>k. c + int k \<le> maxAttemptCount \<and> all_retried q c k w \<and> q (attempt_from q c k w) = (Ok x, w'))"
  using assms
proof (induction q c w rule: WithRetry.induct [case_names step])
  case (step q c w)
  obtain r w1 where q: "q w = (r, w1)" by (cases "q w")
  show ?case
  proof (cases "c < maxAttemptCount \<and> retried q w")
    case True
    then obtain e where e: "r = Err e" "isRetryableError e" and c: "c < maxAttemptCount"
      using q by (auto simp: retried_def split: result.splits)
    have "WithRetry q c w = WithRetry q (c + 1) (time_Sleep (c * 2 + 1) w1)"
      using q e c by (simp add: WithRetry_again)
    also have "\<dots> = (Ok x, w') \<longleftrightarrow>
        (\<exists>k. c + 1 + int k \<le> maxAttemptCount \<and> all_retried q (c + 1) k (time_Sleep (c * 2 + 1) w1) \<and>
          q (attempt_from q (c + 1) k (time_Sleep (c * 2 + 1) w1)) = (Ok x, w'))"
      using step.IH [OF q [unfolded e(1), symmetric] refl] e c by simp
    finally show ?thesis
      using q e True by (subst ex_nat_0_Suc) (simp add: algebra_simps)
  next
    case False
    have "WithRetry q c w = (Ok x, w') \<longleftrightarrow> q w = (Ok x, w')"
      using q False by (cases r) (auto simp: WithRetry.simps retried_def)
    then show ?thesis
      using False step.prems by (subst ex_nat_0_Suc) auto
  qed
qed

lemma WithRetry_count:
  fixes q :: "('z env_scheme, 'a) comp"
  assumes cnt: "\<And>w. cnt (snd (q w)) = Suc (cnt w)" and sleep: "\<And>n w. cnt (time_Sleep n w) = cnt w"
    and quick: "\<And>w. now (snd (q w)) = now w" and "0 \<le> c" "c \<le> maxAttemptCount"
  shows "\<exists>a. 1 \<le> a \<and> c + int a \<le> maxAttemptCount + 1 \<and> cnt (snd (WithRetry q c w)) = cnt w + a
    \<and> now (snd (WithRetry q c w)) = now w + ((c + int a - 1)\<^sup>2 - c\<^sup>2) * second"
proof -
  let ?P = "\<lambda>w c (r :: 'a result \<times> 'z env_scheme). 0 \<le> c \<longrightarrow> c \<le> maxAttemptCount \<longrightarrow>
    (\<exists>a. 1 \<le> a \<and> c + int a \<le> maxAttemptCount + 1 \<and> cnt (snd r) = cnt w + a
      \<and> now (snd r) = now w + ((c + int a - 1)\<^sup>2 - c\<^sup>2) * second)"
  have one: "?P w c (r', w1)" if "q w = (r, w1)" for w c r r' w1
    using that cnt [of w] quick [of w] by (intro impI exI [of _ 1]) simp
  have "?P w c (WithRetry q c w)"
  proof (rule WithRetry_induct [where P = ?P and q = q])
    fix n w e w1 and r :: "'a result \<times> 'z env_scheme"
    assume q: "q w = (Err e, w1)" and n: "n < maxAttemptCount"
      and IH: "?P (time_Sleep (n * 2 + 1) w1) (n + 1) r"
    show "?P w n r"
    proof (intro impI)
      assume "0 \<le> n" "n \<le> maxAttemptCount"
      with IH n obtain a where a: "1 \<le> a" "n + 1 + int a \<le> maxAttemptCount + 1"
        "cnt (snd r) = cnt (time_Sleep (n * 2 + 1) w1) + a"
        "now (snd r) = now (time_Sleep (n * 2 + 1) w1) + ((n + 1 + int a - 1)\<^sup>2 - (n + 1)\<^sup>2) * second"
        by auto
      have "now (snd r) = now w + ((n + int (Suc a) - 1)\<^sup>2 - n\<^sup>2) * second"
        using a(4) q quick [of w] \<open>0 \<le> n\<close>
        by (simp add: time_Sleep_def power2_eq_square algebra_simps)
      then show "\<exists>a. 1 \<le> a \<and> n + int a \<le> maxAttemptCount + 1 \<and> cnt (snd r) = cnt w + a
          \<and> now (snd r) = now w + ((n + int a - 1)\<^sup>2 - n\<^sup>2) * second"
        using a q cnt [of w] sleep by (intro exI [of _ "Suc a"]) simp
    qed
  qed (rule one, assumption)+
  with assms(4,5) show ?thesis by blast
qed

section \<open>Round trips and deadlines\<close>

lemma pool_exec_done: "ctx_Err c (now w) = Some e \<Longrightarrow> pool_exec c st w = (Err e, w)"
  by (simp add: pool_exec_def)

text \<open>A quiet network: the context is alive and the coming replies all arrive.\<close>

definition reliable :: "ctx \<Rightarrow> world \<Rightarrow> bool" where
  "reliable c w \<longleftrightarrow> net w = [] \<and> ctx_Err c (now w) = None"

lemma pool_exec_reliable:
  assumes "net w = []" and "ctx_Err c (now w) = None"
  shows "pool_exec c st w = run_stmt st w"
proof -
  have "after_event w = w"
    using assms(1) by (cases w) (simp add: after_event_def next_event_def)
  then show ?thesis
    using assms unfolding pool_exec_def next_event_def by (simp del: after_event_simps)
qed

text \<open>A reply that arrives was produced by the statement on the tables as they are.\<close>

lemma pool_exec_OkE:
  assumes "pool_exec c st w = (Ok x, w')"
  obtains fresh where "fst (st fresh (now w') (db w)) = Ok x"
    and "db w' = snd (st fresh (now w') (db w))"
proof -
  let ?fresh = "uuid_src w (uuid_pos w)"
  have "fst (st ?fresh (now w') (db w)) = Ok x" and "db w' = snd (st ?fresh (now w') (db w))"
    using assms
    by (auto simp: pool_exec_def run_stmt_def split: option.splits net_event.splits prod.splits)
  then show thesis by (rule that)
qed

lemma fault_err_not_Is [simp]: "\<not> errors_Is (fault_err f) s"
  by (cases f) simp_all

text \<open>A failed round trip reports a context error, a fault of the network, or the error of
  the statement.\<close>

lemma pool_exec_ErrE:
  assumes "pool_exec c st w = (Err e, w')"
  obtains (Ctx) t where "ctx_Err c t = Some e"
  | (Fault) f where "e = fault_err f"
  | (Stmt) fresh at where "fst (st fresh at (db w)) = Err e"
proof -
  have "(\<exists>t. ctx_Err c t = Some e) \<or> (\<exists>f. e = fault_err f) \<or> (\<exists>fresh at. fst (st fresh at (db w)) = Err e)"
    using assms
    by (auto simp: pool_exec_def run_stmt_def split: option.splits net_event.splits prod.splits) (metis fst_conv)+
  then show thesis using that by blast
qed

lemma ctx_Err_Is:
  "ctx_Err c t = Some e \<Longrightarrow> errors_Is e s \<Longrightarrow> s \<in> {Context_Canceled, Context_DeadlineExceeded}"
  by (auto simp: ctx_Err_def split: if_splits)

text \<open>No error of a round trip is one of the other sentinels, unless the statement's is.\<close>

lemma pool_exec_not_Is:
  assumes "pool_exec c st w = (Err e, w')" and "s \<notin> {Context_Canceled, Context_DeadlineExceeded}"
    and "\<And>fresh at t e. fst (st fresh at t) = Err e \<Longrightarrow> \<not> errors_Is e s"
  shows "\<not> errors_Is e s"
  using assms(1)
  by (cases rule: pool_exec_ErrE) (use assms(2,3) ctx_Err_Is in \<open>auto, blast\<close>)

definition stmt_total :: "'a stmt \<Rightarrow> bool" where
  "stmt_total st \<longleftrightarrow> (\<forall>fresh at t. returns (fst (st fresh at t)))"

lemma pool_exec_total [total_rules]: "stmt_total st \<Longrightarrow> total (pool_exec c st)"
  by (rule totalI)
     (auto simp: stmt_total_def pool_exec_def run_stmt_def split: option.splits net_event.splits prod.splits,
      metis fst_conv)

lemma stmts_total [total_rules]:
  "stmt_total (sql_Create l p)" "stmt_total (sql_FindByLogin l)" "stmt_total (sql_DeleteUser u)"
  "stmt_total (sql_Save u h e)" "stmt_total (sql_Validate h u)" "stmt_total (sql_DeleteToken h)"
  "stmt_total (sql_PutMetadata u d n s k)" "stmt_total (sql_GetMetadata i)" "stmt_total (sql_ListByUser u)"
  "stmt_total (sql_DeleteMetadata i)" "stmt_total (sql_InsertBlob i bs)" "stmt_total (sql_PutManifest i b x y)"
  "stmt_total (sql_DeleteObject loc)" "stmt_total (sql_getQuery loc)" "stmt_total sql_Begin"
  by (auto simp: stmt_total_def sql_Create_def sql_FindByLogin_def sql_DeleteUser_def sql_Save_def
      sql_Validate_def sql_DeleteToken_def sql_PutMetadata_def sql_GetMetadata_def sql_ListByUser_def
      sql_DeleteMetadata_def sql_InsertBlob_def sql_PutManifest_def sql_DeleteObject_def sql_getQuery_def
      sql_Begin_def split: option.split list.split)

lemma ToPgUUID_returns [total_rules]: "returns (ToPgUUID U s)"
  by (simp add: ToPgUUID_def split: option.split)

lemma WithRetry_total [total_rules]:
  fixes q :: "('z env_scheme, 'a) comp"
  assumes "total q"
  shows "total (WithRetry q n)"
proof (rule totalI)
  fix w
  show "returns (fst (WithRetry q n w))"
    by (rule WithRetry_induct [where P = "\<lambda>w n r. returns (fst r)" and q = q])
       (use totalD [OF assms] in \<open>auto, (metis fst_conv returns.simps)+\<close>)
qed

text \<open>A round trip changes the tables only by running the statement.\<close>

lemma pool_exec_db:
  assumes "\<And>fresh at t. f (snd (st fresh at t)) = f t"
  shows "frames (\<lambda>w. f (db w)) (pool_exec c st)"
  using assms
  by (intro framesI)
     (auto simp: pool_exec_def run_stmt_def split: option.splits net_event.splits prod.splits, (metis snd_conv)+)

lemma db_time_Sleep [simp]: "db (time_Sleep n w) = db w"
  by (simp add: time_Sleep_def)

text \<open>The response stream is no business of the database client.\<close>

definition stream_state :: "world \<Rightarrow> (pb_Metadata option \<times> Payload option) list \<times> (nat \<Rightarrow> goerr option)" where
  "stream_state w = (sent w, send_err w)"

lemma stream_time_Sleep [simp]: "stream_state (time_Sleep n w) = stream_state w"
  by (simp add: stream_state_def time_Sleep_def)

lemma pool_exec_stream: "frames stream_state (pool_exec c st)"
  by (rule framesI)
     (simp add: stream_state_def pool_exec_def run_stmt_def split: option.split net_event.split prod.split)

lemma pool_exec_time: "now w \<le> now (snd (pool_exec c st w))"
  by (auto simp: pool_exec_def run_stmt_def split: option.splits net_event.splits prod.splits)

lemma pool_exec_clock [keeps_rules]: "keeps (\<lambda>w. t \<le> now w) (pool_exec c st)"
  by (rule keepsI) (rule order_trans [OF _ pool_exec_time])

lemma WithRetry_clock [keeps_rules]:
  "keeps (\<lambda>w. t \<le> now w) q \<Longrightarrow> keeps (\<lambda>w. t \<le> now w) (WithRetry q n)"
  by (rule WithRetry_keeps) (simp_all add: time_Sleep_def second_def)

lemma now_time_Sleep: "now w + n * second \<le> now (time_Sleep n w)"
  by (simp add: time_Sleep_def second_def)

lemma attempt_from_time:
  assumes mono: "\<And>v. now v \<le> now (snd (q v))" and "0 \<le> c"
  shows "now w + ((c + int k)\<^sup>2 - c\<^sup>2) * second \<le> now (attempt_from q c k w)"
  using \<open>0 \<le> c\<close>
proof (induction k arbitrary: c w)
  case 0
  then show ?case by simp
next
  case (Suc k)
  have "now w + (c * 2 + 1) * second \<le> now (time_Sleep (c * 2 + 1) (snd (q w)))"
    using now_time_Sleep [of "snd (q w)" "c * 2 + 1"] mono [of w] by simp
  moreover have "now (time_Sleep (c * 2 + 1) (snd (q w))) + ((c + 1 + int k)\<^sup>2 - (c + 1)\<^sup>2) * second
      \<le> now (attempt_from q c (Suc k) w)"
    using Suc.IH [of "c + 1"] Suc.prems by simp
  ultimately have "now w + (c * 2 + 1) * second + ((c + 1 + int k)\<^sup>2 - (c + 1)\<^sup>2) * second
      \<le> now (attempt_from q c (Suc k) w)"
    by simp
  then show ?case by (simp add: power2_eq_square algebra_simps)
qed

section \<open>Properties\<close>

text \<open>A world for the witnesses: empty tables, a network that loses the first request with a
  connection failure, UUIDs numbered from one.\<close>

definition demo_world :: "(nat \<times> net_event) list \<Rightarrow> world" where
  "demo_world events = \<lparr>rnd_src = (\<lambda>k. Inr (\<lambda>i. of_nat (k + i))), rnd_pos = 0, now = 0,
     db = migrated, net = events, uuid_src = of_nat, uuid_pos = 1, open_tx = None,
     readers = (\<lambda>_. []), next_reader = 0, sent = [], send_err = (\<lambda>_. None)\<rparr>"

definition connection_failure :: goerr where
  "connection_failure = PgError ''08006''"

lemma wf_demo_world: "wf_world (demo_world events)"
  by (simp add: demo_world_def wf_world_def wf_migrated)

text \<open>C12: The retry loop succeeds exactly when one of the first four attempts succeeds and
  all attempts before it failed with a retryable error; the result is that attempt's result,
  and the attempts run after pauses of 1, 3 and 5 seconds.\<close>

theorem WithRetry_Ok_iff:
  "WithRetry q 0 w = (Ok x, w') \<longleftrightarrow>
     (\<exists>k. k \<le> 3 \<and> all_retried q 0 k w \<and> q (attempt_from q 0 k w) = (Ok x, w'))"
  using WithRetry_Ok_iff_from [of 0 q w x w'] by (simp add: maxAttemptCount_def)

text \<open>A query is attempted between one and four times, and when the query itself takes
  no time the loop sleeps for the square of the number of repetitions in seconds, so at most
  nine seconds.\<close>

theorem WithRetry_attempts_bounded:
  fixes q :: "('z env_scheme, 'a) comp"
  assumes "\<And>w. cnt (snd (q w)) = Suc (cnt w)" and "\<And>n w. cnt (time_Sleep n w) = cnt w"
    and "\<And>w. now (snd (q w)) = now w"
  shows "\<exists>a. 1 \<le> a \<and> a \<le> 4 \<and> cnt (snd (WithRetry q 0 w)) = cnt w + a
    \<and> now (snd (WithRetry q 0 w)) = now w + (int a - 1)\<^sup>2 * second"
proof -
  obtain a where "1 \<le> a" "int a \<le> maxAttemptCount + 1"
    "cnt (snd (WithRetry q 0 w)) = cnt w + a"
    "now (snd (WithRetry q 0 w)) = now w + (int a - 1)\<^sup>2 * second"
    using WithRetry_count [of cnt q 0 w] assms by (auto simp: maxAttemptCount_def)
  then show ?thesis by (intro exI [of _ a]) (simp add: maxAttemptCount_def)
qed

text \<open>A query that counts its runs and always fails with a retryable error is run four times.\<close>

definition demo_query :: "(env, unit) comp" where
  "demo_query w = (Err connection_failure, w\<lparr>rnd_pos := Suc (rnd_pos w)\<rparr>)"

definition demo_env0 :: env where
  "demo_env0 = \<lparr>rnd_src = (\<lambda>_. Inr (\<lambda>_. 0)), rnd_pos = 0, now = 0\<rparr>"

theorem WithRetry_attempts_bounded_witness:
  "\<exists>a. 1 \<le> a \<and> a \<le> 4 \<and> rnd_pos (snd (WithRetry demo_query 0 demo_env0)) = 0 + a
    \<and> now (snd (WithRetry demo_query 0 demo_env0)) = 0 + (int a - 1)\<^sup>2 * second"
  using WithRetry_attempts_bounded [of rnd_pos demo_query demo_env0]
  by (simp add: demo_query_def time_Sleep_def demo_env0_def)



end
