(* ===== verification/User_Repo.thy ===== *)
theory User_Repo
  imports Db_Common
begin

text \<open>
  \<open>src/internal/repo/db/user_repo.go\<close>: accounts, and the interface
  \<open>v1.UserRepository\<close> the authentication service uses.
\<close>

definition msgWrongUserID :: string where
  "msgWrongUserID = ''wrong userID format''"

section \<open>The repository\<close>

definition UserRepository_Create :: "uuid_lib \<Rightarrow> ctx \<Rightarrow> User \<Rightarrow> (world, UserID) comp" where
  "UserRepository_Create U c u =
     call (WithRetry
       (call (pool_exec c (sql_Create (LoginHash u) (PasswordPHC u))) (wrapping ''queries.Create failed'')
        (\<lambda>userID. ret (uuid_String U userID))) 0) fail ret"

definition UserRepository_FindByLogin :: "uuid_lib \<Rightarrow> ctx \<Rightarrow> bytes \<Rightarrow> (world, UserID \<times> User) comp" where
  "UserRepository_FindByLogin U c loginHash =
     call (WithRetry
       (call (pool_exec c (sql_FindByLogin loginHash)) (wrapping ''queries.FindByLogin failed'')
        (\<lambda>(uid, phc). ret (uuid_String U uid, \<lparr>PasswordPHC = phc, LoginHash = []\<rparr>))) 0) fail ret"

definition UserRepository_Delete :: "uuid_lib \<Rightarrow> ctx \<Rightarrow> UserID \<Rightarrow> (world, unit) comp" where
  "UserRepository_Delete U c uuid =
     call (WithRetry
       (call (pure_call (ToPgUUID U uuid)) (wrapping ''wrong userID format'') (\<lambda>pgID.
        call (pool_exec c (sql_DeleteUser pgID)) (wrapping ''queries.Delete failed'') ret)) 0) fail ret"

definition known_user :: "uuid_lib \<Rightarrow> world \<Rightarrow> UserID \<Rightarrow> bool" where
  "known_user U w u \<longleftrightarrow>
     (case uuid_Parse U u of None \<Rightarrow> False | Some uid \<Rightarrow> uid \<in> u_id ` set (users (db w)))"

section \<open>The interface\<close>

record UserRepository =
  ur_Create :: "ctx \<Rightarrow> User \<Rightarrow> (world, UserID) comp"
  ur_FindByLogin :: "ctx \<Rightarrow> bytes \<Rightarrow> (world, UserID \<times> User) comp"
  ur_Delete :: "ctx \<Rightarrow> UserID \<Rightarrow> (world, unit) comp"

definition NewUserRepository :: "uuid_lib \<Rightarrow> UserRepository" where
  "NewUserRepository U = \<lparr>ur_Create = UserRepository_Create U,
     ur_FindByLogin = UserRepository_FindByLogin U, ur_Delete = UserRepository_Delete U\<rparr>"

text \<open>
  The contract.  \<open>account w u l p\<close> says that user \<open>u\<close> has login hash \<open>l\<close> and
  password string \<open>p\<close>.
\<close>

locale user_repository =
  fixes R :: UserRepository
    and account :: "world \<Rightarrow> UserID \<Rightarrow> bytes \<Rightarrow> string \<Rightarrow> bool"
  assumes account_db: "db v = db w \<Longrightarrow> account v u l p = account w u l p"
    and create_Ok: "ur_Create R c x w = (Ok u, w') \<Longrightarrow> account w' u (LoginHash x) (PasswordPHC x)"
    and create_new: "ur_Create R c x w = (Ok u, w') \<Longrightarrow> \<not> account w u' (LoginHash x) p"
    and create_other: "ur_Create R c x w = (r, w') \<Longrightarrow> l \<noteq> LoginHash x \<Longrightarrow>
      account w' u' l p = account w u' l p"
    and create_keeps: "keeps wf_world (ur_Create R c x)"
    and create_total: "total (ur_Create R c x)"
    and find_sound: "ur_FindByLogin R c l w = (Ok (u, x), w') \<Longrightarrow> account w u l (PasswordPHC x)"
    and find_frames: "frames db (ur_FindByLogin R c l)"
    and find_keeps: "keeps wf_world (ur_FindByLogin R c l)"
    and find_total: "total (ur_FindByLogin R c l)"
    and delete_keeps: "keeps wf_world (ur_Delete R c u)"

section \<open>The repository meets the contract\<close>

definition user_account :: "uuid_lib \<Rightarrow> world \<Rightarrow> UserID \<Rightarrow> bytes \<Rightarrow> string \<Rightarrow> bool" where
  "user_account U w u l p \<longleftrightarrow>
     list_ex (\<lambda>r. uuid_String U (u_id r) = u \<and> u_login_hash r = l \<and> u_password_phc r = p) (users (db w))"

lemma sql_Create_grows: "set (users t) \<subseteq> set (users (snd (sql_Create l p fresh at t)))"
  by (auto simp: sql_Create_def)

text \<open>A round trip only adds users when its statement does.\<close>

lemma pool_exec_stmt:
  assumes "\<And>fresh at t. I t \<Longrightarrow> I (snd (st fresh at t))"
  shows "keeps (\<lambda>w. I (db w)) (pool_exec c st)"
  using assms
  by (intro keepsI)
     (auto simp: pool_exec_def run_stmt_def split: option.splits net_event.splits prod.splits, (metis snd_conv)+)

lemma Create_OkE:
  assumes "UserRepository_Create U c x w = (Ok u, w')"
  obtains v :: world and uid where "set (users (db w)) \<subseteq> set (users (db v))" and "u = uuid_String U uid"
    and "LoginHash x \<notin> u_login_hash ` set (users (db v))"
    and "users (db w') = users (db v) @
      [\<lparr>u_id = uid, u_login_hash = LoginHash x, u_password_phc = PasswordPHC x\<rparr>]"
proof -
  let ?I = "\<lambda>v. set (users (db w)) \<subseteq> set (users (db v))"
  let ?q = "call (pool_exec c (sql_Create (LoginHash x) (PasswordPHC x))) (wrapping ''queries.Create failed'')
        (\<lambda>userID. ret (uuid_String U userID))"
  have "keeps ?I ?q"
    by (intro keeps_rules pool_exec_stmt [where I = "\<lambda>t. set (users (db w)) \<subseteq> set (users t)"])
       (use sql_Create_grows in blast)
  with assms obtain v where v: "?I v" "?q v = (Ok u, w')"
    unfolding UserRepository_Create_def call_fail_ret
    by (elim WithRetry_OkE [where I = ?I]) simp_all
  from v(2) obtain uid where u: "u = uuid_String U uid"
    and run: "pool_exec c (sql_Create (LoginHash x) (PasswordPHC x)) v = (Ok uid, w')"
    by (elim call_OkE) (auto simp: comp_simps)
  from run show thesis
    by (rule pool_exec_OkE) (auto simp: sql_Create_def split: if_splits intro: that [OF v(1) u])
qed

lemma Create_Ok:
  assumes "UserRepository_Create U c x w = (Ok u, w')"
  shows "user_account U w' u (LoginHash x) (PasswordPHC x)" and "\<not> user_account U w u' (LoginHash x) p"
proof -
  from assms show "user_account U w' u (LoginHash x) (PasswordPHC x)"
    by (rule Create_OkE) (simp add: user_account_def list_ex_iff)
  from assms show "\<not> user_account U w u' (LoginHash x) p"
    by (rule Create_OkE) (auto simp: user_account_def list_ex_iff image_iff subset_iff, metis)
qed

text \<open>The accounts with another login are untouched.\<close>

definition other_users :: "bytes \<Rightarrow> tables \<Rightarrow> user_row set" where
  "other_users l t = {r \<in> set (users t). u_login_hash r \<noteq> l}"

lemma Create_frames: "frames (\<lambda>w. other_users (LoginHash x) (db w)) (UserRepository_Create U c x)"
  unfolding UserRepository_Create_def call_fail_ret
  by (intro WithRetry_frames frames_rules pool_exec_db) (auto simp: sql_Create_def other_users_def)

lemma user_account_other:
  "l \<noteq> k \<Longrightarrow> other_users k (db v) = other_users k (db w) \<Longrightarrow> user_account U v u l p = user_account U w u l p"
  unfolding user_account_def list_ex_iff other_users_def by blast

lemma FindByLogin_frames: "frames db (UserRepository_FindByLogin U c l)"
  unfolding UserRepository_FindByLogin_def call_fail_ret
  by (intro WithRetry_frames frames_rules pool_exec_db [where f = "\<lambda>t. t"])
     (auto simp: sql_FindByLogin_def frames_simple)

lemma FindByLogin_fails: "\<not> is_Ok (fst (UserRepository_FindByLogin U c l w))"
proof -
  have "\<not> is_Ok (fst (pool_exec c (sql_FindByLogin l) v))" for v
    by (simp add: pool_exec_def run_stmt_def sql_FindByLogin_def split: option.split net_event.split)
  then have "\<not> is_Ok (fst (call (pool_exec c (sql_FindByLogin l)) (wrapping msg) k v))" for v msg
      and k :: "uuid \<times> string \<Rightarrow> (world, UserID \<times> User) comp"
    by (rule call_not_Ok) (rule wrapping_not_Ok)
  then show ?thesis
    unfolding UserRepository_FindByLogin_def call_fail_ret by (rule WithRetry_never_Ok)
qed

lemma FindByLogin_wf: "keeps wf_world (UserRepository_FindByLogin U c l)"
  unfolding UserRepository_FindByLogin_def by (intro keeps_rules stmt_keeps)

lemma Create_wf: "keeps wf_world (UserRepository_Create U c x)"
  unfolding UserRepository_Create_def by (intro keeps_rules stmt_keeps)

lemma Delete_user_wf: "keeps wf_world (UserRepository_Delete U c u)"
  unfolding UserRepository_Delete_def by (intro keeps_rules stmt_keeps)

lemma Create_total: "total (UserRepository_Create U c x)"
  unfolding UserRepository_Create_def by (intro total_rules)

lemma FindByLogin_total: "total (UserRepository_FindByLogin U c l)"
  unfolding UserRepository_FindByLogin_def by (intro total_rules)

interpretation pg_users: user_repository "NewUserRepository U" "user_account U" for U
proof (unfold_locales, unfold NewUserRepository_def UserRepository.select_convs)
  fix v w :: world and u l p
  assume "db v = db w"
  then show "user_account U v u l p = user_account U w u l p" by (simp add: user_account_def)
next
  fix c x w r w' l u' p
  assume "UserRepository_Create U c x w = (r, w')" and "l \<noteq> LoginHash x"
  then show "user_account U w' u' l p = user_account U w u' l p"
    using framesD' [OF Create_frames] by (metis user_account_other)
next
  fix c l w u x w'
  assume "UserRepository_FindByLogin U c l w = (Ok (u, x), w')"
  then show "user_account U w u l (PasswordPHC x)"
    using FindByLogin_fails [of U c l w] by simp
qed (fact Create_Ok Create_wf Create_total FindByLogin_frames FindByLogin_wf FindByLogin_total Delete_user_wf)+

section \<open>Examples\<close>

text \<open>UUIDs printed as decimal numbers, for the witnesses, and a world with one user.\<close>

definition demo_uuid :: uuid_lib where
  "demo_uuid = \<lparr>uuid_Parse = (\<lambda>s. map_option of_nat (parse_nat s)), uuid_String = (\<lambda>u. itoa (unat u))\<rparr>"

definition demo_user_world :: world where
  "demo_user_world = (demo_world [])\<lparr>db := migrated\<lparr>users :=
     [\<lparr>u_id = 1, u_login_hash = [1], u_password_phc = ''phc''\<rparr>]\<rparr>\<rparr>"

lemma demo_uuid_1: "uuid_Parse demo_uuid ''1'' = Some 1"
  by (simp add: demo_uuid_def parse_nat_def is_digit_def digits_val_def digit_val_def)

lemma wf_demo_user_world: "wf_world demo_user_world"
  by (simp add: demo_user_world_def wf_world_def demo_world_def wf_defs migrated_def)

section \<open>Properties\<close>

lemma FindByLogin_not_found:
  assumes "UserRepository_FindByLogin U c l w = (Err e, w')"
  shows "\<not> errors_Is e Model_ErrNotFound"
proof -
  from assms obtain v msg e' where e: "e = Wrap msg e'"
    and "call (pool_exec c (sql_FindByLogin l)) (wrapping ''queries.FindByLogin failed'')
      (\<lambda>(uid, phc). ret (uuid_String U uid, \<lparr>PasswordPHC = phc, LoginHash = []\<rparr>)) v = (Err e', w')"
    unfolding UserRepository_FindByLogin_def call_fail_ret
    by (rule WithRetry_ErrE [where I = "\<lambda>_. True"]) (simp_all add: keeps_def)
  then obtain e'' v' where "e' = Wrap ''queries.FindByLogin failed'' e''"
    and "pool_exec c (sql_FindByLogin l) v = (Err e'', v')"
    by (auto simp: call_def comp_simps split: prod.splits result.splits)
  moreover from this(2) have "\<not> errors_Is e'' Model_ErrNotFound"
    by (rule pool_exec_not_Is) (auto simp: sql_FindByLogin_def undefined_operator_def)
  ultimately show ?thesis using e by simp
qed

text \<open>The search for a user by login fails on every database and every network, leaves
  the tables unchanged, and its error is never \<open>model.ErrNotFound\<close>, the only error the
  registration handler takes to mean that the login is free.\<close>

theorem FindByLogin_never_finds:
  "\<exists>e w'. UserRepository_FindByLogin U c l w = (Err e, w') \<and> db w' = db w \<and>
     \<not> errors_Is e Model_ErrNotFound"
proof -
  obtain e w' where run: "UserRepository_FindByLogin U c l w = (Err e, w')"
    using total_ErrE [OF FindByLogin_total FindByLogin_fails] by (metis prod.collapse)
  moreover have "db w' = db w" using framesD' [OF FindByLogin_frames run] .
  ultimately show ?thesis using FindByLogin_not_found by blast
qed

text \<open>C28: A successful \<open>Create\<close> stores exactly the new account under a login hash that
  was free, and changes no account with another login hash, however many attempts the network
  makes necessary.\<close>

theorem Create_registers:
  assumes "UserRepository_Create U c x w = (Ok u, w')"
  shows "user_account U w' u (LoginHash x) (PasswordPHC x) \<and>
    (\<forall>u' p. \<not> user_account U w u' (LoginHash x) p) \<and>
    (\<forall>u' l p. l = LoginHash x \<or> (user_account U w' u' l p \<longleftrightarrow> user_account U w u' l p))"
proof (intro conjI allI)
  have run: "ur_Create (NewUserRepository U) c x w = (Ok u, w')"
    using assms by (simp add: NewUserRepository_def)
  show "user_account U w' u (LoginHash x) (PasswordPHC x)"
    by (rule pg_users.create_Ok [OF run])
  show "\<not> user_account U w u' (LoginHash x) p" for u' p
    by (rule pg_users.create_new [OF run])
  show "l = LoginHash x \<or> (user_account U w' u' l p \<longleftrightarrow> user_account U w u' l p)" for u' l p
    using pg_users.create_other [OF run] by blast
qed

theorem Create_registers_witness:
  "\<exists>u w'. UserRepository_Create demo_uuid context_Background \<lparr>PasswordPHC = ''phc'', LoginHash = [2]\<rparr>
     (demo_world []) = (Ok u, w') \<and> user_account demo_uuid w' u [2] ''phc''"
proof -
  obtain u w' where run: "UserRepository_Create demo_uuid context_Background
      \<lparr>PasswordPHC = ''phc'', LoginHash = [2]\<rparr> (demo_world []) = (Ok u, w')"
    by (simp add: UserRepository_Create_def WithRetry.simps call_def comp_simps
        demo_world_def pool_exec_reliable run_stmt_def sql_Create_def migrated_def)
  with Create_registers [OF run] show ?thesis by auto
qed

end
