(* ===== verification/Metadata_Repo.thy ===== *)
theory Metadata_Repo
  imports User_Repo
begin

text \<open>
  \<open>src/internal/repo/db/metadata_repo.go\<close>: the catalog of stored objects, and the
  interface \<open>keeper.MetadataRepo\<close> it implements.  The abstract state is a list of
  entries, one per object, and the locale says how every operation changes it.
\<close>

section \<open>The repository\<close>

text \<open>\<open>pgtype.Text\<close>: a text that is NULL unless \<open>Valid\<close> is set.\<close>

record pgtype_Text =
  Text_String :: string
  Text_Valid :: bool

definition text_param :: "pgtype_Text \<Rightarrow> string option" where
  "text_param t = (if Text_Valid t then Some (Text_String t) else None)"

lemma text_param_invalid: "text_param \<lparr>Text_String = s, Text_Valid = False\<rparr> = None"
  by (simp add: text_param_def)

definition text_scan :: "string option \<Rightarrow> pgtype_Text" where
  "text_scan v = (case v of
      None \<Rightarrow> \<lparr>Text_String = '''', Text_Valid = False\<rparr>
    | Some s \<Rightarrow> \<lparr>Text_String = s, Text_Valid = True\<rparr>)"

definition MetadataRepository_Put ::
  "uuid_lib \<Rightarrow> ctx \<Rightarrow> Metadata \<Rightarrow> ObjectLocator \<Rightarrow> (world, DataID) comp" where
  "MetadataRepository_Put U c meta loc =
     call (WithRetry
       (call (pure_call (ToPgUUID U (MetaUserID meta))) (wrapping msgWrongUserID) (\<lambda>userUUID.
        call (pool_exec c (sql_PutMetadata userUUID (MetaDataType meta) (Name meta)
              (text_param \<lparr>Text_String = Description meta, Text_Valid = False\<rparr>) loc))
          (wrapping ''queries.PutMetadata failed'') (\<lambda>dataID.
        ret (uuid_String U dataID)))) 0) fail ret"

text \<open>A row read back: the owner and the chunk descriptor are not selected.\<close>

definition row_Metadata :: "uuid_lib \<Rightarrow> metadata_row \<Rightarrow> Metadata" where
  "row_Metadata U row = \<lparr>CreatedAt = mr_CreatedAt row, ChunkDesc = None,
     Description = Text_String (text_scan (mr_Description row)), Name = mr_ObjectName row,
     MetaUserID = '''', MetaDataType = mr_DataTypeName row, ID = uuid_String U (mr_ID row)\<rparr>"

definition MetadataRepository_Get ::
  "uuid_lib \<Rightarrow> ctx \<Rightarrow> DataID \<Rightarrow> (world, Metadata \<times> ObjectLocator) comp" where
  "MetadataRepository_Get U c i =
     call (WithRetry
       (call (pure_call (ToPgUUID U i)) (wrapping ''wrong dataID format'') (\<lambda>dataUUID.
        call (pool_exec c (sql_GetMetadata dataUUID)) (wrapping ''queries.GetMetadata failed'') ret)) 0)
     fail (\<lambda>row. ret (row_Metadata U row, mr_StorageLocator row))"

definition row_MetaLoc :: "uuid_lib \<Rightarrow> metadata_row \<Rightarrow> MetaLoc" where
  "row_MetaLoc U row = \<lparr>Locator = mr_StorageLocator row, Meta = row_Metadata U row\<rparr>"

definition MetadataRepository_ListByUser ::
  "uuid_lib \<Rightarrow> ctx \<Rightarrow> UserID \<Rightarrow> (world, MetaLoc list) comp" where
  "MetadataRepository_ListByUser U c userID =
     call (WithRetry
       (call (pure_call (ToPgUUID U userID)) (wrapping msgWrongUserID) (\<lambda>userUUID.
        call (pool_exec c (sql_ListByUser userUUID)) (wrapping ''queries.ListByUser failed'') ret)) 0)
     fail (\<lambda>rows. ret (map (row_MetaLoc U) rows))"

definition MetadataRepository_Delete :: "uuid_lib \<Rightarrow> ctx \<Rightarrow> DataID \<Rightarrow> (world, ObjectLocator) comp" where
  "MetadataRepository_Delete U c i =
     call (WithRetry
       (call (pure_call (ToPgUUID U i)) (wrapping ''wrong dataID format'') (\<lambda>dataUUID.
        call (pool_exec c (sql_DeleteMetadata dataUUID)) (wrapping ''queries.Delete failed'') ret)) 0)
     fail ret"

section \<open>The interface\<close>

record MetadataRepo =
  mdr_Put :: "ctx \<Rightarrow> Metadata \<Rightarrow> ObjectLocator \<Rightarrow> (world, DataID) comp"
  mdr_Get :: "ctx \<Rightarrow> DataID \<Rightarrow> (world, Metadata \<times> ObjectLocator) comp"
  mdr_ListByUser :: "ctx \<Rightarrow> UserID \<Rightarrow> (world, MetaLoc list) comp"
  mdr_Delete :: "ctx \<Rightarrow> DataID \<Rightarrow> (world, ObjectLocator) comp"

definition NewMetadataRepository :: "uuid_lib \<Rightarrow> MetadataRepo" where
  "NewMetadataRepository U = \<lparr>mdr_Put = MetadataRepository_Put U, mdr_Get = MetadataRepository_Get U,
     mdr_ListByUser = MetadataRepository_ListByUser U, mdr_Delete = MetadataRepository_Delete U\<rparr>"

text \<open>An entry of the catalog: the keys of the object and of its owner, and what is read back.\<close>

record entry =
  e_id :: uuid
  e_owner :: uuid
  e_ml :: MetaLoc

definition owned_by :: "entry list \<Rightarrow> uuid \<Rightarrow> MetaLoc list" where
  "owned_by es u = map e_ml (filter (\<lambda>x. e_owner x = u) es)"

text \<open>
  The contract.  A failed attempt of \<open>Put\<close> whose reply was lost may leave an entry
  behind: the new entries \<open>xs\<close> all carry the owner and the locator given, and the
  metadata without the fields that are not stored.
\<close>

definition stored_as :: "Metadata \<Rightarrow> Metadata \<Rightarrow> bool" where
  "stored_as m m' \<longleftrightarrow> m' = m\<lparr>CreatedAt := CreatedAt m', ChunkDesc := None, Description := '''',
     MetaUserID := '''', ID := ID m'\<rparr>"

definition copies :: "uuid \<Rightarrow> Metadata \<Rightarrow> ObjectLocator \<Rightarrow> entry list \<Rightarrow> bool" where
  "copies u m loc = list_all (\<lambda>x. e_owner x = u \<and> Locator (e_ml x) = loc \<and>
     stored_as m (Meta (e_ml x)))"

locale metadata_repo =
  fixes R :: MetadataRepo
    and parse :: "string \<Rightarrow> uuid option"
    and print :: "uuid \<Rightarrow> string"
    and catalog :: "world \<Rightarrow> entry list"
  assumes catalog_db: "db v = db w \<Longrightarrow> catalog v = catalog w"
    and put_any: "wf_world w \<Longrightarrow> mdr_Put R c m loc w = (r, w') \<Longrightarrow>
      (\<exists>xs. catalog w' = catalog w @ xs \<and> (xs = [] \<or> (\<exists>u. parse (MetaUserID m) = Some u \<and> copies u m loc xs)))"
    and put_Ok: "wf_world w \<Longrightarrow> mdr_Put R c m loc w = (Ok i, w') \<Longrightarrow>
      \<exists>u x xs. parse (MetaUserID m) = Some u \<and> catalog w' = catalog w @ xs @ [x] \<and>
        copies u m loc (xs @ [x]) \<and> print (e_id x) = i \<and> ID (Meta (e_ml x)) = i \<and>
        e_id x \<notin> e_id ` set (catalog w)"
    and put_keeps: "keeps wf_world (mdr_Put R c m loc)"
    and put_total: "total (mdr_Put R c m loc)"
    and get_Ok: "mdr_Get R c i w = (Ok (m, loc), w') \<Longrightarrow>
      \<exists>x \<in> set (catalog w). parse i = Some (e_id x) \<and> e_ml x = \<lparr>Locator = loc, Meta = m\<rparr>"
    and get_frames: "frames db (mdr_Get R c i)"
    and get_keeps: "keeps wf_world (mdr_Get R c i)"
    and get_total: "total (mdr_Get R c i)"
    and list_Ok: "mdr_ListByUser R c u w = (Ok mls, w') \<Longrightarrow>
      \<exists>k. parse u = Some k \<and> mls = owned_by (catalog w) k"
    and list_live: "reliable c w \<Longrightarrow> parse u = Some k \<Longrightarrow>
      \<exists>w'. mdr_ListByUser R c u w = (Ok (owned_by (catalog w) k), w') \<and> now w' = now w"
    and list_frames: "frames db (mdr_ListByUser R c u)"
    and list_stream: "frames stream_state (mdr_ListByUser R c u)"
    and get_stream: "frames stream_state (mdr_Get R c i)"
    and list_keeps: "keeps wf_world (mdr_ListByUser R c u)"
    and list_total: "total (mdr_ListByUser R c u)"
    and delete_any: "mdr_Delete R c i w = (r, w') \<Longrightarrow> catalog w' = catalog w \<or>
      (\<exists>k. parse i = Some k \<and> catalog w' = filter (\<lambda>x. e_id x \<noteq> k) (catalog w))"
    and delete_Ok: "wf_world w \<Longrightarrow> mdr_Delete R c i w = (Ok loc, w') \<Longrightarrow>
      \<exists>x \<in> set (catalog w). parse i = Some (e_id x) \<and> Locator (e_ml x) = loc \<and>
        catalog w' = filter (\<lambda>y. e_id y \<noteq> e_id x) (catalog w)"
    and delete_keeps: "keeps wf_world (mdr_Delete R c i)"
    and delete_total: "total (mdr_Delete R c i)"

section \<open>The repository meets the contract\<close>

definition row_entry :: "uuid_lib \<Rightarrow> tables \<Rightarrow> object_row \<Rightarrow> entry option" where
  "row_entry U t r = map_option (\<lambda>row. \<lparr>e_id = o_id r, e_owner = o_user_id r, e_ml = row_MetaLoc U row\<rparr>)
     (join_type t r)"

definition catalog_of :: "uuid_lib \<Rightarrow> tables \<Rightarrow> entry list" where
  "catalog_of U t = List.map_filter (row_entry U t) (objects t)"

abbreviation pg_catalog :: "uuid_lib \<Rightarrow> world \<Rightarrow> entry list" where
  "pg_catalog U w \<equiv> catalog_of U (db w)"

lemma map_filter_append: "List.map_filter f (xs @ ys) = List.map_filter f xs @ List.map_filter f ys"
  by (simp add: map_filter_def)

lemma row_entry_types: "data_types t = data_types t' \<Longrightarrow> row_entry U t = row_entry U t'"
  by (rule ext) (simp add: row_entry_def join_type_def data_type_name_def)

lemma row_entry_SomeD:
  "row_entry U t r = Some x \<Longrightarrow> e_id x = o_id r \<and> e_owner x = o_user_id r \<and>
     ID (Meta (e_ml x)) = uuid_String U (o_id r) \<and> Locator (e_ml x) = o_storage_locator r \<and>
     Name (Meta (e_ml x)) = o_name r \<and> data_type_name t (o_id_data_type r) = Some (MetaDataType (Meta (e_ml x)))"
  by (auto simp: row_entry_def join_type_def row_MetaLoc_def row_Metadata_def)

lemma catalog_set: "x \<in> set (catalog_of U t) \<longleftrightarrow> (\<exists>r \<in> set (objects t). row_entry U t r = Some x)"
  by (force simp: catalog_of_def map_filter_def)

lemma catalog_ids: "e_id ` set (catalog_of U t) \<subseteq> o_id ` set (objects t)"
  by (auto simp: catalog_set dest!: row_entry_SomeD)

lemma map_filter_filter_ids:
  "List.map_filter (row_entry U t) (filter (\<lambda>r. o_id r \<noteq> k) rs) =
     filter (\<lambda>x. e_id x \<noteq> k) (List.map_filter (row_entry U t) rs)"
  by (induction rs) (auto simp: map_filter_simps dest!: row_entry_SomeD split: option.split)

lemma map_filter_owner:
  "map (row_MetaLoc U) (List.map_filter (join_type t) (filter (\<lambda>r. o_user_id r = k) rs)) =
     owned_by (List.map_filter (row_entry U t) rs) k"
  by (induction rs) (auto simp: map_filter_simps owned_by_def row_entry_def split: option.splits)

text \<open>The type of a stored row is the name it was given: type names and numbers are keys.\<close>

lemma data_type_roundtrip:
  assumes "wf_tables t" and "data_type_id t nm = Some i"
  shows "data_type_name t i = Some nm"
proof -
  from assms(2) obtain r where r: "r \<in> set (data_types t)" "d_id r = i" "d_name r = nm"
    by (auto simp: data_type_id_def find_Some_iff intro: nth_mem)
  have inj: "inj_on d_id (set (data_types t))"
    using assms(1) by (simp add: wf_defs distinct_map)
  obtain r' where r': "List.find (\<lambda>r. d_id r = i) (data_types t) = Some r'"
    using r by (cases "List.find (\<lambda>r. d_id r = i) (data_types t)") (auto simp: find_None_iff)
  then have "r' \<in> set (data_types t)" "d_id r' = i" by (auto simp: find_Some_iff)
  with r inj have "r' = r" by (metis inj_onD)
  with r r' show ?thesis by (simp add: data_type_name_def)
qed

lemma sql_PutMetadata_catalog:
  assumes "wf_tables t" and "fst (sql_PutMetadata u (MetaDataType m) (Name m) s loc fresh at t) = Ok i"
    and "s = None"
  obtains x where "catalog_of U (snd (sql_PutMetadata u (MetaDataType m) (Name m) s loc fresh at t)) = catalog_of U t @ [x]"
    and "copies u m loc [x]" and "e_id x = i" and "ID (Meta (e_ml x)) = uuid_String U i"
    and "e_id x \<notin> e_id ` set (catalog_of U t)"
proof -
  from assms(2) obtain dt where dt: "data_type_id t (MetaDataType m) = Some dt" and i: "i = fresh"
    and new: "fresh \<notin> o_id ` set (objects t)" and u: "u \<in> u_id ` set (users t)"
    by (auto simp: sql_PutMetadata_def split: option.splits if_splits)
  let ?r = "\<lparr>o_id = fresh, o_user_id = u, o_id_data_type = dt, o_name = Name m,
              o_description = s, o_storage_locator = loc, o_created_at = at\<rparr>"
  let ?t = "t\<lparr>objects := objects t @ [?r]\<rparr>"
  have run: "snd (sql_PutMetadata u (MetaDataType m) (Name m) s loc fresh at t) = ?t"
    using dt new u by (simp add: sql_PutMetadata_def)
  have nm: "data_type_name t dt = Some (MetaDataType m)"
    using data_type_roundtrip [OF assms(1) dt] .
  then obtain x where x: "row_entry U t ?r = Some x" by (simp add: row_entry_def join_type_def)
  then have stored: "stored_as m (Meta (e_ml x))"
    using nm assms(3) by (auto simp: row_entry_def join_type_def row_MetaLoc_def row_Metadata_def stored_as_def
        text_scan_def)
  have "row_entry U ?t = row_entry U t" by (rule row_entry_types) simp
  then have cat: "catalog_of U ?t = catalog_of U t @ [x]"
    using x by (simp add: catalog_of_def map_filter_append map_filter_simps)
  have cat': "catalog_of U (snd (sql_PutMetadata u (MetaDataType m) (Name m) s loc fresh at t)) = catalog_of U t @ [x]"
    unfolding run by (rule cat)
  from row_entry_SomeD [OF x] nm show thesis
    using catalog_ids [of U t] new i stored by (intro that [OF cat']) (auto simp: copies_def)
qed

lemma sql_PutMetadata_Err:
  "\<not> is_Ok (fst (sql_PutMetadata u d n s loc fresh at t)) \<Longrightarrow> snd (sql_PutMetadata u d n s loc fresh at t) = t"
  by (auto simp: sql_PutMetadata_def split: option.splits if_splits)

text \<open>What the attempts of \<open>Put\<close> keep: the catalog only grows, by copies of the entry.\<close>

definition grown :: "uuid_lib \<Rightarrow> Metadata \<Rightarrow> ObjectLocator \<Rightarrow> entry list \<Rightarrow> world \<Rightarrow> bool" where
  "grown U m loc es v \<longleftrightarrow> wf_world v \<and> (\<exists>xs. pg_catalog U v = es @ xs \<and>
     (xs = [] \<or> (\<exists>u. uuid_Parse U (MetaUserID m) = Some u \<and> copies u m loc xs)))"

abbreviation put_attempt :: "uuid_lib \<Rightarrow> ctx \<Rightarrow> Metadata \<Rightarrow> ObjectLocator \<Rightarrow> (world, DataID) comp" where
  "put_attempt U c m loc \<equiv>
     call (pure_call (ToPgUUID U (MetaUserID m))) (wrapping msgWrongUserID) (\<lambda>userUUID.
     call (pool_exec c (sql_PutMetadata userUUID (MetaDataType m) (Name m)
              (text_param \<lparr>Text_String = Description m, Text_Valid = False\<rparr>) loc))
          (wrapping ''queries.PutMetadata failed'') (\<lambda>dataID. ret (uuid_String U dataID)))"

lemma copies_Nil [simp]: "copies u m loc []"
  by (simp add: copies_def)

lemma copies_append: "copies u m loc (xs @ ys) \<longleftrightarrow> copies u m loc xs \<and> copies u m loc ys"
  by (simp add: copies_def)

lemma sql_PutMetadata_grown:
  assumes "wf_tables t" and "catalog_of U t = es @ xs" and "xs = [] \<or> copies u m loc xs" and "s = None"
  shows "\<exists>ys. catalog_of U (snd (sql_PutMetadata u (MetaDataType m) (Name m) s loc fresh at t)) = es @ ys \<and>
    (ys = [] \<or> copies u m loc ys)"
proof (cases "is_Ok (fst (sql_PutMetadata u (MetaDataType m) (Name m) s loc fresh at t))")
  case True
  then obtain i where "fst (sql_PutMetadata u (MetaDataType m) (Name m) s loc fresh at t) = Ok i"
    by (auto simp: is_Ok_iff)
  then obtain x where
    "catalog_of U (snd (sql_PutMetadata u (MetaDataType m) (Name m) s loc fresh at t)) = catalog_of U t @ [x]"
    "copies u m loc [x]" by (rule sql_PutMetadata_catalog [OF assms(1) _ assms(4), where U = U])
  with assms(2,3) show ?thesis by (intro exI [of _ "xs @ [x]"]) (auto simp: copies_append)
next
  case False
  then show ?thesis using assms(2,3) by (auto simp: sql_PutMetadata_Err)
qed

lemma put_attempt_grown: "keeps (grown U m loc es) (put_attempt U c m loc)"
proof (cases "uuid_Parse U (MetaUserID m)")
  case None
  then have "put_attempt U c m loc v = wrapping msgWrongUserID (Wrap ''uuid.Parse()'' (ErrLib ''uuid'')) v" for v
    by (simp add: call_def comp_simps ToPgUUID_def)
  then show ?thesis by (simp add: keeps_def comp_simps)
next
  case (Some u)
  let ?st = "sql_PutMetadata u (MetaDataType m) (Name m)
    (text_param \<lparr>Text_String = Description m, Text_Valid = False\<rparr>) loc"
  let ?I = "\<lambda>t. wf_tables t \<and> (\<exists>xs. catalog_of U t = es @ xs \<and> (xs = [] \<or> copies u m loc xs))"
  have st: "?I (snd (?st fresh at t))" if "?I t" for fresh at t
  proof -
    have "wf_tables (snd (?st fresh at t))"
      using sql_PutMetadata_wf that by (auto simp: stmt_preserves_def)
    moreover from that obtain xs where "wf_tables t" "catalog_of U t = es @ xs" "xs = [] \<or> copies u m loc xs"
      by blast
    ultimately show ?thesis by (intro conjI sql_PutMetadata_grown text_param_invalid)
  qed
  have "keeps (\<lambda>w. ?I (db w)) (pool_exec c ?st)" using st by (rule pool_exec_stmt)
  moreover have "keeps wf_world (pool_exec c ?st)" by (intro keeps_rules stmt_keeps)
  ultimately have "keeps (\<lambda>w. wf_world w \<and> ?I (db w)) (pool_exec c ?st)"
    by (rule keeps_conj [rotated])
  moreover have "(wf_world w \<and> ?I (db w)) = grown U m loc es w" for w
    using Some by (auto simp: grown_def wf_world_def)
  ultimately have "keeps (grown U m loc es) (pool_exec c ?st)" by simp
  moreover have "put_attempt U c m loc v = call (pool_exec c ?st) (wrapping ''queries.PutMetadata failed'')
      (\<lambda>dataID. ret (uuid_String U dataID)) v" for v
    using Some by (simp add: call_def comp_simps ToPgUUID_def)
  then have "put_attempt U c m loc = call (pool_exec c ?st) (wrapping ''queries.PutMetadata failed'')
      (\<lambda>dataID. ret (uuid_String U dataID))" by (rule ext)
  ultimately show ?thesis by (simp only:) (intro keeps_rules)
qed

lemma grown_Sleep: "grown U m loc es v \<Longrightarrow> grown U m loc es (time_Sleep n v)"
  by (simp add: grown_def wf_time_Sleep)

lemma grown_refl: "wf_world w \<Longrightarrow> grown U m loc (pg_catalog U w) w"
  by (simp add: grown_def)

lemma Put_any:
  assumes "wf_world w" and "MetadataRepository_Put U c m loc w = (r, w')"
  shows "grown U m loc (pg_catalog U w) w'"
proof -
  have "keeps (grown U m loc (pg_catalog U w)) (MetadataRepository_Put U c m loc)"
    unfolding MetadataRepository_Put_def call_fail_ret
    by (intro WithRetry_keeps put_attempt_grown grown_Sleep)
  then show ?thesis using keepsD grown_refl [OF assms(1)] assms(2) by fastforce
qed

lemma Put_Ok_from:
  assumes "wf_world w" and "WithRetry (put_attempt U c m loc) n w = (Ok i, w')"
  shows "\<exists>u x xs. uuid_Parse U (MetaUserID m) = Some u \<and> pg_catalog U w' = pg_catalog U w @ xs @ [x] \<and>
        copies u m loc (xs @ [x]) \<and> uuid_String U (e_id x) = i \<and> ID (Meta (e_ml x)) = i \<and>
        e_id x \<notin> e_id ` set (pg_catalog U w)"
proof -
  from assms(2) obtain v where v: "grown U m loc (pg_catalog U w) v" "put_attempt U c m loc v = (Ok i, w')"
    by (rule WithRetry_OkE [OF _ grown_refl [OF assms(1)] put_attempt_grown grown_Sleep])
  from v(2) obtain u k where u: "uuid_Parse U (MetaUserID m) = Some u" and i: "i = uuid_String U k"
    and run: "pool_exec c (sql_PutMetadata u (MetaDataType m) (Name m)
       (text_param \<lparr>Text_String = Description m, Text_Valid = False\<rparr>) loc) v = (Ok k, w')"
    by (elim call_OkE) (auto simp: comp_simps ToPgUUID_Ok)
  from v(1) u obtain xs where xs: "wf_tables (db v)" "pg_catalog U v = pg_catalog U w @ xs" "copies u m loc xs"
    by (auto simp: grown_def wf_world_def)
  from run obtain x where x: "pg_catalog U w' = pg_catalog U v @ [x]" "copies u m loc [x]" "e_id x = k"
    "ID (Meta (e_ml x)) = uuid_String U k" "e_id x \<notin> e_id ` set (pg_catalog U v)"
    by (rule pool_exec_OkE)
       (metis sql_PutMetadata_catalog [OF xs(1) _ text_param_invalid, where U = U])
  then show ?thesis
    using u i xs by (intro exI [of _ u] exI [of _ x] exI [of _ xs]) (auto simp: copies_append)
qed

lemmas Put_Ok = Put_Ok_from [where n = 0, folded MetadataRepository_Put_def [unfolded call_fail_ret]]

text \<open>A read-only query in a retry loop answers from the tables the loop started with.\<close>

lemma retry_read:
  fixes st :: "uuid \<Rightarrow> 'a stmt"
  assumes "WithRetry (call (pure_call (ToPgUUID U s)) (wrapping a) (\<lambda>k.
      call (pool_exec c (st k)) (wrapping b) ret)) n w = (Ok x, w')"
    and "\<And>k fresh at t. snd (st k fresh at t) = t"
  obtains k fresh at where "uuid_Parse U s = Some k" and "fst (st k fresh at (db w)) = Ok x"
proof -
  let ?q = "call (pure_call (ToPgUUID U s)) (wrapping a) (\<lambda>k. call (pool_exec c (st k)) (wrapping b) ret)"
  have "frames db ?q"
    using assms(2) by (intro frames_rules pool_exec_db [where f = "\<lambda>t. t"]) simp_all
  then have "keeps (\<lambda>v. db v = db w) ?q" by (rule frames_keeps)
  then obtain v where v: "db v = db w" "?q v = (Ok x, w')"
    by (rule WithRetry_OkE [OF assms(1) refl]) simp_all
  from v(2) obtain k where "uuid_Parse U s = Some k" "pool_exec c (st k) v = (Ok x, w')"
    by (elim call_OkE) (auto simp: comp_simps ToPgUUID_Ok)
  then show thesis using v(1) by (elim pool_exec_OkE) (auto intro: that)
qed

lemma retry_read_frames:
  fixes st :: "uuid \<Rightarrow> 'a stmt"
  assumes "\<And>k fresh at t. snd (st k fresh at t) = t"
  shows "frames db (WithRetry (call (pure_call (ToPgUUID U s)) (wrapping a) (\<lambda>k.
      call (pool_exec c (st k)) (wrapping b) ret)) n)"
  using assms by (intro WithRetry_frames frames_rules pool_exec_db [where f = "\<lambda>t. t"]) simp_all

lemma sql_GetMetadata_id: "snd (sql_GetMetadata k fresh at t) = t"
  by (simp add: sql_GetMetadata_def split: list.split)

lemma sql_ListByUser_id: "snd (sql_ListByUser k fresh at t) = t"
  by (simp add: sql_ListByUser_def)

lemma Get_frames: "frames db (MetadataRepository_Get U c i)"
  unfolding MetadataRepository_Get_def
  by (intro frames_rules retry_read_frames) (simp add: sql_GetMetadata_id)

lemma List_frames: "frames db (MetadataRepository_ListByUser U c u)"
  unfolding MetadataRepository_ListByUser_def
  by (intro frames_rules retry_read_frames) (simp add: sql_ListByUser_id)

lemma sql_GetMetadata_OkE:
  assumes "fst (sql_GetMetadata k fresh at t) = Ok row"
  obtains r where "r \<in> set (objects t)" and "o_id r = k" and "join_type t r = Some row"
proof -
  have "row \<in> set (List.map_filter (join_type t) (filter (\<lambda>r. o_id r = k) (objects t)))"
    using assms by (auto simp: sql_GetMetadata_def split: list.splits)
  then show thesis by (auto simp: map_filter_def intro: that)
qed

lemma Get_Ok:
  assumes "MetadataRepository_Get U c i w = (Ok (m, loc), w')"
  shows "\<exists>x \<in> set (pg_catalog U w). uuid_Parse U i = Some (e_id x) \<and> e_ml x = \<lparr>Locator = loc, Meta = m\<rparr>"
proof -
  from assms obtain row where
    "WithRetry (call (pure_call (ToPgUUID U i)) (wrapping ''wrong dataID format'') (\<lambda>dataUUID.
        call (pool_exec c (sql_GetMetadata dataUUID)) (wrapping ''queries.GetMetadata failed'') ret)) 0 w
      = (Ok row, w')" and row: "m = row_Metadata U row" "loc = mr_StorageLocator row"
    unfolding MetadataRepository_Get_def by (elim call_OkE) (auto simp: comp_simps)
  from this(1) obtain k fresh at where k: "uuid_Parse U i = Some k"
    and "fst (sql_GetMetadata k fresh at (db w)) = Ok row"
    by (rule retry_read) (rule sql_GetMetadata_id)
  from this(2) obtain r where r: "r \<in> set (objects (db w))" "o_id r = k" "join_type (db w) r = Some row"
    by (rule sql_GetMetadata_OkE)
  let ?x = "\<lparr>e_id = k, e_owner = o_user_id r, e_ml = row_MetaLoc U row\<rparr>"
  have "?x \<in> set (pg_catalog U w)"
    using r by (auto simp: catalog_set row_entry_def)
  then show ?thesis using k row by (intro bexI [of _ ?x]) (simp_all add: row_MetaLoc_def)
qed

lemma List_Ok:
  assumes "MetadataRepository_ListByUser U c u w = (Ok mls, w')"
  shows "\<exists>k. uuid_Parse U u = Some k \<and> mls = owned_by (pg_catalog U w) k"
proof -
  from assms obtain rows where
    "WithRetry (call (pure_call (ToPgUUID U u)) (wrapping msgWrongUserID) (\<lambda>userUUID.
        call (pool_exec c (sql_ListByUser userUUID)) (wrapping ''queries.ListByUser failed'') ret)) 0 w
      = (Ok rows, w')" and mls: "mls = map (row_MetaLoc U) rows"
    unfolding MetadataRepository_ListByUser_def by (elim call_OkE) (auto simp: comp_simps)
  from this(1) obtain k fresh at where "uuid_Parse U u = Some k"
    and "fst (sql_ListByUser k fresh at (db w)) = Ok rows"
    by (rule retry_read) (rule sql_ListByUser_id)
  then show ?thesis
    by (intro exI [of _ k]) (auto simp: mls sql_ListByUser_def map_filter_owner catalog_of_def)
qed

lemma List_live:
  assumes "reliable c w" and "uuid_Parse U u = Some k"
  shows "\<exists>w'. MetadataRepository_ListByUser U c u w = (Ok (owned_by (pg_catalog U w) k), w') \<and> now w' = now w"
proof -
  let ?w = "w\<lparr>uuid_pos := Suc (uuid_pos w)\<rparr>"
  let ?rows = "List.map_filter (join_type (db w)) (filter (\<lambda>r. o_user_id r = k) (objects (db w)))"
  have "pool_exec c (sql_ListByUser k) w = (Ok ?rows, ?w)"
    using assms(1) by (simp add: reliable_def pool_exec_reliable run_stmt_def sql_ListByUser_def)
  then have "WithRetry (call (pure_call (ToPgUUID U u)) (wrapping msgWrongUserID) (\<lambda>userUUID.
        call (pool_exec c (sql_ListByUser userUUID)) (wrapping ''queries.ListByUser failed'') ret)) 0 w
      = (Ok ?rows, ?w)"
    using assms(2) by (intro WithRetry_Ok) (simp add: call_def comp_simps ToPgUUID_def)
  then show ?thesis
    by (intro exI [of _ ?w])
       (simp add: MetadataRepository_ListByUser_def call_Ok ret_simp map_filter_owner catalog_of_def)
qed

text \<open>What the attempts of \<open>Delete\<close> keep: nothing happened yet, or the object is gone.\<close>

definition removed :: "uuid_lib \<Rightarrow> DataID \<Rightarrow> entry list \<Rightarrow> world \<Rightarrow> bool" where
  "removed U i es v \<longleftrightarrow> pg_catalog U v = es \<or> (\<exists>k. uuid_Parse U i = Some k \<and>
     pg_catalog U v = filter (\<lambda>x. e_id x \<noteq> k) es \<and> k \<notin> o_id ` set (objects (db v)))"

lemma delete_objects_catalog:
  "catalog_of U (delete_objects (\<lambda>r. o_id r = k) t) = filter (\<lambda>x. e_id x \<noteq> k) (catalog_of U t)"
proof -
  have "row_entry U (delete_objects (\<lambda>r. o_id r = k) t) = row_entry U t"
    by (rule row_entry_types) (simp add: delete_objects_def Let_def)
  then show ?thesis by (simp add: catalog_of_def delete_objects_def Let_def map_filter_filter_ids)
qed

lemma delete_objects_gone: "k \<notin> o_id ` set (objects (delete_objects (\<lambda>r. o_id r = k) t))"
  by (auto simp: delete_objects_def Let_def)

lemma sql_DeleteMetadata_removed:
  assumes "uuid_Parse U i = Some k" and "removed U i es v"
    and "db v' = snd (sql_DeleteMetadata k fresh at (db v))"
  shows "removed U i es v'"
  using assms delete_objects_catalog [of U k "db v"] delete_objects_gone [of k "db v"]
  by (auto simp: removed_def sql_DeleteMetadata_def split: option.splits)

abbreviation delete_attempt :: "uuid_lib \<Rightarrow> ctx \<Rightarrow> DataID \<Rightarrow> (world, ObjectLocator) comp" where
  "delete_attempt U c i \<equiv>
     call (pure_call (ToPgUUID U i)) (wrapping ''wrong dataID format'') (\<lambda>dataUUID.
     call (pool_exec c (sql_DeleteMetadata dataUUID)) (wrapping ''queries.Delete failed'') ret)"

lemma pool_exec_db_cases:
  "db (snd (pool_exec c st w)) = db w \<or> (\<exists>fresh at. db (snd (pool_exec c st w)) = snd (st fresh at (db w)))"
  by (auto simp: pool_exec_def run_stmt_def split: option.splits net_event.splits prod.splits) (metis snd_conv)+

lemma removed_cong: "db v = db v' \<Longrightarrow> removed U i es v = removed U i es v'"
  by (simp add: removed_def)

lemma delete_attempt_removed: "keeps (removed U i es) (delete_attempt U c i)"
proof (rule keepsI)
  fix w assume w: "removed U i es w"
  show "removed U i es (snd (delete_attempt U c i w))"
  proof (cases "uuid_Parse U i")
    case None
    then show ?thesis using w by (simp add: call_def comp_simps ToPgUUID_def)
  next
    case (Some k)
    have "snd (delete_attempt U c i w) = snd (pool_exec c (sql_DeleteMetadata k) w)"
      using Some by (simp add: call_def comp_simps ToPgUUID_def split: prod.split result.split)
    moreover have "removed U i es (snd (pool_exec c (sql_DeleteMetadata k) w))"
      using pool_exec_db_cases [of c "sql_DeleteMetadata k" w] w Some
      by (metis removed_cong sql_DeleteMetadata_removed)
    ultimately show ?thesis by simp
  qed
qed

lemma removed_Sleep: "removed U i es v \<Longrightarrow> removed U i es (time_Sleep n v)"
  by (simp add: removed_def)

lemma Delete_any:
  assumes "MetadataRepository_Delete U c i w = (r, w')"
  shows "removed U i (pg_catalog U w) w'"
proof -
  have "keeps (removed U i (pg_catalog U w)) (MetadataRepository_Delete U c i)"
    unfolding MetadataRepository_Delete_def call_fail_ret
    by (intro WithRetry_keeps delete_attempt_removed removed_Sleep)
  from keepsD [OF this, of w] assms show ?thesis by (simp add: removed_def)
qed

lemma row_entry_wf:
  assumes "wf_tables t" and "r \<in> set (objects t)"
  shows "\<exists>x. row_entry U t r = Some x"
proof -
  have "o_id_data_type r \<in> d_id ` set (data_types t)"
    using assms by (auto simp: wf_tables_def refs_ok_def)
  then have "List.find (\<lambda>d. d_id d = o_id_data_type r) (data_types t) \<noteq> None"
    by (auto simp: find_None_iff)
  then show ?thesis by (auto simp: row_entry_def join_type_def data_type_name_def)
qed

lemma Delete_Ok:
  assumes "wf_world w" and "MetadataRepository_Delete U c i w = (Ok loc, w')"
  shows "\<exists>x \<in> set (pg_catalog U w). uuid_Parse U i = Some (e_id x) \<and> Locator (e_ml x) = loc \<and>
    pg_catalog U w' = filter (\<lambda>y. e_id y \<noteq> e_id x) (pg_catalog U w)"
proof -
  let ?I = "\<lambda>v. wf_world v \<and> removed U i (pg_catalog U w) v"
  have keep: "keeps ?I (delete_attempt U c i)"
    by (intro keeps_conj delete_attempt_removed) (intro keeps_rules stmt_keeps)
  have "?I w" using assms(1) by (simp add: removed_def)
  with assms(2) obtain v where v: "?I v" "delete_attempt U c i v = (Ok loc, w')"
    unfolding MetadataRepository_Delete_def call_fail_ret
    by (rule WithRetry_OkE [OF _ _ keep]) (auto intro: wf_time_Sleep removed_Sleep)
  from v(2) obtain k where k: "uuid_Parse U i = Some k"
    and run: "pool_exec c (sql_DeleteMetadata k) v = (Ok loc, w')"
    by (elim call_OkE) (auto simp: comp_simps ToPgUUID_Ok)
  from run obtain r where r: "r \<in> set (objects (db v))" "o_id r = k" "o_storage_locator r = loc"
    and w': "db w' = delete_objects (\<lambda>r. o_id r = k) (db v)"
    by (rule pool_exec_OkE)
       (auto simp: sql_DeleteMetadata_def find_Some_iff split: option.splits intro: nth_mem)
  have cat: "pg_catalog U v = pg_catalog U w"
    using v(1) r k by (auto simp: removed_def)
  obtain x where x: "row_entry U (db v) r = Some x"
    using v(1) r(1) row_entry_wf unfolding wf_world_def by blast
  then have "x \<in> set (pg_catalog U v)" using r(1) by (auto simp: catalog_set)
  with row_entry_SomeD [OF x] r k cat w' show ?thesis
    by (intro bexI [of _ x]) (simp_all add: delete_objects_catalog)
qed

interpretation pg_metadata: metadata_repo "NewMetadataRepository U" "uuid_Parse U" "uuid_String U" "pg_catalog U"
  for U
proof (unfold_locales, unfold NewMetadataRepository_def MetadataRepo.select_convs)
  fix v w :: world assume "db v = db w" then show "pg_catalog U v = pg_catalog U w" by simp
next
  fix w c m loc r w'
  assume "wf_world w" "MetadataRepository_Put U c m loc w = (r, w')"
  then show "\<exists>xs. pg_catalog U w' = pg_catalog U w @ xs \<and>
      (xs = [] \<or> (\<exists>u. uuid_Parse U (MetaUserID m) = Some u \<and> copies u m loc xs))"
    using Put_any [of w U c m loc r w'] by (simp add: grown_def)
next
  fix c i w r w'
  assume "MetadataRepository_Delete U c i w = (r, w')"
  then show "pg_catalog U w' = pg_catalog U w \<or>
      (\<exists>k. uuid_Parse U i = Some k \<and> pg_catalog U w' = filter (\<lambda>x. e_id x \<noteq> k) (pg_catalog U w))"
    using Delete_any [of U c i w r w'] by (auto simp: removed_def)
next
  show "frames stream_state (MetadataRepository_ListByUser U c u)" for c u
    unfolding MetadataRepository_ListByUser_def
    by (intro frames_rules WithRetry_frames pool_exec_stream stream_time_Sleep)
  show "frames stream_state (MetadataRepository_Get U c i)" for c i
    unfolding MetadataRepository_Get_def
    by (intro frames_rules WithRetry_frames pool_exec_stream stream_time_Sleep)
  show "keeps wf_world (MetadataRepository_Put U c m loc)" for c m loc
    unfolding MetadataRepository_Put_def by (intro keeps_rules stmt_keeps)
  show "total (MetadataRepository_Put U c m loc)" for c m loc
    unfolding MetadataRepository_Put_def by (intro total_rules)
  show "keeps wf_world (MetadataRepository_Get U c i)" for c i
    unfolding MetadataRepository_Get_def by (intro keeps_rules stmt_keeps)
  show "total (MetadataRepository_Get U c i)" for c i
    unfolding MetadataRepository_Get_def by (intro total_rules)
  show "keeps wf_world (MetadataRepository_ListByUser U c u)" for c u
    unfolding MetadataRepository_ListByUser_def by (intro keeps_rules stmt_keeps)
  show "total (MetadataRepository_ListByUser U c u)" for c u
    unfolding MetadataRepository_ListByUser_def by (intro total_rules)
  show "keeps wf_world (MetadataRepository_Delete U c i)" for c i
    unfolding MetadataRepository_Delete_def by (intro keeps_rules stmt_keeps)
  show "total (MetadataRepository_Delete U c i)" for c i
    unfolding MetadataRepository_Delete_def by (intro total_rules)
qed (fact Put_Ok Get_Ok Get_frames List_Ok List_live List_frames Delete_Ok)+

section \<open>A quiet network\<close>

lemma filter_key: "distinct (map f xs) \<Longrightarrow> r \<in> set xs \<Longrightarrow> filter (\<lambda>x. f x = f r) xs = [r]"
proof (induction xs)
  case (Cons x xs)
  show ?case
  proof (cases "r = x")
    case True
    then have "filter (\<lambda>y. f y = f r) xs = []" using Cons.prems(1) by (auto simp: filter_empty_conv image_iff)
    with True show ?thesis by simp
  next
    case False
    then have "f x \<noteq> f r" using Cons.prems by auto
    with False Cons show ?thesis by simp
  qed
qed simp

lemma find_filter_single: "filter P xs = [r] \<Longrightarrow> List.find P xs = Some r"
  by (induction xs) (auto split: if_splits)

lemma object_row_unique:
  assumes "wf_tables t" and "x \<in> set (catalog_of U t)"
  obtains r where "filter (\<lambda>r. o_id r = e_id x) (objects t) = [r]" and "row_entry U t r = Some x"
proof -
  from assms(2) obtain r where r: "r \<in> set (objects t)" "row_entry U t r = Some x" by (auto simp: catalog_set)
  have "distinct (map o_id (objects t))" using assms(1) by (simp add: wf_defs)
  from filter_key [OF this r(1)] row_entry_SomeD [OF r(2)] r(2) show thesis by (intro that) simp_all
qed

lemma Get_live:
  assumes "reliable c w" and "wf_world w" and "x \<in> set (pg_catalog U w)" and "uuid_Parse U i = Some (e_id x)"
  shows "MetadataRepository_Get U c i w =
    (Ok (Meta (e_ml x), Locator (e_ml x)), w\<lparr>uuid_pos := Suc (uuid_pos w)\<rparr>)"
proof -
  have "wf_tables (db w)" using assms(2) by (simp add: wf_world_def)
  from object_row_unique [OF this assms(3)] obtain r where
    r: "filter (\<lambda>r. o_id r = e_id x) (objects (db w)) = [r]" "row_entry U (db w) r = Some x" .
  then obtain row where row: "join_type (db w) r = Some row" "e_ml x = row_MetaLoc U row"
    by (auto simp: row_entry_def)
  have "pool_exec c (sql_GetMetadata (e_id x)) w = (Ok row, w\<lparr>uuid_pos := Suc (uuid_pos w)\<rparr>)"
    using assms(1) r(1) row(1)
    by (simp add: reliable_def pool_exec_reliable run_stmt_def sql_GetMetadata_def map_filter_simps)
  then have "WithRetry (call (pure_call (ToPgUUID U i)) (wrapping ''wrong dataID format'') (\<lambda>dataUUID.
        call (pool_exec c (sql_GetMetadata dataUUID)) (wrapping ''queries.GetMetadata failed'') ret)) 0 w
      = (Ok row, w\<lparr>uuid_pos := Suc (uuid_pos w)\<rparr>)"
    using assms(4) by (intro WithRetry_Ok) (simp add: call_def comp_simps ToPgUUID_def)
  then show ?thesis by (simp add: MetadataRepository_Get_def call_Ok ret_simp row(2) row_MetaLoc_def)
qed

lemma Delete_live:
  assumes "reliable c w" and "wf_world w" and "x \<in> set (pg_catalog U w)" and "uuid_Parse U i = Some (e_id x)"
  shows "MetadataRepository_Delete U c i w = (Ok (Locator (e_ml x)),
    w\<lparr>db := delete_objects (\<lambda>r. o_id r = e_id x) (db w), uuid_pos := Suc (uuid_pos w)\<rparr>)"
proof -
  let ?w = "w\<lparr>db := delete_objects (\<lambda>r. o_id r = e_id x) (db w), uuid_pos := Suc (uuid_pos w)\<rparr>"
  have "wf_tables (db w)" using assms(2) by (simp add: wf_world_def)
  from object_row_unique [OF this assms(3)] obtain r where
    r: "filter (\<lambda>r. o_id r = e_id x) (objects (db w)) = [r]" "row_entry U (db w) r = Some x" .
  from r(1) have "List.find (\<lambda>r. o_id r = e_id x) (objects (db w)) = Some r"
    by (rule find_filter_single)
  then have "pool_exec c (sql_DeleteMetadata (e_id x)) w = (Ok (Locator (e_ml x)), ?w)"
    using assms(1) row_entry_SomeD [OF r(2)]
    by (simp add: reliable_def pool_exec_reliable run_stmt_def sql_DeleteMetadata_def)
  then have "delete_attempt U c i w = (Ok (Locator (e_ml x)), ?w)"
    using assms(4) by (simp add: call_def comp_simps ToPgUUID_def)
  then show ?thesis by (simp add: MetadataRepository_Delete_def WithRetry_Ok)
qed

section \<open>Properties\<close>

definition demo_card :: Metadata where
  "demo_card = \<lparr>CreatedAt = 0, ChunkDesc = None, Description = ''mine'', Name = ''n'', MetaUserID = ''1'',
     MetaDataType = DataTypeCard, ID = ''7''\<rparr>"

text \<open>A world with the user 1 and a supply of UUIDs that starts above the existing keys.\<close>

definition demo_catalog_world :: "(nat \<times> net_event) list \<Rightarrow> world" where
  "demo_catalog_world events = demo_user_world\<lparr>uuid_pos := 5, net := events\<rparr>"

lemma demo_catalog_simps:
  "reliable context_Background (demo_catalog_world [])" "wf_world (demo_catalog_world events)"
  "uuid_Parse demo_uuid (MetaUserID demo_card) = Some 1"
  using wf_demo_user_world
  by (simp_all add: demo_catalog_world_def demo_user_world_def demo_world_def reliable_def wf_world_def
      demo_card_def demo_uuid_1)

lemmas demo_catalog_defs = demo_catalog_world_def demo_user_world_def demo_world_def migrated_def
  demo_card_def data_type_id_def DataTypeCard_def

lemma demo_put:
  obtains i w' where
    "MetadataRepository_Put demo_uuid context_Background demo_card ''pg://7'' (demo_catalog_world []) = (Ok i, w')"
    and "reliable context_Background w'"
  by (simp add: MetadataRepository_Put_def WithRetry.simps call_def comp_simps ToPgUUID_def demo_uuid_1
      pool_exec_reliable run_stmt_def sql_PutMetadata_def reliable_def demo_catalog_defs)



text \<open>C14: A successful \<open>Delete\<close> returns the locator of the object it was asked for and
  removes exactly that object from the catalog, of whatever user, however many attempts the
  network makes necessary.\<close>

theorem metadata_delete_exact:
  assumes "wf_world w" and "MetadataRepository_Delete U c i w = (Ok loc, w')"
  shows "\<exists>x \<in> set (catalog_of U (db w)). uuid_Parse U i = Some (e_id x) \<and> Locator (e_ml x) = loc \<and>
    catalog_of U (db w') = filter (\<lambda>y. e_id y \<noteq> e_id x) (catalog_of U (db w))"
  using pg_metadata.delete_Ok [of w U c i loc w'] assms by (simp add: NewMetadataRepository_def)

definition demo_object_world :: world where
  "demo_object_world = (demo_catalog_world [])\<lparr>db := (db demo_user_world)\<lparr>objects :=
     [\<lparr>o_id = 1, o_user_id = 1, o_id_data_type = 2, o_name = ''n'', o_description = None,
       o_storage_locator = ''pg://7'', o_created_at = 0\<rparr>]\<rparr>\<rparr>"

lemma wf_demo_object_world: "wf_world demo_object_world"
  by (simp add: demo_object_world_def demo_catalog_world_def demo_user_world_def demo_world_def wf_world_def
      wf_defs migrated_def)

theorem metadata_delete_exact_witness:
  "\<exists>w'. MetadataRepository_Delete demo_uuid context_Background ''1'' demo_object_world = (Ok ''pg://7'', w') \<and>
     (\<exists>x \<in> set (catalog_of demo_uuid (db demo_object_world)). Locator (e_ml x) = ''pg://7'')"
proof -
  obtain w' where run:
    "MetadataRepository_Delete demo_uuid context_Background ''1'' demo_object_world = (Ok ''pg://7'', w')"
    by (simp add: MetadataRepository_Delete_def WithRetry.simps call_def comp_simps ToPgUUID_def demo_uuid_1
        pool_exec_reliable run_stmt_def sql_DeleteMetadata_def demo_object_world_def demo_catalog_defs)
  from metadata_delete_exact [OF wf_demo_object_world run] run show ?thesis by blast
qed

text \<open>While the type of the metadata is missing from the type table, no attempt inserts.\<close>

lemma put_attempt_unknown_type:
  assumes "data_type_id (db v) (MetaDataType m) = None"
  shows "\<not> is_Ok (fst (put_attempt U c m loc v)) \<and> db (snd (put_attempt U c m loc v)) = db v"
proof (cases "uuid_Parse U (MetaUserID m)")
  case (Some u)
  let ?m = "pool_exec c (sql_PutMetadata u (MetaDataType m) (Name m)
    (text_param \<lparr>Text_String = Description m, Text_Valid = False\<rparr>) loc)"
  have "put_attempt U c m loc v = call ?m (wrapping ''queries.PutMetadata failed'')
      (\<lambda>dataID. ret (uuid_String U dataID)) v"
    using Some by (simp add: call_def comp_simps ToPgUUID_def)
  moreover have "\<not> is_Ok (fst (?m v)) \<and> db (snd (?m v)) = db v"
    using assms by (simp add: pool_exec_def run_stmt_def sql_PutMetadata_def split: option.split net_event.split)
  ultimately show ?thesis
    by (cases rule: call_cases [of ?m v "wrapping ''queries.PutMetadata failed''"
          "\<lambda>dataID. ret (uuid_String U dataID)"]) (auto simp: comp_simps dest: sym)
qed (simp add: call_def comp_simps ToPgUUID_def)

lemma Put_unknown_type:
  assumes "data_type_id (db w) (MetaDataType m) = None"
  shows "\<exists>e w'. MetadataRepository_Put U c m loc w = (Err e, w') \<and> db w' = db w"
proof -
  let ?I = "\<lambda>v. db v = db w"
  have keep: "keeps ?I (put_attempt U c m loc)"
    by (rule keepsI) (use put_attempt_unknown_type assms in metis)
  have "keeps ?I (MetadataRepository_Put U c m loc)"
    unfolding MetadataRepository_Put_def call_fail_ret by (rule WithRetry_keeps [OF keep]) simp
  then have "db (snd (MetadataRepository_Put U c m loc w)) = db w" by (rule keepsD) simp
  moreover have False if "MetadataRepository_Put U c m loc w = (Ok i, w')" for i w'
  proof -
    from that obtain v where v: "db v = db w" "put_attempt U c m loc v = (Ok i, w')"
      unfolding MetadataRepository_Put_def call_fail_ret
      by (rule WithRetry_OkE [OF _ _ keep]) simp_all
    then have "data_type_id (db v) (MetaDataType m) = None" using assms by simp
    from put_attempt_unknown_type [OF this, of U c loc] v(2) show False by simp
  qed
  moreover have "total (MetadataRepository_Put U c m loc)"
    unfolding MetadataRepository_Put_def by (intro total_rules)
  ultimately show ?thesis
    by (metis is_Ok_iff prod.collapse total_ErrE)
qed

text \<open>C29: Metadata of type \<open>DataTypeBinary\<close> cannot be stored: the constant of the model has
  a leading space, the migrations insert the name without it, so \<open>Put\<close> fails in every
  world whose type table is the migrated one and leaves the catalog as it was.\<close>

theorem binary_never_stored:
  assumes "data_types (db w) = data_types migrated" and "MetaDataType m = DataTypeBinary"
  shows "\<exists>e w'. MetadataRepository_Put U c m loc w = (Err e, w') \<and> catalog_of U (db w') = catalog_of U (db w)"
proof -
  have "data_type_id (db w) (MetaDataType m) = None"
    using assms by (simp add: data_type_id_def DataTypeBinary_def migrated_def)
  from Put_unknown_type [OF this, of U c loc] show ?thesis by auto
qed

theorem binary_never_stored_witness:
  "\<exists>e w'. MetadataRepository_Put demo_uuid context_Background (demo_card\<lparr>MetaDataType := DataTypeBinary\<rparr>)
     ''pg://7'' (demo_catalog_world []) = (Err e, w')"
  using binary_never_stored [of "demo_catalog_world []" "demo_card\<lparr>MetaDataType := DataTypeBinary\<rparr>"
      demo_uuid context_Background "''pg://7''"]
  by (force simp: demo_catalog_defs)

lemma lost_reply_attempt:
  assumes "net w = (d, LostReply (SqlState s)) # rest" and "ctx_Err c (now w) = None"
    and "uuid_Parse U (MetaUserID m) = Some u"
  obtains w1 where "put_attempt U c m loc w = (Err (Wrap ''queries.PutMetadata failed'' (PgError s)), w1)"
    and "db w1 = snd (sql_PutMetadata u (MetaDataType m) (Name m) None loc
      (uuid_src w (uuid_pos w)) (now w + int d) (db w))"
  using assms
  by (simp add: call_def comp_simps ToPgUUID_def pool_exec_def next_event_def run_stmt_def text_param_invalid
      split: prod.split)

text \<open>C30: \<open>Put\<close> is not idempotent under retries: when the first attempt inserts the object
  but its reply is lost with a retryable error, and a later attempt succeeds, the catalog has
  two objects or more for the one call, with the same owner and locator, and the caller learns
  the id of the last one only.\<close>

theorem put_retry_duplicates:
  assumes "wf_world w" and "net w = (d, LostReply (SqlState s)) # rest" and "s \<in> set retryable_codes"
    and "ctx_Err c (now w) = None" and "MetadataRepository_Put U c m loc w = (Ok i, w')"
    and "is_Ok (fst (sql_PutMetadata (the (uuid_Parse U (MetaUserID m))) (MetaDataType m) (Name m) None loc
      (uuid_src w (uuid_pos w)) (now w + int d) (db w)))"
  shows "\<exists>x ys y. catalog_of U (db w') = catalog_of U (db w) @ x # ys @ [y] \<and> e_id x \<noteq> e_id y \<and>
    Locator (e_ml x) = Locator (e_ml y) \<and> e_owner x = e_owner y \<and> ID (Meta (e_ml y)) = i"
proof -
  obtain u where u: "uuid_Parse U (MetaUserID m) = Some u"
    using Put_Ok [OF assms(1,5)] by blast
  with assms(2,4) obtain w1 where
    q: "put_attempt U c m loc w = (Err (Wrap ''queries.PutMetadata failed'' (PgError s)), w1)"
    and w1: "db w1 = snd (sql_PutMetadata u (MetaDataType m) (Name m) None loc
      (uuid_src w (uuid_pos w)) (now w + int d) (db w))"
    by (rule lost_reply_attempt)
  have again: "WithRetry (put_attempt U c m loc) 1 (time_Sleep 1 w1) = (Ok i, w')"
    using assms(3,5) WithRetry_again [of "put_attempt U c m loc", OF q, of 0]
    by (simp add: MetadataRepository_Put_def isRetryableError_def maxAttemptCount_def)
  have wf: "wf_world (time_Sleep 1 w1)"
  proof -
    have "keeps wf_world (put_attempt U c m loc)" by (intro keeps_rules stmt_keeps)
    then show ?thesis using keepsD assms(1) q wf_time_Sleep by fastforce
  qed
  from assms(6) u obtain k where k: "fst (sql_PutMetadata u (MetaDataType m) (Name m) None loc
      (uuid_src w (uuid_pos w)) (now w + int d) (db w)) = Ok k" by (auto simp: is_Ok_iff)
  have "wf_tables (db w)" using assms(1) by (simp add: wf_world_def)
  from this k obtain x where x: "catalog_of U (db w1) = catalog_of U (db w) @ [x]" "copies u m loc [x]"
    by (rule sql_PutMetadata_catalog [OF _ _ refl, where U = U]) (simp add: w1)
  from Put_Ok_from [OF wf again] u obtain y ys where
    "catalog_of U (db w') = catalog_of U (db w1) @ ys @ [y]" "copies u m loc [y]"
    "ID (Meta (e_ml y)) = i" "e_id y \<notin> e_id ` set (catalog_of U (db w1))"
    by (auto simp: copies_append)
  with x show ?thesis
    by (intro exI [of _ x] exI [of _ ys] exI [of _ y]) (auto simp: copies_def)
qed

theorem put_retry_duplicates_witness:
  "\<exists>i w' x ys y. MetadataRepository_Put demo_uuid context_Background demo_card ''pg://7''
      (demo_catalog_world [(0, LostReply (SqlState ''08006''))]) = (Ok i, w') \<and>
    catalog_of demo_uuid (db w') = catalog_of demo_uuid
      (db (demo_catalog_world [(0, LostReply (SqlState ''08006''))])) @ x # ys @ [y]"
proof -
  let ?w = "demo_catalog_world [(0, LostReply (SqlState ''08006''))]"
  obtain i w' where run: "MetadataRepository_Put demo_uuid context_Background demo_card ''pg://7'' ?w = (Ok i, w')"
    by (simp add: MetadataRepository_Put_def WithRetry.simps call_def comp_simps ToPgUUID_def demo_uuid_1
        pool_exec_def next_event_def after_event_def isRetryableError_def retryable_codes_def maxAttemptCount_def
        time_Sleep_def second_def run_stmt_def sql_PutMetadata_def demo_catalog_defs)
  have "net ?w = (0, LostReply (SqlState ''08006'')) # []" "ctx_Err context_Background (now ?w) = None"
    by (simp_all add: demo_catalog_world_def)
  moreover have "is_Ok (fst (sql_PutMetadata (the (uuid_Parse demo_uuid (MetaUserID demo_card)))
      (MetaDataType demo_card) (Name demo_card) None ''pg://7'' (uuid_src ?w (uuid_pos ?w)) (now ?w + int 0) (db ?w)))"
    unfolding demo_catalog_simps(3) by (simp add: sql_PutMetadata_def demo_catalog_defs)
  ultimately show ?thesis
    using put_retry_duplicates [OF demo_catalog_simps(2) _ _ _ run] run by (fastforce simp: retryable_codes_def)
qed

end
