(* ===== verification/Base64.thy ===== *)
theory Base64
  imports Go_Prelude
begin

text \<open>
  \<open>base64.RawStdEncoding\<close> of the Go standard library: the standard alphabet without
  padding, decoding leniently (carriage returns and newlines are skipped, the unused low
  bits of the last symbol are ignored).  The main fact is that decoding inverts encoding.
\<close>

definition enc6 :: "nat \<Rightarrow> char" where
  "enc6 n =
     (if n < 26 then char_of (65 + n)
      else if n < 52 then char_of (71 + n)
      else if n < 62 then char_of (n - 4)
      else if n = 62 then CHR ''+'' else CHR ''/'')"

definition dec6 :: "char \<Rightarrow> nat option" where
  "dec6 c =
     (let k = of_char c in
      if 65 \<le> k \<and> k \<le> 90 then Some (k - 65)
      else if 97 \<le> k \<and> k \<le> 122 then Some (k - 71)
      else if 48 \<le> k \<and> k \<le> 57 then Some (k + 4)
      else if c = CHR ''+'' then Some 62
      else if c = CHR ''/'' then Some 63
      else None)"

fun base64_EncodeToString :: "bytes \<Rightarrow> string" where
  "base64_EncodeToString [] = []"
| "base64_EncodeToString [x] =
     [enc6 (unat x div 4), enc6 (unat x mod 4 * 16)]"
| "base64_EncodeToString [x, y] =
     [enc6 (unat x div 4), enc6 (unat x mod 4 * 16 + unat y div 16), enc6 (unat y mod 16 * 4)]"
| "base64_EncodeToString (x # y # z # rest) =
     enc6 (unat x div 4) # enc6 (unat x mod 4 * 16 + unat y div 16) #
     enc6 (unat y mod 16 * 4 + unat z div 64) # enc6 (unat z mod 64) #
     base64_EncodeToString rest"

definition byte1 :: "nat \<Rightarrow> nat \<Rightarrow> byte" where
  "byte1 a b = word_of_nat (a * 4 + b div 16)"

definition byte2 :: "nat \<Rightarrow> nat \<Rightarrow> byte" where
  "byte2 b c = word_of_nat (b mod 16 * 16 + c div 4)"

definition byte3 :: "nat \<Rightarrow> nat \<Rightarrow> byte" where
  "byte3 c d = word_of_nat (c mod 4 * 64 + d)"

fun dec_quanta :: "nat list \<Rightarrow> bytes option" where
  "dec_quanta [] = Some []"
| "dec_quanta [a] = None"
| "dec_quanta [a, b] = Some [byte1 a b]"
| "dec_quanta [a, b, c] = Some [byte1 a b, byte2 b c]"
| "dec_quanta (a # b # c # d # rest) =
     map_option (\<lambda>bs. byte1 a b # byte2 b c # byte3 c d # bs) (dec_quanta rest)"

definition not_newline :: "char \<Rightarrow> bool" where
  "not_newline c \<longleftrightarrow> (of_char c :: nat) \<noteq> 10 \<and> (of_char c :: nat) \<noteq> 13"

definition base64_DecodeString :: "string \<Rightarrow> bytes result" where
  "base64_DecodeString s =
     (let vs = map dec6 (filter not_newline s)
      in case (if None \<in> set vs then None else dec_quanta (map the vs)) of
           None \<Rightarrow> Err (ErrNew ''illegal base64 data'')
         | Some bs \<Rightarrow> Ok bs)"

lemma of_char_enc6:
  "n < 64 \<Longrightarrow> of_char (enc6 n) =
     (if n < 26 then 65 + n else if n < 52 then 71 + n else if n < 62 then n - 4
      else if n = 62 then 43 else (47 :: nat))"
  by (auto simp: enc6_def)

lemma dec6_enc6: "n < 64 \<Longrightarrow> dec6 (enc6 n) = Some n"
  using of_char_enc6 [of n] by (auto simp: dec6_def Let_def enc6_def)

lemma not_newline_enc6: "n < 64 \<Longrightarrow> not_newline (enc6 n)"
  by (auto simp: not_newline_def of_char_enc6)

lemma enc6_neq_dollar: "n < 64 \<Longrightarrow> enc6 n \<noteq> CHR ''$''"
  using of_char_enc6 [of n] by (auto split: if_splits)

text \<open>The six-bit values of an encoding, and the two halves of the round trip.\<close>

fun sextets :: "bytes \<Rightarrow> nat list" where
  "sextets [] = []"
| "sextets [x] = [unat x div 4, unat x mod 4 * 16]"
| "sextets [x, y] =
     [unat x div 4, unat x mod 4 * 16 + unat y div 16, unat y mod 16 * 4]"
| "sextets (x # y # z # rest) =
     (unat x div 4) # (unat x mod 4 * 16 + unat y div 16) #
     (unat y mod 16 * 4 + unat z div 64) # (unat z mod 64) # sextets rest"

lemma unat_byte_less: "unat (x :: byte) < 256"
  using unsigned_less [of x] by simp

lemma div_bounds:
  fixes x :: nat
  assumes "x < 256"
  shows "x div 4 < 64" and "x div 16 < 16" and "x div 64 < 4"
  using assms by (simp_all add: less_mult_imp_div_less)

lemma two_digits_less:
  fixes a b :: nat
  assumes "a < m" and "b < n"
  shows "a * n + b < m * n"
proof -
  have "a * n + b < Suc a * n" using assms(2) by simp
  also have "\<dots> \<le> m * n" using assms(1) by (simp only: Suc_le_eq mult_le_mono1)
  finally show ?thesis .
qed

lemmas byte_div_bounds = div_bounds [OF unat_byte_less]

lemma sextet_bounds:
  fixes x y z :: byte
  shows "unat x div 4 < 64" and "unat x mod 4 * 16 + unat y div 16 < 64"
    and "unat y mod 16 * 4 + unat z div 64 < 64" and "unat z mod 64 < 64"
    and "unat x mod 4 * 16 < 64" and "unat y mod 16 * 4 < 64"
proof -
  show "unat x mod 4 * 16 + unat y div 16 < 64"
    using two_digits_less [of "unat x mod 4" 4 "unat y div 16" 16] byte_div_bounds by simp
  show "unat y mod 16 * 4 + unat z div 64 < 64"
    using two_digits_less [of "unat y mod 16" 16 "unat z div 64" 4] byte_div_bounds by simp
  show "unat x mod 4 * 16 < 64"
    using two_digits_less [of "unat x mod 4" 4 0 16] by simp
  show "unat y mod 16 * 4 < 64"
    using two_digits_less [of "unat y mod 16" 16 0 4] by simp
qed (simp_all add: byte_div_bounds)

lemma sextets_less: "list_all (\<lambda>n. n < 64) (sextets bs)"
  by (induction bs rule: sextets.induct) (simp_all add: sextet_bounds)

lemma Encode_sextets: "base64_EncodeToString bs = map enc6 (sextets bs)"
  by (induction bs rule: sextets.induct) simp_all

lemma byte1_sextets:
  "byte1 (unat x div 4) (unat x mod 4 * 16 + unat (y :: byte) div 16) = x"
  "byte1 (unat x div 4) (unat x mod 4 * 16) = x"
  using byte_div_bounds [of y] by (simp_all add: byte1_def div_mult_mod_eq)

lemma byte2_sextets:
  "byte2 (unat (x :: byte) mod 4 * 16 + unat y div 16) (unat y mod 16 * 4 + unat (z :: byte) div 64) = y"
  "byte2 (unat x mod 4 * 16 + unat y div 16) (unat y mod 16 * 4) = y"
  using byte_div_bounds [of y] byte_div_bounds [of z]
  by (simp_all add: byte2_def div_mult_mod_eq)

lemma byte3_sextets: "byte3 (unat (y :: byte) mod 16 * 4 + unat z div 64) (unat z mod 64) = z"
  using byte_div_bounds [of z] by (simp add: byte3_def div_mult_mod_eq)

lemma dec_quanta_sextets: "dec_quanta (sextets bs) = Some bs"
  by (induction bs rule: sextets.induct)
     (simp_all add: byte1_sextets byte2_sextets byte3_sextets)

lemma dec6_sextets:
  "map dec6 (filter not_newline (map enc6 (sextets bs))) = map Some (sextets bs)"
proof -
  have "list_all (\<lambda>n. not_newline (enc6 n) \<and> dec6 (enc6 n) = Some n) (sextets bs)"
    using sextets_less [of bs] by (auto simp: list_all_iff dec6_enc6 not_newline_enc6)
  then show ?thesis
    by (induction "sextets bs") (auto simp: list_all_iff filter_map o_def)
qed

lemma base64_roundtrip: "base64_DecodeString (base64_EncodeToString bs) = Ok bs"
  unfolding base64_DecodeString_def Encode_sextets dec6_sextets
  by (simp add: Let_def image_iff dec_quanta_sextets comp_def)

lemma base64_no_dollar: "CHR ''$'' \<notin> set (base64_EncodeToString bs)"
  using sextets_less [of bs] by (auto simp: Encode_sextets list_all_iff dest: enc6_neq_dollar [symmetric])

lemma base64_inject: "base64_EncodeToString a = base64_EncodeToString b \<longleftrightarrow> a = b"
  by (metis base64_roundtrip result.inject(1))

end
