(* ===== verification/Sha256.thy ===== *)
theory Sha256
  imports Go_Prelude
begin

unbundle bit_operations_syntax

text \<open>
  \<open>crypto/sha256\<close> and \<open>crypto/hmac\<close> of the Go standard library: the SHA-256
  compression function on 32-bit words (FIPS 180-4) and the HMAC construction over it
  (FIPS 198-1).  The components only rely on the digest being a function of its input and
  32 bytes long; \<open>Sha256_Vector\<close> evaluates the test vector of the standard.
\<close>

type_synonym w32 = "32 word"

section \<open>SHA-256\<close>

definition rotr :: "nat \<Rightarrow> w32 \<Rightarrow> w32" where
  "rotr n x = drop_bit n x OR push_bit (32 - n) x"

definition small_sigma0 :: "w32 \<Rightarrow> w32" where
  "small_sigma0 x = rotr 7 x XOR rotr 18 x XOR drop_bit 3 x"

definition small_sigma1 :: "w32 \<Rightarrow> w32" where
  "small_sigma1 x = rotr 17 x XOR rotr 19 x XOR drop_bit 10 x"

definition big_sigma0 :: "w32 \<Rightarrow> w32" where
  "big_sigma0 x = rotr 2 x XOR rotr 13 x XOR rotr 22 x"

definition big_sigma1 :: "w32 \<Rightarrow> w32" where
  "big_sigma1 x = rotr 6 x XOR rotr 11 x XOR rotr 25 x"

definition ch :: "w32 \<Rightarrow> w32 \<Rightarrow> w32 \<Rightarrow> w32" where
  "ch x y z = (x AND y) XOR (NOT x AND z)"

definition maj :: "w32 \<Rightarrow> w32 \<Rightarrow> w32 \<Rightarrow> w32" where
  "maj x y z = (x AND y) XOR (x AND z) XOR (y AND z)"

definition K256 :: "w32 list" where
  "K256 =
    [1116352408, 1899447441, 3049323471, 3921009573, 961987163, 1508970993, 2453635748, 2870763221,
     3624381080, 310598401, 607225278, 1426881987, 1925078388, 2162078206, 2614888103, 3248222580,
     3835390401, 4022224774, 264347078, 604807628, 770255983, 1249150122, 1555081692, 1996064986,
     2554220882, 2821834349, 2952996808, 3210313671, 3336571891, 3584528711, 113926993, 338241895,
     666307205, 773529912, 1294757372, 1396182291, 1695183700, 1986661051, 2177026350, 2456956037,
     2730485921, 2820302411, 3259730800, 3345764771, 3516065817, 3600352804, 4094571909, 275423344,
     430227734, 506948616, 659060556, 883997877, 958139571, 1322822218, 1537002063, 1747873779,
     1955562222, 2024104815, 2227730452, 2361852424, 2428436474, 2756734187, 3204031479, 3329325298]"

definition H256 :: "w32 list" where
  "H256 =
    [1779033703, 3144134277, 1013904242, 2773480762, 1359893119, 2600822924, 528734635, 1541459225]"

text \<open>Big-endian words of four bytes, and back.\<close>

fun words_of_bytes :: "bytes \<Rightarrow> w32 list" where
  "words_of_bytes (a # b # c # d # rest) =
     (push_bit 24 (ucast a) OR push_bit 16 (ucast b) OR push_bit 8 (ucast c) OR ucast d)
       # words_of_bytes rest"
| "words_of_bytes _ = []"

definition bytes_of_word :: "w32 \<Rightarrow> bytes" where
  "bytes_of_word w =
     [ucast (drop_bit 24 w), ucast (drop_bit 16 w), ucast (drop_bit 8 w), ucast w]"

text \<open>The message schedule, kept newest word first while it grows.\<close>

fun schedule :: "nat \<Rightarrow> w32 list \<Rightarrow> w32 list" where
  "schedule 0 ws = ws"
| "schedule (Suc n) ws =
     schedule n
       ((small_sigma1 (ws ! 1) + ws ! 6 + small_sigma0 (ws ! 14) + ws ! 15) # ws)"

fun round256 :: "w32 list \<Rightarrow> w32 \<times> w32 \<Rightarrow> w32 list" where
  "round256 [a, b, c, d, e, f, g, h] (k, w) =
     (let t1 = h + big_sigma1 e + ch e f g + k + w;
          t2 = big_sigma0 a + maj a b c
      in [t1 + t2, a, b, c, d + t1, e, f, g])"
| "round256 s _ = s"

definition block256 :: "w32 list \<Rightarrow> bytes \<Rightarrow> w32 list" where
  "block256 hs blk =
     (let ws = rev (schedule 48 (rev (words_of_bytes blk)))
      in map2 (+) hs (foldl round256 hs (zip K256 ws)))"

fun blocks :: "nat \<Rightarrow> w32 list \<Rightarrow> bytes \<Rightarrow> w32 list" where
  "blocks 0 hs bs = hs"
| "blocks (Suc n) hs bs = blocks n (block256 hs (take 64 bs)) (drop 64 bs)"

definition pad256 :: "bytes \<Rightarrow> bytes" where
  "pad256 bs =
     bs @ [0x80] @ replicate ((119 - length bs mod 64) mod 64) 0 @
     map (\<lambda>i. word_of_int (8 * int (length bs) div 256 ^ i)) (rev [0..<8])"

definition sha256_Sum256 :: "bytes \<Rightarrow> bytes" where
  "sha256_Sum256 bs =
     (let p = pad256 bs
      in concat (map bytes_of_word (blocks (length p div 64) H256 p)))"

lemma length_round256: "length (round256 s kw) = length s"
  by (induction s kw rule: round256.induct) (simp_all add: Let_def)

lemma length_foldl_round256: "length (foldl round256 s kws) = length s"
  by (induction kws arbitrary: s) (simp_all add: length_round256)

lemma length_block256: "length (block256 hs blk) = length hs"
  by (simp add: block256_def Let_def length_foldl_round256)

lemma length_blocks: "length (blocks n hs bs) = length hs"
  by (induction n arbitrary: hs bs) (simp_all add: length_block256)

lemma length_Sum256: "length (sha256_Sum256 bs) = 32"
proof -
  have "length (concat (map bytes_of_word ws)) = 4 * length ws" for ws
    by (induction ws) (simp_all add: bytes_of_word_def)
  then show ?thesis
    by (simp add: sha256_Sum256_def Let_def length_blocks H256_def)
qed

section \<open>HMAC\<close>

definition hmac_key :: "bytes \<Rightarrow> bytes" where
  "hmac_key key =
     (let k = (if 64 < length key then sha256_Sum256 key else key)
      in k @ replicate (64 - length k) 0)"

definition hmac_Sum :: "bytes \<Rightarrow> bytes \<Rightarrow> bytes" where
  "hmac_Sum key data =
     (let k = hmac_key key
      in sha256_Sum256 (map ((XOR) 0x5c) k @ sha256_Sum256 (map ((XOR) 0x36) k @ data)))"

lemma length_hmac_Sum: "length (hmac_Sum key data) = 32"
  by (simp add: hmac_Sum_def Let_def length_Sum256)

lemma length_hmac_key: "length (hmac_key key) = 64"
  by (simp add: hmac_key_def Let_def length_Sum256)

end
