(* ===== verification/Hash.thy ===== *)
theory Hash
  imports Go_Strings Base64 Sha256 Go_Env "HOL-Library.Monad_Syntax"
begin

text \<open>
  Package \<open>hash\<close> (\<open>src/pkg/hash/hash.go\<close>): HMAC and SHA-256 digests, random
  bytes, and password hashing in the format of the Password Hashing Competition.  The
  Argon2 implementation is the third-party package \<open>golang.org/x/crypto/argon2\<close>; it
  is the record \<open>argon2_lib\<close>, an argument of the definitions that call it.
\<close>

record argon2_lib =
  argon2_Version :: "64 word"
  argon2_IDKey :: "bytes \<Rightarrow> bytes \<Rightarrow> w32 \<Rightarrow> w32 \<Rightarrow> byte \<Rightarrow> w32 \<Rightarrow> bytes result"

section \<open>Constants and digests\<close>

definition TimeCost :: w32 where "TimeCost = 2"
definition MemoryCost :: w32 where "MemoryCost = 64 * 1024"
definition Threads :: byte where "Threads = 1"
definition Len :: w32 where "Len = 32"
definition SaltSize :: nat where "SaltSize = 32"

definition AlgVersion :: "argon2_lib \<Rightarrow> 64 word" where
  "AlgVersion A = argon2_Version A"

definition GenerateHMAC :: "bytes \<Rightarrow> bytes \<Rightarrow> bytes" where
  "GenerateHMAC data secret = hmac_Sum secret data"

definition GenerateSHA256 :: "bytes \<Rightarrow> bytes" where
  "GenerateSHA256 data = sha256_Sum256 data"

definition GenerateRandom :: "nat \<Rightarrow> ('z env_scheme, bytes) comp" where
  "GenerateRandom n = call (rand_Read n) (wrapping ''failed to generate random'') ret"

section \<open>PHC strings\<close>

text \<open>The format is \<open>$argon2id$v=%d$m=%d,t=%d,p=%d$%s$%s\<close>.\<close>

definition GeneratePHC ::
  "bytes \<Rightarrow> bytes \<Rightarrow> 64 word \<Rightarrow> w32 \<Rightarrow> w32 \<Rightarrow> byte \<Rightarrow> string" where
  "GeneratePHC passwordHash salt algVersion timeCost memoryCost threads =
     ''$argon2id$v='' @ itoa_int (sint algVersion) @
     ''$m='' @ itoa (unat memoryCost) @ '',t='' @ itoa (unat timeCost) @
     '',p='' @ itoa (unat threads) @
     ''$'' @ base64_EncodeToString salt @
     ''$'' @ base64_EncodeToString passwordHash"

definition GenerateFromPassword :: "argon2_lib \<Rightarrow> bytes \<Rightarrow> ('z env_scheme, string) comp" where
  "GenerateFromPassword A password =
     call (GenerateRandom SaltSize) (wrapping ''failed to generate salt'') (\<lambda>salt.
     call (pure_call (argon2_IDKey A password salt TimeCost MemoryCost Threads Len)) fail (\<lambda>hash.
     ret (GeneratePHC hash salt (AlgVersion A) MemoryCost TimeCost Threads)))"

text \<open>\<open>fmt.Sscanf(params, "m=%d,t=%d,p=%d", &mCost, &tCost, &threadCount)\<close>.\<close>

definition Sscanf_params :: "string \<Rightarrow> (w32 \<times> w32 \<times> byte) option" where
  "Sscanf_params s = do {
     s1 \<leftarrow> scan_lit ''m='' s;
     (mCost, s2) \<leftarrow> scan_uint 32 s1;
     s3 \<leftarrow> scan_lit '',t='' s2;
     (tCost, s4) \<leftarrow> scan_uint 32 s3;
     s5 \<leftarrow> scan_lit '',p='' s4;
     (threads, s6) \<leftarrow> scan_uint 8 s5;
     Some (word_of_nat mCost, word_of_nat tCost, word_of_nat threads)
   }"

definition ConstantTimeCompare :: "bytes \<Rightarrow> bytes \<Rightarrow> int" where
  "ConstantTimeCompare x y = (if length x \<noteq> length y then 0 else if x = y then 1 else 0)"

definition CompareHashAndPassword :: "argon2_lib \<Rightarrow> string \<Rightarrow> bytes \<Rightarrow> unit result" where
  "CompareHashAndPassword A phc password =
     (let parts = strings_Split phc (CHR ''$'') in
      rcall (index parts 2) Err (\<lambda>versionPart.
      rcall (strconv_Atoi (strings_TrimPrefix versionPart ''v=''))
        (\<lambda>e. Err (Wrap ''parse PHC argon2 version'' e)) (\<lambda>version.
      if version \<noteq> sint (AlgVersion A) then Err (ErrNew ''argon2 version mismatch'')
      else
      rcall (index parts 3) Err (\<lambda>params.
      rcall (index parts 4) Err (\<lambda>saltBase64.
      rcall (index parts 5) Err (\<lambda>hashBase64.
      case Sscanf_params params of
        None \<Rightarrow> Err (Wrap ''parse PHC parameters'' (ErrNew ''fmt.Sscanf''))
      | Some (mCost, tCost, threadCount) \<Rightarrow>
          rcall (base64_DecodeString saltBase64) (\<lambda>e. Err (Wrap ''salt base64.Decode'' e)) (\<lambda>salt.
          rcall (base64_DecodeString hashBase64) (\<lambda>e. Err (Wrap ''hash base64.Decode'' e)) (\<lambda>hash.
          rcall (argon2_IDKey A password salt tCost mCost threadCount (word_of_nat (length hash)))
            Err (\<lambda>computed.
          if ConstantTimeCompare computed hash = 0 then Err (ErrNew ''password is incorrect'')
          else Ok ())))))))))"

section \<open>Lemmas\<close>

lemma ConstantTimeCompare_zero: "ConstantTimeCompare x y = 0 \<longleftrightarrow> x \<noteq> y"
  by (auto simp: ConstantTimeCompare_def)

lemma length_GenerateSHA256 [simp]: "length (GenerateSHA256 data) = 32"
  by (simp add: GenerateSHA256_def length_Sum256)

lemma length_GenerateHMAC [simp]: "length (GenerateHMAC data secret) = 32"
  by (simp add: GenerateHMAC_def length_hmac_Sum)

lemma GenerateRandom_Ok:
  assumes "GenerateRandom n w = (Ok bs, w')"
  shows "length bs = n" and "w' = w\<lparr>rnd_pos := Suc (rnd_pos w)\<rparr>"
proof -
  from assms obtain bs1 w1 where "rand_Read n w = (Ok bs1, w1)" and "ret bs1 w1 = (Ok bs, w')"
    unfolding GenerateRandom_def by (rule call_OkE) (simp add: comp_simps)
  then show "length bs = n" and "w' = w\<lparr>rnd_pos := Suc (rnd_pos w)\<rparr>"
    using rand_Read_length [of n w] rand_Read_state [of n w] by (auto simp: comp_simps)
qed

lemma Sscanf_params_printed:
  "Sscanf_params (''m='' @ itoa (unat m) @ '',t='' @ itoa (unat t) @ '',p='' @ itoa (unat p))
     = Some (m, t, p)"
proof -
  have m: "scan_uint 32 (itoa (unat m) @ '',t='' @ rest) = Some (unat m, '',t='' @ rest)" for rest
    by (rule scan_uint_itoa) (use unsigned_less [of m] in \<open>simp_all add: is_digit_def\<close>)
  have t: "scan_uint 32 (itoa (unat t) @ '',p='' @ rest) = Some (unat t, '',p='' @ rest)" for rest
    by (rule scan_uint_itoa) (use unsigned_less [of t] in \<open>simp_all add: is_digit_def\<close>)
  have p: "scan_uint 8 (itoa (unat p)) = Some (unat p, [])"
    using scan_uint_itoa [of "unat p" 8 "[]"] unsigned_less [of p] by simp
  show ?thesis
    unfolding Sscanf_params_def
    using m t p by (simp del: append_Cons)
qed

lemma Split_GeneratePHC:
  "strings_Split (GeneratePHC h s v t m p) (CHR ''$'') =
     [[], ''argon2id'', ''v='' @ itoa_int (sint v),
      ''m='' @ itoa (unat m) @ '',t='' @ itoa (unat t) @ '',p='' @ itoa (unat p),
      base64_EncodeToString s, base64_EncodeToString h]"
proof -
  let ?v = "''v='' @ itoa_int (sint v)"
  let ?p = "''m='' @ itoa (unat m) @ '',t='' @ itoa (unat t) @ '',p='' @ itoa (unat p)"
  have "CHR ''$'' \<notin> set ?v" "CHR ''$'' \<notin> set ?p"
    by (auto simp: itoa_int_no_sep dest: itoa_is_digit digit_char_ne)
  then have "strings_Split (?v @ CHR ''$'' # ?p @ CHR ''$'' # base64_EncodeToString s @ CHR ''$'' #
      base64_EncodeToString h) (CHR ''$'') = [?v, ?p, base64_EncodeToString s, base64_EncodeToString h]"
    by (simp only: Split_append_sep base64_no_dollar Split_no_sep not_False_eq_True)
  then show ?thesis
    by (simp add: GeneratePHC_def)
qed

lemma Compare_GeneratePHC_lemma:
  "CompareHashAndPassword A (GeneratePHC h s (AlgVersion A) t m p) password =
     rcall (argon2_IDKey A password s t m p (word_of_nat (length h))) Err
       (\<lambda>computed. if computed \<noteq> h then Err (ErrNew ''password is incorrect'') else Ok ())"
proof -
  have "strconv_Atoi (strings_TrimPrefix (''v='' @ itoa_int (sint (AlgVersion A))) ''v='')
      = Ok (sint (AlgVersion A))"
    unfolding TrimPrefix_append
    by (rule Atoi_itoa_int) (use sint_greater_eq [of "AlgVersion A"] sint_less [of "AlgVersion A"]
        in simp_all)
  then show ?thesis
    by (simp add: CompareHashAndPassword_def Split_GeneratePHC Sscanf_params_printed base64_roundtrip
        ConstantTimeCompare_zero index_def del: append_Cons)
qed

lemma Compare_GeneratePHC_Ok:
  "CompareHashAndPassword A (GeneratePHC h s (AlgVersion A) t m p) password = Ok () \<longleftrightarrow>
     argon2_IDKey A password s t m p (word_of_nat (length h)) = Ok h"
  by (cases "argon2_IDKey A password s t m p (word_of_nat (length h))")
     (auto simp: Compare_GeneratePHC_lemma)

lemma GenerateFromPassword_Ok:
  assumes "GenerateFromPassword A password w = (Ok phc, w')"
  obtains salt key where "length salt = SaltSize"
    and "argon2_IDKey A password salt TimeCost MemoryCost Threads Len = Ok key"
    and "phc = GeneratePHC key salt (AlgVersion A) MemoryCost TimeCost Threads"
    and "w' = w\<lparr>rnd_pos := Suc (rnd_pos w)\<rparr>"
proof -
  from assms obtain salt w1 where salt: "GenerateRandom SaltSize w = (Ok salt, w1)"
    and rest: "call (pure_call (argon2_IDKey A password salt TimeCost MemoryCost Threads Len)) fail
      (\<lambda>hash. ret (GeneratePHC hash salt (AlgVersion A) MemoryCost TimeCost Threads)) w1
      = (Ok phc, w')"
    unfolding GenerateFromPassword_def by (rule call_OkE) (simp add: comp_simps)
  from rest obtain key where
    "argon2_IDKey A password salt TimeCost MemoryCost Threads Len = Ok key"
    "phc = GeneratePHC key salt (AlgVersion A) MemoryCost TimeCost Threads" "w' = w1"
    by (rule call_OkE) (auto simp: comp_simps)
  then show thesis using GenerateRandom_Ok [OF salt] that by simp
qed

section \<open>Properties\<close>

text \<open>An Argon2 stand-in for the witnesses: the key records which cost is the larger.\<close>

definition demo_argon2 :: argon2_lib where
  "demo_argon2 = \<lparr>argon2_Version = 19,
     argon2_IDKey = (\<lambda>pw salt t m p l. Ok (pw @ [if t < m then 1 else 2, p]))\<rparr>"

definition demo_env :: env where
  "demo_env = \<lparr>rnd_src = (\<lambda>_. Inr (\<lambda>_. 7)), rnd_pos = 0, now = 0\<rparr>"

text \<open>C22: A password is accepted against a PHC string exactly when Argon2, run on the
  salt, the time cost, the memory cost and the thread count the string was printed from,
  gives the printed hash.  Printing and parsing the string lose nothing, for every hash,
  salt and cost.\<close>

theorem CompareHashAndPassword_GeneratePHC:
  "CompareHashAndPassword A (GeneratePHC h s (AlgVersion A) t m p) password = Ok () \<longleftrightarrow>
     argon2_IDKey A password s t m p (word_of_nat (length h)) = Ok h"
  by (rule Compare_GeneratePHC_Ok)

text \<open>C23: The string \<open>GenerateFromPassword\<close> stores is checked with the two costs
  exchanged.  The key is derived with time cost 2 and memory cost 65536, the string records
  them the other way round, and a password is accepted exactly when Argon2 with time cost
  65536 and memory cost 2 gives the stored key.\<close>

theorem GenerateFromPassword_costs_swapped:
  assumes "GenerateFromPassword A password w = (Ok phc, w')"
  shows "\<exists>salt key. length salt = SaltSize
    \<and> argon2_IDKey A password salt TimeCost MemoryCost Threads Len = Ok key
    \<and> (\<forall>pw. CompareHashAndPassword A phc pw = Ok () \<longleftrightarrow>
          argon2_IDKey A pw salt MemoryCost TimeCost Threads (word_of_nat (length key)) = Ok key)"
  using assms by (rule GenerateFromPassword_Ok) (auto simp: Compare_GeneratePHC_Ok)

theorem GenerateFromPassword_costs_swapped_witness:
  "\<exists>phc w'. GenerateFromPassword demo_argon2 [1] demo_env = (Ok phc, w')
     \<and> CompareHashAndPassword demo_argon2 phc [1] \<noteq> Ok ()"
proof -
  obtain phc w' where run: "GenerateFromPassword demo_argon2 [1] demo_env = (Ok phc, w')"
    by (simp add: GenerateFromPassword_def GenerateRandom_def call_def rand_Read_def demo_env_def
        demo_argon2_def comp_simps)
  from GenerateFromPassword_costs_swapped [OF run] obtain salt key where
    key: "argon2_IDKey demo_argon2 [1] salt TimeCost MemoryCost Threads Len = Ok key"
    and acc: "CompareHashAndPassword demo_argon2 phc [1] = Ok () \<longleftrightarrow>
      argon2_IDKey demo_argon2 [1] salt MemoryCost TimeCost Threads (word_of_nat (length key)) = Ok key"
    by blast
  from key have "key = [1, 1, 1]"
    by (simp add: demo_argon2_def TimeCost_def MemoryCost_def Threads_def)
  then have "argon2_IDKey demo_argon2 [1] salt MemoryCost TimeCost Threads (word_of_nat (length key)) \<noteq> Ok key"
    by (simp add: demo_argon2_def TimeCost_def MemoryCost_def Threads_def)
  with run acc show ?thesis by blast
qed

text \<open>A password is accepted only against a string with six parts, the version of the
  Argon2 package, and a stored hash equal to the key Argon2 derives from the stored salt.\<close>

theorem CompareHashAndPassword_sound:
  assumes "CompareHashAndPassword A phc password = Ok ()"
  shows "\<exists>salt hash m t p.
    5 < length (strings_Split phc (CHR ''$''))
    \<and> strconv_Atoi (strings_TrimPrefix (strings_Split phc (CHR ''$'') ! 2) ''v='') = Ok (sint (AlgVersion A))
    \<and> Sscanf_params (strings_Split phc (CHR ''$'') ! 3) = Some (m, t, p)
    \<and> base64_DecodeString (strings_Split phc (CHR ''$'') ! 4) = Ok salt
    \<and> base64_DecodeString (strings_Split phc (CHR ''$'') ! 5) = Ok hash
    \<and> argon2_IDKey A password salt t m p (word_of_nat (length hash)) = Ok hash"
  using assms unfolding CompareHashAndPassword_def Let_def
  by (clarsimp simp: rcall_Ok_iff index_eq_Ok ConstantTimeCompare_zero split: if_splits option.splits)

theorem CompareHashAndPassword_sound_witness:
  "5 < length (strings_Split (GeneratePHC [1, 1, 7] [9] 19 5 6 7) (CHR ''$''))"
proof -
  have "CompareHashAndPassword demo_argon2 (GeneratePHC [1, 1, 7] [9] (AlgVersion demo_argon2) 5 6 7) [1]
      = Ok ()"
    by (simp add: Compare_GeneratePHC_Ok) (simp add: demo_argon2_def)
  from CompareHashAndPassword_sound [OF this] show ?thesis
    by (auto simp: AlgVersion_def demo_argon2_def)
qed

text \<open>A stored string with fewer than two dollar signs makes the comparison panic with
  an index out of range, before anything is checked.\<close>

theorem CompareHashAndPassword_short_panics:
  assumes "count_list phc (CHR ''$'') < 2"
  shows "CompareHashAndPassword A phc password = Panic ''index out of range''"
  using assms by (simp add: CompareHashAndPassword_def length_Split Let_def)

theorem CompareHashAndPassword_short_panics_witness:
  "CompareHashAndPassword demo_argon2 ''$argon2id'' [1] = Panic ''index out of range''"
  by (rule CompareHashAndPassword_short_panics) simp

end
