(* ===== verification/Sealed_Repo.thy ===== *)
theory Sealed_Repo
  imports Metadata_Repo Hash
begin

text \<open>
  \<open>src/internal/repo/db/sealed_repo.go\<close>: the sealed data of the objects, in chunks,
  and the interface \<open>keeper.ObjectRepo\<close>.

  A \<open>bytes.Reader\<close> is a cell of the world's reader heap.  The copying loop of
  \<open>Put\<close> has no bound in the source, so it is a partial function whose value is
  \<open>None\<close> when it runs forever.  \<open>Get\<close> hands out the reading end of a pipe that a
  goroutine fills: reading it to the end waits for that goroutine, so its whole work is the
  computation \<open>rc_ReadAll\<close>.
\<close>

section \<open>Readers and writers\<close>

definition int32 :: "int \<Rightarrow> int" where
  "int32 n = signed_take_bit 31 n"

lemma int32_id: "- (2 ^ 31) \<le> n \<Longrightarrow> n < 2 ^ 31 \<Longrightarrow> int32 n = n"
  by (simp add: int32_def signed_take_bit_int_eq_self)

definition bytes_NewReader :: "bytes \<Rightarrow> (world, nat) comp" where
  "bytes_NewReader bs w = (Ok (next_reader w),
     w\<lparr>readers := (readers w)(next_reader w := bs), next_reader := Suc (next_reader w)\<rparr>)"

text \<open>\<open>Read\<close> into a buffer of \<open>n\<close> bytes: the bytes read, and \<open>io.EOF\<close> at the end.\<close>

definition reader_Read :: "nat \<Rightarrow> nat \<Rightarrow> world \<Rightarrow> (bytes \<times> goerr option) \<times> world" where
  "reader_Read r n w =
     (if readers w r = [] then (([], Some (Sentinel Io_EOF)), w)
      else ((take n (readers w r), None), w\<lparr>readers := (readers w)(r := drop n (readers w r))\<rparr>))"

record ReadCloser =
  rc_ReadAll :: "(world, bytes) comp"
  rc_Close :: "goerr option"

record ObjectRepo =
  or_Put :: "ctx \<Rightarrow> Metadata \<Rightarrow> nat \<Rightarrow> int \<Rightarrow> bytes \<Rightarrow> (world, ObjectLocator) comp"
  or_Get :: "ctx \<Rightarrow> ObjectLocator \<Rightarrow> (world, ReadCloser) comp"
  or_Delete :: "ctx \<Rightarrow> ObjectLocator \<Rightarrow> (world, unit) comp"

text \<open>\<open>defer f\<close>: runs when the body returns or panics.\<close>

definition deferring :: "(world \<Rightarrow> world) \<Rightarrow> (world, 'a) comp \<Rightarrow> (world, 'a) comp" where
  "deferring f m w = (case m w of (r, w') \<Rightarrow> (r, f w'))"

section \<open>The repository\<close>

definition putHelper ::
  "ctx \<Rightarrow> nat \<Rightarrow> int \<Rightarrow> int \<Rightarrow> uuid \<Rightarrow> bytes \<Rightarrow> (world, unit) comp" where
  "putHelper c r idx sz dataUUID sha w =
     (if sz < 0 then (Panic ''makeslice: len out of range'', w)
      else (case reader_Read r (nat sz) w of ((bs, err), w1) \<Rightarrow>
        if int32 sz < sz
        then (Err (ErrNew ''sealed size invariant violation: read from Reader return less than expected''), w1)
        else if (case err of None \<Rightarrow> False | Some e \<Rightarrow> errors_Is e Io_EOF)
        then (Err (Sentinel Io_EOF), w1)
        else if GenerateSHA256 bs \<noteq> sha then (Err (ErrNew ''sha256 mismatch''), w1)
        else
          call (tx_exec c (sql_InsertBlob dataUUID bs)) (wrapping ''InsertBlob'') (\<lambda>blobID.
          call (tx_exec c (sql_PutManifest dataUUID blobID idx sz)) (wrapping ''PutManifest'') ret) w1))"

text \<open>The loop of \<open>Put\<close>: every error but \<open>io.EOF\<close> is dropped.\<close>

partial_function (option) put_loop ::
  "ctx \<Rightarrow> nat \<Rightarrow> int \<Rightarrow> uuid \<Rightarrow> bytes \<Rightarrow> int \<Rightarrow> world \<Rightarrow> (unit result \<times> world) option" where
  "put_loop c r sz dataUUID sha idx w =
     (case putHelper c r idx sz dataUUID sha w of
        (Panic p, w1) \<Rightarrow> Some (Panic p, w1)
      | (Hang, w1) \<Rightarrow> Some (Hang, w1)
      | (Ok _, w1) \<Rightarrow> put_loop c r sz dataUUID sha (int32 (idx + 1)) w1
      | (Err e, w1) \<Rightarrow>
          if errors_Is e Io_EOF then Some (Ok (), w1)
          else put_loop c r sz dataUUID sha (int32 (idx + 1)) w1)"

definition looping :: "(world \<Rightarrow> ('a result \<times> world) option) \<Rightarrow> (world, 'a) comp" where
  "looping f w = (case f w of None \<Rightarrow> (Hang, w) | Some rw \<Rightarrow> rw)"

text \<open>The body of \<open>putLogic\<close> once the transaction is open.\<close>

definition put_tx ::
  "uuid_lib \<Rightarrow> ctx \<Rightarrow> Metadata \<Rightarrow> nat \<Rightarrow> int \<Rightarrow> bytes \<Rightarrow> (world, string) comp" where
  "put_tx U c meta r sz sha =
     call (pure_call (ToPgUUID U (ID meta))) (wrapping ''wrong dataID format'') (\<lambda>dataUUID.
     call (looping (put_loop c r sz dataUUID sha 0)) fail (\<lambda>_.
     call (tx_Commit c) (wrapping ''commit'') (\<lambda>_.
     ret (uuid_String U dataUUID))))"

definition putLogic ::
  "uuid_lib \<Rightarrow> ctx \<Rightarrow> Metadata \<Rightarrow> nat \<Rightarrow> int \<Rightarrow> bytes \<Rightarrow> (world, string) comp" where
  "putLogic U c meta r sz sha =
     call (pool_Begin c) (wrapping ''failed to start TX'') (\<lambda>_.
     deferring tx_Rollback (put_tx U c meta r sz sha))"

definition SealedRepo_Put ::
  "uuid_lib \<Rightarrow> ctx \<Rightarrow> Metadata \<Rightarrow> nat \<Rightarrow> int \<Rightarrow> bytes \<Rightarrow> (world, ObjectLocator) comp" where
  "SealedRepo_Put U c meta r sz sha =
     call (WithRetry (putLogic U c meta r sz sha) 0) fail (\<lambda>uuid. ret (''pg://'' @ uuid))"

text \<open>
  The pipe.  \<open>CloseWithError\<close> keeps the first error; a write after it fails and delivers
  nothing, so the reader sees the chunks before the first bad one and then the error.
\<close>

fun pipe_rows :: "(bytes \<times> int) list \<Rightarrow> bytes result" where
  "pipe_rows [] = Ok []"
| "pipe_rows ((sealed, len) # rows) =
     (if int (length sealed) \<noteq> len then Err (ErrNew ''rows.Scan: data corrupted: length mismatch'')
      else rcall (pipe_rows rows) Err (\<lambda>rest. Ok (sealed @ rest)))"

definition get_pipe :: "ctx \<Rightarrow> ObjectLocator \<Rightarrow> ReadCloser" where
  "get_pipe c loc = \<lparr>
     rc_ReadAll = call (pool_exec c (sql_getQuery loc)) (wrapping ''pgxpool.Query'') (\<lambda>rows.
       pure_call (pipe_rows rows)),
     rc_Close = None\<rparr>"

definition SealedRepo_Get :: "ctx \<Rightarrow> ObjectLocator \<Rightarrow> (world, ReadCloser) comp" where
  "SealedRepo_Get c loc = call (WithRetry (ret (get_pipe c loc)) 0) fail ret"

definition SealedRepo_Delete :: "ctx \<Rightarrow> ObjectLocator \<Rightarrow> (world, unit) comp" where
  "SealedRepo_Delete c loc =
     call (WithRetry
       (call (pool_exec c (sql_DeleteObject loc)) (wrapping ''queries.DeleteObject'') ret) 0) fail ret"

definition NewObjectRepository :: "uuid_lib \<Rightarrow> ObjectRepo" where
  "NewObjectRepository U = \<lparr>or_Put = SealedRepo_Put U, or_Get = SealedRepo_Get,
     or_Delete = SealedRepo_Delete\<rparr>"

section \<open>The copying loop\<close>

lemma tx_exec_readers: "readers (snd (tx_exec c st w)) = readers w"
  by (simp add: tx_exec_def run_in_tx_def kill_tx_def Let_def split: option.split net_event.split prod.split result.split)

lemma tx_exec_returns: "stmt_total st \<Longrightarrow> total (tx_exec c st)"
  by (rule totalI)
     (auto simp: stmt_total_def tx_exec_def run_in_tx_def Let_def split: option.splits net_event.splits prod.splits result.splits,
      (metis fst_conv returns.simps)+)

lemma putHelper_readers: "readers (snd (putHelper c r idx sz k sha w)) =
    (if sz < 0 then readers w else (readers w)(r := drop (nat sz) (readers w r)))"
proof -
  have tx: "frames readers (call (tx_exec c (sql_InsertBlob k bs)) (wrapping ''InsertBlob'') (\<lambda>blobID.
      call (tx_exec c (sql_PutManifest k blobID idx sz)) (wrapping ''PutManifest'') ret))" for bs
    by (intro frames_rules framesI tx_exec_readers)
  show ?thesis
    using framesD [OF tx] by (auto simp: putHelper_def reader_Read_def split: option.split)
qed

lemma putHelper_EOF: "0 \<le> sz \<Longrightarrow> sz < 2 ^ 31 \<Longrightarrow> readers w r = [] \<Longrightarrow>
    putHelper c r idx sz k sha w = (Err (Sentinel Io_EOF), w)"
  by (simp add: putHelper_def reader_Read_def int32_id)

lemma putHelper_returns: "0 \<le> sz \<Longrightarrow> returns (fst (putHelper c r idx sz k sha w))"
proof -
  assume "0 \<le> sz"
  moreover have "total (call (tx_exec c (sql_InsertBlob k bs)) (wrapping ''InsertBlob'') (\<lambda>blobID.
      call (tx_exec c (sql_PutManifest k blobID idx sz)) (wrapping ''PutManifest'') ret))" for bs
    by (intro total_rules tx_exec_returns)
  ultimately show ?thesis
    by (auto simp: putHelper_def reader_Read_def intro: totalD split: option.split)
qed

text \<open>With a positive chunk size every turn consumes data, so the loop ends.\<close>

lemma put_loop_terminates:
  assumes "0 < sz" and "sz < 2 ^ 31"
  shows "\<exists>w'. put_loop c r sz k sha idx w = Some (Ok (), w')"
proof (induction "length (readers w r)" arbitrary: w idx rule: less_induct)
  case less
  obtain res w1 where h: "putHelper c r idx sz k sha w = (res, w1)" by (cases "putHelper c r idx sz k sha w")
  show ?case
  proof (cases "readers w r = []")
    case True
    then show ?thesis using assms by (subst put_loop.simps) (simp add: putHelper_EOF)
  next
    case False
    have "length (readers w1 r) < length (readers w r)"
      using putHelper_readers [of c r idx sz k sha w] h assms False by auto
    then obtain w' where "put_loop c r sz k sha (int32 (idx + 1)) w1 = Some (Ok (), w')"
      using less by blast
    moreover have "returns res" using putHelper_returns [of sz c r idx k sha w] h assms by simp
    ultimately show ?thesis using h by (subst put_loop.simps) (cases res; simp)
  qed
qed

lemma tx_exec_not_EOF:
  assumes "tx_exec c st w = (Err e, w')" and "\<And>fresh at t e. fst (st fresh at t) = Err e \<Longrightarrow> \<not> errors_Is e Io_EOF"
  shows "\<not> errors_Is e Io_EOF"
proof -
  have "(\<exists>t. ctx_Err c t = Some e) \<or> (\<exists>f. e = fault_err f) \<or> (\<exists>fresh at t. fst (st fresh at t) = Err e) \<or>
      e \<in> {Sentinel Pgx_ErrTxClosed, conn_closed, in_failed_transaction}"
    using assms(1)
    by (auto simp: tx_exec_def run_in_tx_def Let_def
        split: option.splits net_event.splits prod.splits result.splits if_splits) (metis fst_conv)+
  then show ?thesis
    using assms(2) ctx_Err_Is [of c _ e Io_EOF] by (auto simp: conn_closed_def in_failed_transaction_def)
qed

lemma putHelper_not_EOF:
  assumes "readers w r \<noteq> []" and "putHelper c r idx sz k sha w = (Err e, w')"
  shows "\<not> errors_Is e Io_EOF"
proof -
  have blob: "tx_exec c (sql_InsertBlob k bs) v = (Err e', v') \<Longrightarrow> \<not> errors_Is e' Io_EOF" for bs v e' v'
    by (erule tx_exec_not_EOF) (auto simp: sql_InsertBlob_def pg_error_defs split: if_splits)
  have man: "tx_exec c (sql_PutManifest k b idx sz) v = (Err e', v') \<Longrightarrow> \<not> errors_Is e' Io_EOF" for b v e' v'
    by (erule tx_exec_not_EOF) (auto simp: sql_PutManifest_def pg_error_defs split: if_splits)
  show ?thesis
    using assms
    by (auto simp: putHelper_def reader_Read_def call_def comp_simps
        dest!: blob man split: if_splits prod.splits result.splits)
qed

text \<open>Induction over the turns of a loop that returned.\<close>

lemma put_loop_induct [consumes 1, case_names stop again]:
  assumes "put_loop c r sz k sha idx w = Some y"
    and "\<And>idx w w1 res y. putHelper c r idx sz k sha w = (res, w1) \<Longrightarrow> snd y = w1 \<Longrightarrow>
      \<not> returns res \<or> (\<exists>e. res = Err e \<and> errors_Is e Io_EOF) \<Longrightarrow> P w y"
    and "\<And>idx w w1 res y. putHelper c r idx sz k sha w = (res, w1) \<Longrightarrow> returns res \<Longrightarrow>
      (\<And>e. res = Err e \<Longrightarrow> \<not> errors_Is e Io_EOF) \<Longrightarrow> P w1 y \<Longrightarrow> P w y"
  shows "P w y"
proof -
  let ?Q = "\<lambda>c' r' sz' k' sha' idx' w' y'. (c', r', sz', k', sha') = (c, r, sz, k, sha) \<longrightarrow> P w' y'"
  have "?Q c r sz k sha idx w y"
  proof (rule put_loop.raw_induct [where P = ?Q, OF _ assms(1)])
    fix loop c' r' sz' k' sha' idx' w' y'
    assume IH: "\<And>c r sz k sha idx w y. loop c r sz k sha idx w = Some y \<Longrightarrow> ?Q c r sz k sha idx w y"
      and body: "(case putHelper c' r' idx' sz' k' sha' w' of
          (Ok x, w1) \<Rightarrow> loop c' r' sz' k' sha' (int32 (idx' + 1)) w1
        | (Err e, w1) \<Rightarrow> if errors_Is e Io_EOF then Some (Ok (), w1)
            else loop c' r' sz' k' sha' (int32 (idx' + 1)) w1
        | (Panic p, w1) \<Rightarrow> Some (Panic p, w1)
        | (Hang, w1) \<Rightarrow> Some (Hang, w1)) = Some y'"
    show "?Q c' r' sz' k' sha' idx' w' y'"
    proof
      assume eq: "(c', r', sz', k', sha') = (c, r, sz, k, sha)"
      obtain res w1 where h: "putHelper c r idx' sz k sha w' = (res, w1)" by (cases "putHelper c r idx' sz k sha w'")
      show "P w' y'"
      proof (cases "\<not> returns res \<or> (\<exists>e. res = Err e \<and> errors_Is e Io_EOF)")
        case True
        then show ?thesis using assms(2) [OF h, of y'] body h eq by (cases res) auto
      next
        case False
        then have "loop c r sz k sha (int32 (idx' + 1)) w1 = Some y'" using body h eq by (cases res) auto
        then have "P w1 y'" using IH by blast
        then show ?thesis using assms(3) [OF h] False by blast
      qed
    qed
  qed
  then show ?thesis by simp
qed

lemma put_loop_invariant:
  assumes "put_loop c r sz k sha idx w = Some y" and "I w"
    and keep: "\<And>idx. keeps I (putHelper c r idx sz k sha)"
  shows "I (snd y)"
  using assms(1,2)
  by (induction rule: put_loop_induct) (metis keep keepsD snd_conv)+

text \<open>With chunk size zero a reader that still has data never reaches its end.\<close>

lemma put_loop_zero_hangs:
  assumes "readers w r \<noteq> []"
  shows "put_loop c r 0 k sha idx w = None"
proof (rule ccontr)
  assume "put_loop c r 0 k sha idx w \<noteq> None"
  then obtain y where "put_loop c r 0 k sha idx w = Some y" by auto
  then have "readers w r = []"
  proof (induction rule: put_loop_induct)
    case (stop idx w w1 res y)
    then show ?case
      using putHelper_not_EOF [of w r c idx 0 k sha] putHelper_returns [of 0 c r idx k sha w] by force
  next
    case (again idx w w1 res y)
    then show ?case using putHelper_readers [of c r idx 0 k sha w] by simp
  qed
  with assms show False by simp
qed

section \<open>What \<open>Put\<close> does to the tables\<close>

lemma tables_inv_readers: "tables_inv J (w\<lparr>readers := f\<rparr>) = tables_inv J w"
  by (simp add: tables_inv_def)

text \<open>The statements a \<open>Put\<close> for object \<open>k\<close> runs in its transaction.\<close>

definition chunk_stmts_preserve :: "(tables \<Rightarrow> bool) \<Rightarrow> uuid \<Rightarrow> bool" where
  "chunk_stmts_preserve J k \<longleftrightarrow> (\<forall>bs. stmt_preserves J (sql_InsertBlob k bs)) \<and>
     (\<forall>b idx sz. stmt_preserves J (sql_PutManifest k b idx sz))"

lemma putHelper_inv:
  assumes "chunk_stmts_preserve J k"
  shows "keeps (tables_inv J) (putHelper c r idx sz k sha)"
proof (rule keepsI)
  fix w assume w: "tables_inv J w"
  let ?store = "\<lambda>bs. call (tx_exec c (sql_InsertBlob k bs)) (wrapping ''InsertBlob'') (\<lambda>blobID.
      call (tx_exec c (sql_PutManifest k blobID idx sz)) (wrapping ''PutManifest'') ret)"
  have "keeps (tables_inv J) (?store bs)" for bs
    using assms unfolding chunk_stmts_preserve_def
    by (intro keeps_call keeps_wrapping keeps_ret tx_exec_inv) auto
  then have "tables_inv J v \<Longrightarrow> tables_inv J (snd (?store bs v))" for bs v by (rule keepsD)
  then show "tables_inv J (snd (putHelper c r idx sz k sha w))"
    using w by (simp add: putHelper_def reader_Read_def tables_inv_readers)
qed

lemma looping_inv:
  assumes "\<And>idx. keeps I (putHelper c r idx sz k sha)"
  shows "keeps I (looping (put_loop c r sz k sha idx))"
proof (rule keepsI)
  fix w assume "I w"
  then show "I (snd (looping (put_loop c r sz k sha idx) w))"
    using put_loop_invariant [OF _ _ assms, of idx w]
    by (cases "put_loop c r sz k sha idx w") (auto simp: looping_def)
qed

lemma put_tx_inv:
  assumes "\<And>k. uuid_Parse U (ID meta) = Some k \<Longrightarrow> chunk_stmts_preserve J k"
  shows "keeps (tables_inv J) (put_tx U c meta r sz sha)"
proof (cases "uuid_Parse U (ID meta)")
  case None
  then show ?thesis by (simp add: keeps_def put_tx_def call_def [of "pure_call _"] comp_simps ToPgUUID_def)
next
  case (Some k)
  have "keeps (tables_inv J) (call (looping (put_loop c r sz k sha 0)) fail (\<lambda>_.
        call (tx_Commit c) (wrapping ''commit'') (\<lambda>_. ret (uuid_String U k))))"
    using assms [OF Some]
    by (intro keeps_call keeps_fail keeps_wrapping keeps_ret tx_Commit_inv looping_inv putHelper_inv)
  then show ?thesis
    using Some by (simp add: put_tx_def keeps_def call_def [of "pure_call _"] comp_simps ToPgUUID_def)
qed

text \<open>An attempt starts from a copy of the database and leaves no transaction open.\<close>

lemma putLogic_cases:
  obtains w1 r' w2 where "pool_Begin c w = (Ok (), w1)" and "db w1 = db w"
    and "open_tx w1 = Some \<lparr>tx_tables = db w, tx_status = Tx_Active\<rparr>" and "readers w1 = readers w"
    and "put_tx U c meta r sz sha w1 = (r', w2)" and "putLogic U c meta r sz sha w = (r', tx_Rollback w2)"
  | e w1 where "putLogic U c meta r sz sha w = (Err e, w1)" and "db w1 = db w" and "open_tx w1 = open_tx w"
    and "readers w1 = readers w"
proof (cases rule: pool_Begin_cases [of c w])
  case (1 w1)
  obtain r' w2 where "put_tx U c meta r sz sha w1 = (r', w2)" by (cases "put_tx U c meta r sz sha w1")
  with 1 show thesis by (intro that(1)) (simp_all add: putLogic_def call_def deferring_def)
next
  case (2 e w1)
  then have "putLogic U c meta r sz sha w = (Err (Wrap ''failed to start TX'' e), w1)"
    by (simp add: putLogic_def call_def comp_simps)
  with 2 show thesis by (intro that(2))
qed

lemma putLogic_db:
  assumes "\<And>k. uuid_Parse U (ID meta) = Some k \<Longrightarrow> chunk_stmts_preserve J k" and "J (db w)"
  shows "J (db (snd (putLogic U c meta r sz sha w)))"
proof (cases rule: putLogic_cases [of c w U meta r sz sha])
  case (1 w1 r' w2)
  have "tables_inv J w1" using 1 assms(2) by (simp add: tables_inv_def)
  then have "tables_inv J w2" using keepsD [OF put_tx_inv [of U meta J c r sz sha, OF assms(1)], of w1] 1 by simp
  then show ?thesis using 1 by (simp add: tables_inv_def tx_Rollback_def)
qed (use assms(2) in simp)

lemma putLogic_inv:
  assumes "\<And>k. uuid_Parse U (ID meta) = Some k \<Longrightarrow> chunk_stmts_preserve J k"
  shows "keeps (tables_inv J) (putLogic U c meta r sz sha)"
proof (rule keepsI)
  fix w assume w: "tables_inv J w"
  then have "J (db (snd (putLogic U c meta r sz sha w)))"
    using putLogic_db [OF assms] by (simp add: tables_inv_def)
  then show "tables_inv J (snd (putLogic U c meta r sz sha w))"
    using w by (cases rule: putLogic_cases [of c w U meta r sz sha]) (simp_all add: tables_inv_def tx_Rollback_def)
qed

lemma Put_db:
  assumes "\<And>k. uuid_Parse U (ID meta) = Some k \<Longrightarrow> chunk_stmts_preserve J k"
  shows "keeps (\<lambda>w. J (db w)) (SealedRepo_Put U c meta r sz sha)"
  unfolding SealedRepo_Put_def
  by (intro keeps_call keeps_fail keeps_ret WithRetry_keeps keepsI putLogic_db [OF assms]) simp_all

lemma chunk_stmts_wf: "chunk_stmts_preserve wf_tables k"
  by (simp add: chunk_stmts_preserve_def stmt_keeps)

lemma Put_wf: "keeps wf_world (SealedRepo_Put U c meta r sz sha)"
  unfolding SealedRepo_Put_def wf_world_inv
  by (intro keeps_call keeps_fail keeps_ret WithRetry_keeps putLogic_inv chunk_stmts_wf)
     (simp add: tables_inv_def time_Sleep_def)

text \<open>\<open>Put\<close> touches the blobs and the manifest only.\<close>

definition other_tables :: "tables \<Rightarrow> tables" where
  "other_tables t = t\<lparr>secret_blobs := [], chunk_manifest := []\<rparr>"

lemma chunk_stmts_other: "chunk_stmts_preserve (\<lambda>t. other_tables t = x) k"
  by (auto simp: chunk_stmts_preserve_def stmt_preserves_def sql_InsertBlob_def sql_PutManifest_def other_tables_def)

lemma Put_frames: "frames (\<lambda>w. other_tables (db w)) (SealedRepo_Put U c meta r sz sha)"
  unfolding frames_def by (intro allI Put_db chunk_stmts_other)

lemma catalog_other: "other_tables t = other_tables t' \<Longrightarrow> catalog_of U t = catalog_of U t'"
  by (cases t; cases t')
     (simp add: other_tables_def catalog_of_def row_entry_def [abs_def] join_type_def data_type_name_def)

lemma total_tx [total_rules]: "total (pool_Begin c)" "total (tx_Commit c)"
proof -
  show "total (pool_Begin c)"
    unfolding pool_Begin_def by (intro total_rules) (simp add: total_def)
  show "total (tx_Commit c)"
    by (rule totalI) (auto simp: tx_Commit_def Let_def split: option.split net_event.split)
qed

lemma total_deferring [total_rules]: "total m \<Longrightarrow> total (deferring f m)"
  by (auto simp: total_def deferring_def split: prod.split) (metis fst_conv)

lemma total_put_loop: "0 < sz \<Longrightarrow> sz < 2 ^ 31 \<Longrightarrow> total (looping (put_loop c r sz k sha idx))"
proof (rule totalI)
  fix w assume "0 < sz" "sz < 2 ^ 31"
  then obtain w' where "put_loop c r sz k sha idx w = Some (Ok (), w')"
    using put_loop_terminates by blast
  then show "returns (fst (looping (put_loop c r sz k sha idx) w))" by (simp add: looping_def)
qed

lemma putLogic_total: "0 < sz \<Longrightarrow> sz < 2 ^ 31 \<Longrightarrow> total (putLogic U c meta r sz sha)"
  unfolding putLogic_def put_tx_def by (intro total_rules total_put_loop)

lemma Put_total: "0 < sz \<Longrightarrow> sz < 2 ^ 31 \<Longrightarrow> total (SealedRepo_Put U c meta r sz sha)"
  unfolding SealedRepo_Put_def by (intro total_rules putLogic_total)

text \<open>Without its row in \<open>objects\<close> an object cannot have chunks.\<close>

lemma chunk_stmts_missing:
  assumes "wf_tables t" and "k \<notin> o_id ` set (objects t)"
  shows "chunk_stmts_preserve (\<lambda>t'. t' = t) k"
proof -
  have "b_objects_id b \<noteq> k" if "b \<in> set (secret_blobs t)" for b
    using assms that by (auto simp: wf_tables_def refs_ok_def)
  then show ?thesis
    using assms(2)
    by (auto simp: chunk_stmts_preserve_def stmt_preserves_def sql_InsertBlob_def sql_PutManifest_def list_ex_iff)
qed

section \<open>Reading and deleting\<close>

definition object_chunks :: "tables \<Rightarrow> ObjectLocator \<Rightarrow> (bytes \<times> int) list" where
  "object_chunks t loc =
     (case filter (\<lambda>r. o_storage_locator r = loc) (objects t) of
        [r] \<Rightarrow> chunks_of t (o_id r) | _ \<Rightarrow> [])"

definition object_data :: "tables \<Rightarrow> ObjectLocator \<Rightarrow> bytes" where
  "object_data t loc = concat (map fst (object_chunks t loc))"

lemma SealedRepo_Get_eq: "SealedRepo_Get c loc w = (Ok (get_pipe c loc), w)"
  by (simp add: SealedRepo_Get_def WithRetry_Ok ret_simp)

lemma pipe_rows_Ok:
  "pipe_rows rows = Ok bs \<longleftrightarrow> list_all (\<lambda>(s, n). int (length s) = n) rows \<and> bs = concat (map fst rows)"
  by (induction rows arbitrary: bs rule: pipe_rows.induct) (auto simp: rcall_Ok_iff)

lemma pipe_rows_returns: "returns (pipe_rows rows)"
proof (induction rows rule: pipe_rows.induct)
  case (2 sealed len rows)
  then show ?case by (cases "pipe_rows rows") auto
qed simp

lemma sql_getQuery_Ok: "fst (sql_getQuery loc fresh at t) = Ok rows \<Longrightarrow> rows = object_chunks t loc"
  by (auto simp: sql_getQuery_def object_chunks_def split: list.splits)

lemma sql_getQuery_id: "snd (sql_getQuery loc fresh at t) = t"
  by (simp add: sql_getQuery_def split: list.split)

lemma ReadAll_frames: "frames db (rc_ReadAll (get_pipe c loc))"
  unfolding get_pipe_def ReadCloser.select_convs
  by (intro frames_rules pool_exec_db [where f = "\<lambda>t. t"]) (simp_all add: sql_getQuery_id frames_simple)

lemma ReadAll_stream: "frames stream_state (rc_ReadAll (get_pipe c loc))"
  unfolding get_pipe_def ReadCloser.select_convs by (intro frames_rules pool_exec_stream)

lemma ReadAll_wf: "keeps wf_world (rc_ReadAll (get_pipe c loc))"
  unfolding get_pipe_def ReadCloser.select_convs by (intro keeps_rules stmt_keeps)

lemma ReadAll_total: "total (rc_ReadAll (get_pipe c loc))"
  unfolding get_pipe_def ReadCloser.select_convs by (intro total_rules pipe_rows_returns)

lemma ReadAll_Ok:
  assumes "rc_ReadAll (get_pipe c loc) w = (Ok bs, w')"
  shows "bs = object_data (db w) loc" and "list_all (\<lambda>(s, n). int (length s) = n) (object_chunks (db w) loc)"
proof -
  from assms obtain rows where "pool_exec c (sql_getQuery loc) w = (Ok rows, w')" and p: "pipe_rows rows = Ok bs"
    unfolding get_pipe_def by (auto elim!: call_OkE simp: comp_simps)
  then have "rows = object_chunks (db w) loc" by (auto elim: pool_exec_OkE dest: sql_getQuery_Ok)
  with p show "bs = object_data (db w) loc" "list_all (\<lambda>(s, n). int (length s) = n) (object_chunks (db w) loc)"
    by (simp_all add: pipe_rows_Ok object_data_def)
qed

lemma ReadAll_live:
  assumes "reliable c w" and "length (filter (\<lambda>r. o_storage_locator r = loc) (objects (db w))) \<le> 1"
    and "list_all (\<lambda>(s, n). int (length s) = n) (object_chunks (db w) loc)"
  shows "\<exists>w'. rc_ReadAll (get_pipe c loc) w = (Ok (object_data (db w) loc), w')"
proof -
  have "fst (sql_getQuery loc fresh at (db w)) = Ok (object_chunks (db w) loc)" for fresh at
    using assms(2) by (auto simp: sql_getQuery_def object_chunks_def split: list.splits)
  then have "\<exists>w'. pool_exec c (sql_getQuery loc) w = (Ok (object_chunks (db w) loc), w')"
    using assms(1) by (auto simp: reliable_def pool_exec_reliable run_stmt_def split: prod.split) (metis fst_conv)
  then show ?thesis
    using assms(3) by (auto simp: get_pipe_def call_def comp_simps pipe_rows_Ok object_data_def)
qed

lemma Delete_object_fails: "\<not> is_Ok (fst (SealedRepo_Delete c loc w))"
proof -
  have "\<not> is_Ok (fst (pool_exec c (sql_DeleteObject loc) v))" for v
    by (simp add: pool_exec_def run_stmt_def sql_DeleteObject_def split: option.split net_event.split)
  then show ?thesis
    unfolding SealedRepo_Delete_def call_fail_ret
    by (intro WithRetry_never_Ok call_not_Ok wrapping_not_Ok)
qed

lemma Delete_object_frames: "frames db (SealedRepo_Delete c loc)"
  unfolding SealedRepo_Delete_def call_fail_ret
  by (intro WithRetry_frames frames_rules pool_exec_db [where f = "\<lambda>t. t"]) (simp_all add: sql_DeleteObject_def)

lemma Delete_object_wf: "keeps wf_world (SealedRepo_Delete c loc)"
  unfolding SealedRepo_Delete_def by (intro keeps_rules stmt_keeps)

lemma Delete_object_total: "total (SealedRepo_Delete c loc)"
  unfolding SealedRepo_Delete_def by (intro total_rules)

section \<open>The interface\<close>

text \<open>
  What the keeper service may rely on.  \<open>data w loc\<close> is the content stored under a
  locator; \<open>Put\<close>, \<open>Get\<close> and \<open>Delete\<close> leave the other tables alone.
\<close>

locale object_repo =
  fixes R :: ObjectRepo
    and data :: "world \<Rightarrow> ObjectLocator \<Rightarrow> bytes"
  assumes data_db: "db v = db w \<Longrightarrow> data v loc = data w loc"
    and put_frames: "frames (\<lambda>w. other_tables (db w)) (or_Put R c m r sz sha)"
    and put_keeps: "keeps wf_world (or_Put R c m r sz sha)"
    and put_total: "0 < sz \<Longrightarrow> sz < 2 ^ 31 \<Longrightarrow> total (or_Put R c m r sz sha)"
    and put_locator: "or_Put R c m r sz sha w = (Ok loc, w') \<Longrightarrow> strings_HasPrefix loc ''pg''"
    and get_frames: "frames db (or_Get R c loc)"
    and get_keeps: "keeps wf_world (or_Get R c loc)"
    and read_Ok: "or_Get R c loc w = (Ok rc, w1) \<Longrightarrow> rc_ReadAll rc w1 = (Ok bs, w2) \<Longrightarrow> bs = data w1 loc"
    and read_frames: "or_Get R c loc w = (Ok rc, w1) \<Longrightarrow> frames db (rc_ReadAll rc)"
    and get_stream: "frames stream_state (or_Get R c loc)"
    and read_stream: "or_Get R c loc w = (Ok rc, w1) \<Longrightarrow> frames stream_state (rc_ReadAll rc)"
    and read_keeps: "or_Get R c loc w = (Ok rc, w1) \<Longrightarrow> keeps wf_world (rc_ReadAll rc)"
    and read_total: "or_Get R c loc w = (Ok rc, w1) \<Longrightarrow> total (rc_ReadAll rc)"
    and delete_frames: "frames (\<lambda>w. other_tables (db w)) (or_Delete R c loc)"
    and delete_keeps: "keeps wf_world (or_Delete R c loc)"

lemma frames_weaken: "frames f m \<Longrightarrow> frames (\<lambda>w. g (f w)) m"
  by (simp add: frames_def keeps_def)

interpretation pg_objects: object_repo "NewObjectRepository U" "\<lambda>w. object_data (db w)" for U
proof (unfold_locales, unfold NewObjectRepository_def ObjectRepo.select_convs)
  show "strings_HasPrefix loc ''pg''" if "SealedRepo_Put U c m r sz sha w = (Ok loc, w')" for c m r sz sha w loc w'
    using that unfolding SealedRepo_Put_def by (elim call_OkE) (auto simp: comp_simps strings_HasPrefix_def)
  show "frames db (SealedRepo_Get c loc)" and "keeps wf_world (SealedRepo_Get c loc)"
    and "frames stream_state (SealedRepo_Get c loc)" for c loc
    by (simp_all add: frames_def keeps_def SealedRepo_Get_eq)
  show "frames (\<lambda>w. other_tables (db w)) (SealedRepo_Delete c loc)" for c loc
    by (rule frames_weaken [OF Delete_object_frames])
qed (auto simp: SealedRepo_Get_eq Put_frames Put_wf Put_total Delete_object_wf ReadAll_frames ReadAll_wf ReadAll_total
    ReadAll_stream
    dest: ReadAll_Ok(1))

section \<open>A quiet network\<close>

lemma after_event_quiet: "net w = [] \<Longrightarrow> after_event w = w"
  by (cases w) (simp add: after_event_def next_event_def)

lemma pool_Begin_reliable:
  assumes "reliable c w"
  shows "pool_Begin c w = (Ok (), w\<lparr>uuid_pos := Suc (uuid_pos w),
    open_tx := Some \<lparr>tx_tables = db w, tx_status = Tx_Active\<rparr>\<rparr>)"
  using assms by (simp add: reliable_def pool_Begin_def call_def pool_exec_reliable run_stmt_def sql_Begin_def)

lemma tx_exec_reliable:
  assumes "reliable c w" and "open_tx w = Some \<lparr>tx_tables = t, tx_status = Tx_Active\<rparr>"
    and "fst (st (uuid_src w (uuid_pos w)) (now w) t) = Ok v"
  shows "tx_exec c st w = (Ok v, w\<lparr>uuid_pos := Suc (uuid_pos w), open_tx :=
    Some \<lparr>tx_tables = snd (st (uuid_src w (uuid_pos w)) (now w) t), tx_status = Tx_Active\<rparr>\<rparr>)"
proof -
  have "tx_exec c st w = run_in_tx \<lparr>tx_tables = t, tx_status = Tx_Active\<rparr> st w"
    using assms(1,2) unfolding tx_exec_def
    by (simp add: reliable_def next_event_def after_event_quiet del: after_event_simps)
  then show ?thesis
    using assms(3) by (cases "st (uuid_src w (uuid_pos w)) (now w) t") (simp add: run_in_tx_def Let_def)
qed

lemma tx_Commit_reliable:
  assumes "reliable c w" and "open_tx w = Some \<lparr>tx_tables = t, tx_status = Tx_Active\<rparr>"
  shows "tx_Commit c w = (Ok (), w\<lparr>open_tx := None, db := t\<rparr>)"
proof -
  have "after_event (w\<lparr>open_tx := None\<rparr>) = w\<lparr>open_tx := None\<rparr>"
    using assms(1) by (intro after_event_quiet) (simp add: reliable_def)
  then show ?thesis
    using assms by (simp add: tx_Commit_def reliable_def next_event_def commit_tables_def Let_def del: after_event_simps)
qed

lemma reliable_updates [simp]:
  "reliable c (w\<lparr>open_tx := x\<rparr>) = reliable c w" "reliable c (w\<lparr>uuid_pos := n\<rparr>) = reliable c w"
  "reliable c (w\<lparr>db := t\<rparr>) = reliable c w" "reliable c (w\<lparr>readers := f\<rparr>) = reliable c w"
  by (simp_all add: reliable_def)

text \<open>An attempt whose reader is at its end commits an empty transaction.\<close>

lemma putLogic_exhausted:
  assumes "reliable c w" and "readers w r = []" and "0 \<le> sz" "sz < 2 ^ 31" and "uuid_Parse U (ID meta) = Some k"
  shows "putLogic U c meta r sz sha w =
    (Ok (uuid_String U k), w\<lparr>uuid_pos := Suc (uuid_pos w), open_tx := None\<rparr>)"
proof -
  let ?w1 = "w\<lparr>uuid_pos := Suc (uuid_pos w), open_tx := Some \<lparr>tx_tables = db w, tx_status = Tx_Active\<rparr>\<rparr>"
  have "put_loop c r sz k sha 0 ?w1 = Some (Ok (), ?w1)"
    using assms(2-4) by (subst put_loop.simps) (simp add: putHelper_EOF)
  moreover have "tx_Commit c ?w1 = (Ok (), w\<lparr>uuid_pos := Suc (uuid_pos w), open_tx := None\<rparr>)"
    using assms(1) by (cases w, subst tx_Commit_reliable) (simp_all add: reliable_def)
  ultimately show ?thesis
    using assms(5) pool_Begin_reliable [OF assms(1)]
    by (simp add: putLogic_def put_tx_def call_def comp_simps deferring_def looping_def ToPgUUID_def tx_Rollback_def)
qed

text \<open>The tables after one chunk was stored for object \<open>k\<close>.\<close>

definition with_chunk :: "uuid \<Rightarrow> uuid \<Rightarrow> bytes \<Rightarrow> tables \<Rightarrow> tables" where
  "with_chunk k b bs t = t\<lparr>
     secret_blobs := secret_blobs t @ [\<lparr>b_id = b, b_objects_id = k, b_sealed = bs\<rparr>],
     chunk_manifest := chunk_manifest t @
       [\<lparr>m_objects_id = k, m_blob_id = b, m_chunk_index = 0, m_length = int (length bs)\<rparr>]\<rparr>"

text \<open>Object \<open>k\<close> exists and has no chunks yet, and \<open>b\<close> is a free blob id.\<close>

definition ready_for :: "uuid \<Rightarrow> uuid \<Rightarrow> tables \<Rightarrow> bool" where
  "ready_for k b t \<longleftrightarrow> wf_tables t \<and> k \<in> o_id ` set (objects t) \<and>
     k \<notin> m_objects_id ` set (chunk_manifest t) \<and> b \<notin> b_id ` set (secret_blobs t)"

lemma ready_manifest:
  assumes "ready_for k b t" and "m \<in> set (chunk_manifest t)"
  shows "m_objects_id m \<noteq> k" and "m_blob_id m \<noteq> b"
proof -
  show "m_objects_id m \<noteq> k" using assms unfolding ready_for_def by blast
  have "(m_blob_id m, m_objects_id m) \<in> (\<lambda>b. (b_id b, b_objects_id b)) ` set (secret_blobs t)"
    using assms unfolding ready_for_def wf_tables_def refs_ok_def by (auto simp: image_subset_iff)
  then show "m_blob_id m \<noteq> b" using assms(1) by (auto simp: ready_for_def)
qed

lemma put_one_chunk:
  assumes "reliable c w" and "open_tx w = Some \<lparr>tx_tables = t, tx_status = Tx_Active\<rparr>"
    and "readers w r = bs" "bs \<noteq> []" "length bs < 2 ^ 31" and "ready_for k (uuid_src w (uuid_pos w)) t"
  shows "putHelper c r 0 (int (length bs)) k (GenerateSHA256 bs) w =
    (Ok (), w\<lparr>readers := (readers w)(r := []), uuid_pos := Suc (Suc (uuid_pos w)),
      open_tx := Some \<lparr>tx_tables = with_chunk k (uuid_src w (uuid_pos w)) bs t, tx_status = Tx_Active\<rparr>\<rparr>)"
proof -
  let ?b = "uuid_src w (uuid_pos w)"
  let ?t = "t\<lparr>secret_blobs := secret_blobs t @ [\<lparr>b_id = ?b, b_objects_id = k, b_sealed = bs\<rparr>]\<rparr>"
  let ?w1 = "w\<lparr>readers := (readers w)(r := [])\<rparr>"
  let ?w2 = "?w1\<lparr>uuid_pos := Suc (uuid_pos w), open_tx := Some \<lparr>tx_tables = ?t, tx_status = Tx_Active\<rparr>\<rparr>"
  have blob: "sql_InsertBlob k bs ?b at t = (Ok ?b, ?t)" for at
    using assms(6) by (simp add: sql_InsertBlob_def ready_for_def)
  have manifest: "sql_PutManifest k ?b 0 (int (length bs)) fresh at ?t = (Ok (), with_chunk k ?b bs t)" for fresh at
    using assms(4) ready_manifest [OF assms(6)]
    by (auto simp: sql_PutManifest_def with_chunk_def list_ex_iff)
  have "tx_exec c (sql_InsertBlob k bs) ?w1 = (Ok ?b, ?w2)"
    using assms(1,2) by (subst tx_exec_reliable [where v = ?b and t = t]) (simp_all add: blob)
  moreover have "tx_exec c (sql_PutManifest k ?b 0 (int (length bs))) ?w2 = (Ok (), ?w2\<lparr>uuid_pos := Suc (Suc (uuid_pos w)),
      open_tx := Some \<lparr>tx_tables = with_chunk k ?b bs t, tx_status = Tx_Active\<rparr>\<rparr>)"
    using assms(1) by (subst tx_exec_reliable [where v = "()" and t = ?t]) (simp_all add: manifest)
  ultimately show ?thesis
    using assms(3-5) by (simp add: putHelper_def reader_Read_def int32_id call_def comp_simps)
qed

lemma putLogic_one_chunk:
  assumes "reliable c w" and "readers w r = bs" "bs \<noteq> []" "length bs < 2 ^ 31"
    and "uuid_Parse U (ID meta) = Some k" and "ready_for k (uuid_src w (Suc (uuid_pos w))) (db w)"
  obtains w' where "putLogic U c meta r (int (length bs)) (GenerateSHA256 bs) w = (Ok (uuid_String U k), w')"
    and "db w' = with_chunk k (uuid_src w (Suc (uuid_pos w))) bs (db w)"
proof -
  let ?b = "uuid_src w (Suc (uuid_pos w))" and ?sz = "int (length bs)" and ?sha = "GenerateSHA256 bs"
  let ?w1 = "w\<lparr>uuid_pos := Suc (uuid_pos w), open_tx := Some \<lparr>tx_tables = db w, tx_status = Tx_Active\<rparr>\<rparr>"
  let ?w2 = "?w1\<lparr>readers := (readers w)(r := []), uuid_pos := Suc (Suc (Suc (uuid_pos w))),
    open_tx := Some \<lparr>tx_tables = with_chunk k ?b bs (db w), tx_status = Tx_Active\<rparr>\<rparr>"
  have "putHelper c r 0 ?sz k ?sha ?w1 = (Ok (), ?w2)"
    using assms by (subst put_one_chunk [where t = "db w"]) simp_all
  then have "put_loop c r ?sz k ?sha 0 ?w1 = put_loop c r ?sz k ?sha 1 ?w2"
    by (subst put_loop.simps) (simp add: int32_id)
  also have "\<dots> = Some (Ok (), ?w2)"
    using assms(4) by (subst put_loop.simps) (simp add: putHelper_EOF)
  finally have loop: "put_loop c r ?sz k ?sha 0 ?w1 = Some (Ok (), ?w2)" .
  have "tx_Commit c ?w2 = (Ok (), ?w2\<lparr>open_tx := None, db := with_chunk k ?b bs (db w)\<rparr>)"
    using assms(1) by (intro tx_Commit_reliable) simp_all
  then have "putLogic U c meta r ?sz ?sha w =
      (Ok (uuid_String U k), ?w2\<lparr>open_tx := None, db := with_chunk k ?b bs (db w)\<rparr>)"
    using loop assms(5) pool_Begin_reliable [OF assms(1)]
    by (simp add: putLogic_def put_tx_def call_def comp_simps deferring_def looping_def
        ToPgUUID_def tx_Rollback_def)
  then show thesis by (rule that) simp
qed

lemma with_chunk_chunks:
  assumes "ready_for k b t"
  shows "chunks_of (with_chunk k b bs t) k = [(bs, int (length bs))]"
proof -
  have "filter (\<lambda>m. m_objects_id m = k) (chunk_manifest t) = []"
    using ready_manifest(1) [OF assms] by (simp add: filter_empty_conv)
  moreover have "filter (\<lambda>x. b_id x = b) (secret_blobs t) = []"
    using assms by (auto simp: ready_for_def filter_empty_conv)
  ultimately show ?thesis by (simp add: chunks_of_def with_chunk_def)
qed

section \<open>Properties\<close>

text \<open>\<open>Put\<close> always returns, with a locator or an error, when the chunk size is
  positive: every turn of its loop consumes data, whatever the network does.\<close>

theorem sealed_put_returns:
  assumes "0 < sz" and "sz < 2 ^ 31"
  shows "returns (fst (SealedRepo_Put U c meta r sz sha w))"
  using totalD [OF Put_total [OF assms]] .

theorem sealed_put_returns_witness:
  "returns (fst (SealedRepo_Put demo_uuid context_Background demo_card 0 4 [] (demo_world [])))"
  by (rule sealed_put_returns) simp_all

text \<open>C32: With size zero, documented as "unknown", \<open>Put\<close> never returns when the reader has
  data: the loop reads empty chunks forever.\<close>

theorem sealed_put_zero_hangs:
  assumes "reliable c w" and "readers w r \<noteq> []" and "uuid_Parse U (ID meta) = Some k"
  shows "fst (SealedRepo_Put U c meta r 0 sha w) = Hang"
proof -
  let ?w1 = "w\<lparr>uuid_pos := Suc (uuid_pos w), open_tx := Some \<lparr>tx_tables = db w, tx_status = Tx_Active\<rparr>\<rparr>"
  have "put_loop c r 0 k sha 0 ?w1 = None" using assms(2) by (intro put_loop_zero_hangs) simp
  then have "fst (putLogic U c meta r 0 sha w) = Hang"
    using assms(3) pool_Begin_reliable [OF assms(1)]
    by (simp add: putLogic_def put_tx_def call_def comp_simps deferring_def looping_def ToPgUUID_def)
  then obtain v where "putLogic U c meta r 0 sha w = (Hang, v)" by (metis prod.collapse)
  then show ?thesis by (simp add: SealedRepo_Put_def WithRetry_Hang call_def)
qed

definition demo_reader_world :: "(nat \<times> net_event) list \<Rightarrow> world" where
  "demo_reader_world events = demo_object_world\<lparr>readers := (\<lambda>_. [1, 2]), net := events\<rparr>"

lemma demo_uuid_7: "uuid_Parse demo_uuid ''7'' = Some 7"
  by (simp add: demo_uuid_def parse_nat_def is_digit_def digits_val_def digit_val_def)

lemma demo_reader_simps [simp]:
  "readers (demo_reader_world events) = (\<lambda>_. [1, 2])" "net (demo_reader_world events) = events"
  "uuid_pos (demo_reader_world events) = 5" "uuid_src (demo_reader_world events) = of_nat"
  "now (demo_reader_world events) = 0" "db (demo_reader_world events) = db demo_object_world"
  by (simp_all add: demo_reader_world_def demo_object_world_def demo_catalog_world_def demo_user_world_def
      demo_world_def)

theorem sealed_put_zero_hangs_witness:
  "fst (SealedRepo_Put demo_uuid context_Background demo_card 0 0 [] (demo_reader_world [])) = Hang"
  by (rule sealed_put_zero_hangs [where k = 7]) (simp_all add: reliable_def demo_card_def demo_uuid_7)

text \<open>C3: What \<open>Put\<close> stores for an existing object that has no chunks yet is what
  \<open>Get\<close> reads back under the object's locator, byte for byte, as long as the tables stay
  the same.\<close>

theorem sealed_roundtrip:
  assumes "reliable c w" and "readers w r = bs" "bs \<noteq> []" "length bs < 2 ^ 31"
    and "uuid_Parse U (ID meta) = Some k" and "ready_for k (uuid_src w (Suc (uuid_pos w))) (db w)"
    and "filter (\<lambda>x. o_storage_locator x = loc) (objects (db w)) = [row]" and "o_id row = k"
  shows "\<exists>w'. SealedRepo_Put U c meta r (int (length bs)) (GenerateSHA256 bs) w = (Ok (''pg://'' @ uuid_String U k), w') \<and>
    (\<forall>c' v. db v = db w' \<and> reliable c' v \<longrightarrow>
      (\<exists>rc v'. SealedRepo_Get c' loc v = (Ok rc, v) \<and> rc_ReadAll rc v = (Ok bs, v')))"
proof -
  from assms(1-6) obtain w' where put: "putLogic U c meta r (int (length bs)) (GenerateSHA256 bs) w = (Ok (uuid_String U k), w')"
    and w': "db w' = with_chunk k (uuid_src w (Suc (uuid_pos w))) bs (db w)"
    by (rule putLogic_one_chunk)
  have chunks: "object_chunks (db w') loc = [(bs, int (length bs))]"
    using with_chunk_chunks [OF assms(6), of bs] assms(7,8)
    by (simp add: object_chunks_def w') (simp add: with_chunk_def)
  have "SealedRepo_Put U c meta r (int (length bs)) (GenerateSHA256 bs) w = (Ok (''pg://'' @ uuid_String U k), w')"
    using put by (simp add: SealedRepo_Put_def WithRetry_Ok call_def comp_simps)
  moreover have "\<exists>v'. rc_ReadAll (get_pipe c' loc) v = (Ok bs, v')" if v: "db v = db w'" "reliable c' v" for c' v
  proof -
    have "length (filter (\<lambda>x. o_storage_locator x = loc) (objects (db v))) \<le> 1"
      using assms(7) by (simp add: v(1) w' with_chunk_def)
    with ReadAll_live [OF v(2), of loc] show ?thesis
      by (simp add: v(1) chunks object_data_def)
  qed
  ultimately show ?thesis by (auto simp: SealedRepo_Get_eq)
qed

lemma demo_ready: "ready_for 1 6 (db demo_object_world)"
  using wf_demo_object_world
  by (simp add: ready_for_def wf_world_def demo_object_world_def demo_user_world_def demo_world_def migrated_def)

lemma demo_object_rows: "filter (\<lambda>x. o_storage_locator x = ''pg://7'') (objects (db demo_object_world)) =
    [\<lparr>o_id = 1, o_user_id = 1, o_id_data_type = 2, o_name = ''n'', o_description = None,
       o_storage_locator = ''pg://7'', o_created_at = 0\<rparr>]"
  by (simp add: demo_object_world_def)

theorem sealed_roundtrip_witness:
  "\<exists>w'. SealedRepo_Put demo_uuid context_Background (demo_card\<lparr>ID := ''1''\<rparr>) 0 (int (length [1, 2 :: byte]))
       (GenerateSHA256 [1, 2]) (demo_reader_world []) = (Ok (''pg://'' @ uuid_String demo_uuid 1), w') \<and>
     (\<forall>c' v. db v = db w' \<and> reliable c' v \<longrightarrow>
       (\<exists>rc v'. SealedRepo_Get c' ''pg://7'' v = (Ok rc, v) \<and> rc_ReadAll rc v = (Ok [1, 2], v')))"
  by (rule sealed_roundtrip [OF _ _ _ _ _ _ demo_object_rows [folded demo_reader_simps(6) [of "[]"]]])
     (simp_all add: reliable_def demo_uuid_1 demo_ready)

text \<open>\<open>Put\<close> for an object that has no row in \<open>objects\<close> leaves the tables exactly as
  they were, whatever the network does and whatever it returns: the foreign key of the blobs
  refuses every chunk.\<close>

theorem sealed_put_needs_object:
  assumes "wf_world w" and "\<forall>k. uuid_Parse U (ID meta) = Some k \<longrightarrow> k \<notin> o_id ` set (objects (db w))"
  shows "db (snd (SealedRepo_Put U c meta r sz sha w)) = db w"
proof -
  have "keeps (\<lambda>v. db v = db w) (SealedRepo_Put U c meta r sz sha)"
    using assms by (intro Put_db chunk_stmts_missing) (auto simp: wf_world_def)
  then show ?thesis by (rule keepsD) simp
qed

theorem sealed_put_needs_object_witness:
  "db (snd (SealedRepo_Put demo_uuid context_Background demo_card 0 2 (GenerateSHA256 [1, 2])
     (demo_reader_world [(0, Reply), (0, LostReply (SqlState ''08006''))]))) = db demo_object_world"
proof -
  let ?w = "demo_reader_world [(0, Reply), (0, LostReply (SqlState ''08006''))]"
  have "wf_world ?w"
    using wf_demo_object_world
    by (simp add: wf_world_def demo_reader_world_def demo_object_world_def demo_catalog_world_def
        demo_user_world_def demo_world_def)
  moreover have "\<forall>k. uuid_Parse demo_uuid (ID demo_card) = Some k \<longrightarrow> k \<notin> o_id ` set (objects (db ?w))"
    by (simp add: demo_card_def demo_uuid_7) (simp add: demo_object_world_def)
  ultimately show ?thesis
    using sealed_put_needs_object [of ?w demo_uuid demo_card] by simp
qed

text \<open>C33: A retry of \<open>Put\<close> loses data: when an attempt fails with a retryable error after it
  consumed the reader, the next attempt commits an empty transaction and \<open>Put\<close> reports
  success, with nothing more stored than the failed attempt left.\<close>

theorem sealed_retry_loses_data:
  assumes "putLogic U c meta r sz sha w = (Err e, w1)" and "isRetryableError e" and "readers w1 r = []"
    and "reliable c (time_Sleep 1 w1)" and "0 \<le> sz" "sz < 2 ^ 31" and "uuid_Parse U (ID meta) = Some k"
  shows "\<exists>w'. SealedRepo_Put U c meta r sz sha w = (Ok (''pg://'' @ uuid_String U k), w') \<and> db w' = db w1"
proof -
  let ?v = "time_Sleep 1 w1"
  have "readers ?v r = []" using assms(3) by (simp add: time_Sleep_def)
  with assms(4) have "putLogic U c meta r sz sha ?v =
      (Ok (uuid_String U k), ?v\<lparr>uuid_pos := Suc (uuid_pos ?v), open_tx := None\<rparr>)"
    by (rule putLogic_exhausted) (fact assms)+
  then have "WithRetry (putLogic U c meta r sz sha) 0 w =
      (Ok (uuid_String U k), ?v\<lparr>uuid_pos := Suc (uuid_pos ?v), open_tx := None\<rparr>)"
    using WithRetry_again [of "putLogic U c meta r sz sha" w e w1 0, OF assms(1,2)]
    by (simp add: maxAttemptCount_def WithRetry_Ok)
  then show ?thesis by (simp add: SealedRepo_Put_def call_def comp_simps)
qed

theorem sealed_retry_loses_data_witness:
  "\<exists>w'. SealedRepo_Put demo_uuid context_Background (demo_card\<lparr>ID := ''1''\<rparr>) 0 2 (GenerateSHA256 [1, 2])
     (demo_reader_world [(0, Reply), (0, Reply), (0, Reply), (0, LostRequest (SqlState ''08006''))])
     = (Ok (''pg://'' @ uuid_String demo_uuid 1), w') \<and> secret_blobs (db w') = []"
proof -
  let ?w = "demo_reader_world [(0, Reply), (0, Reply), (0, Reply), (0, LostRequest (SqlState ''08006''))]"
  let ?m = "demo_card\<lparr>ID := ''1''\<rparr>"
  obtain w1 where run: "putLogic demo_uuid context_Background ?m 0 2 (GenerateSHA256 [1, 2]) ?w =
      (Err (Wrap ''commit'' (PgError ''08006'')), w1)"
    and w1: "readers w1 0 = []" "net w1 = []" "db w1 = db demo_object_world"
    by (simp add: putLogic_def put_tx_def call_def comp_simps deferring_def looping_def ToPgUUID_def demo_uuid_1
        pool_Begin_def pool_exec_def next_event_def after_event_def run_stmt_def sql_Begin_def put_loop.simps
        putHelper_def reader_Read_def int32_id tx_exec_def run_in_tx_def sql_InsertBlob_def sql_PutManifest_def
        tx_Commit_def tx_Rollback_def demo_reader_world_def demo_object_world_def demo_catalog_defs Let_def)
  have "\<exists>w'. SealedRepo_Put demo_uuid context_Background ?m 0 2 (GenerateSHA256 [1, 2]) ?w =
      (Ok (''pg://'' @ uuid_String demo_uuid 1), w') \<and> db w' = db w1"
    by (rule sealed_retry_loses_data [OF run])
       (use w1 in \<open>simp_all add: isRetryableError_def retryable_codes_def reliable_def time_Sleep_def demo_uuid_1\<close>)
  then show ?thesis
    using w1(3) by (auto simp: demo_object_world_def demo_user_world_def demo_world_def migrated_def)
qed

text \<open>C34: Reading an object to its end succeeds only with the stored chunks in the order of
  their index, each with exactly the length the manifest records.\<close>

theorem sealed_get_integrity:
  assumes "SealedRepo_Get c loc w = (Ok rc, w1)" and "rc_ReadAll rc w1 = (Ok bs, w2)"
  shows "bs = concat (map fst (object_chunks (db w) loc)) \<and>
    (\<forall>(s, n) \<in> set (object_chunks (db w) loc). int (length s) = n)"
proof -
  have rc: "rc = get_pipe c loc" "w1 = w" using assms(1) by (simp_all add: SealedRepo_Get_eq)
  from ReadAll_Ok [OF assms(2) [unfolded rc]] show ?thesis
    by (simp add: object_data_def list_all_iff)
qed

theorem sealed_get_integrity_witness:
  "\<exists>rc w2. SealedRepo_Get context_Background ''pg://7'' demo_object_world = (Ok rc, demo_object_world) \<and>
     rc_ReadAll rc demo_object_world = (Ok [], w2) \<and>
     [] = concat (map fst (object_chunks (db demo_object_world) ''pg://7''))"
proof -
  have get: "SealedRepo_Get context_Background ''pg://7'' demo_object_world =
      (Ok (get_pipe context_Background ''pg://7''), demo_object_world)" by (rule SealedRepo_Get_eq)
  obtain w2 where read: "rc_ReadAll (get_pipe context_Background ''pg://7'') demo_object_world = (Ok [], w2)"
    by (simp add: get_pipe_def call_def comp_simps pool_exec_reliable run_stmt_def sql_getQuery_def chunks_of_def
        demo_object_world_def demo_catalog_defs)
  from sealed_get_integrity [OF get read] get read show ?thesis by blast
qed

text \<open>Reading a locator that no object has is not an error: it succeeds with no data.\<close>

theorem sealed_get_unknown:
  assumes "reliable c w" and "loc \<notin> o_storage_locator ` set (objects (db w))"
  shows "\<exists>rc w'. SealedRepo_Get c loc w = (Ok rc, w) \<and> rc_ReadAll rc w = (Ok [], w')"
proof -
  have "filter (\<lambda>r. o_storage_locator r = loc) (objects (db w)) = []"
    using assms(2) by (auto simp: filter_empty_conv)
  then have "object_chunks (db w) loc = []" by (simp add: object_chunks_def)
  with ReadAll_live [OF assms(1), of loc] \<open>filter _ _ = []\<close> show ?thesis
    by (auto simp: SealedRepo_Get_eq object_data_def)
qed

theorem sealed_get_unknown_witness:
  "\<exists>rc w'. SealedRepo_Get context_Background ''pg://8'' (demo_world []) = (Ok rc, demo_world []) \<and>
     rc_ReadAll rc (demo_world []) = (Ok [], w')"
  by (rule sealed_get_unknown) (simp_all add: reliable_def demo_world_def migrated_def)

end
