(* ===== verification/Router.thy ===== *)
theory Router
  imports Sealed_Repo
begin

text \<open>
  \<open>src/internal/repo/router/router.go\<close>: the store router, which picks an object
  repository by data type when writing and by locator when reading, and is an
  \<open>ObjectRepo\<close> itself.  An interface value is optional: nil, or an implementation; what picks one
  does not depend on what it is, so its type is a parameter of the router.
\<close>

record 'i StoreRouter =
  byType :: "DataType \<Rightarrow> 'i option option"
  byLocatorPrefix :: "string \<Rightarrow> 'i option option"

text \<open>A map read: the zero value, nil, for a missing key; a nil map has no keys.\<close>

definition map_get :: "('k \<Rightarrow> 'v option option) \<Rightarrow> 'k \<Rightarrow> 'v option" where
  "map_get m k = (case m k of None \<Rightarrow> None | Some v \<Rightarrow> v)"

definition nil_map :: "'k \<Rightarrow> 'v option" where
  "nil_map k = None"

definition router_New :: "(DataType \<Rightarrow> 'i option option) \<Rightarrow> 'i StoreRouter" where
  "router_New bt = \<lparr>byType = bt, byLocatorPrefix = nil_map\<rparr>"

definition pickByType :: "'i StoreRouter \<Rightarrow> DataType \<Rightarrow> 'i option result" where
  "pickByType r dt =
     (if dt = DataTypeUnspecified then Err (ErrNew ''unknown data type'')
      else (case byType r dt of
          Some (Some s) \<Rightarrow> Ok (Some s)
        | _ \<Rightarrow> Err (ErrNew (''failed to find storage for data type '' @ dt))))"

definition pickByLocator :: "'i StoreRouter \<Rightarrow> ObjectLocator \<Rightarrow> 'i option result" where
  "pickByLocator r loc =
     (if strings_HasPrefix loc ''s3'' then Ok (map_get (byLocatorPrefix r) ''s3'')
      else if strings_HasPrefix loc ''pg'' then Ok (map_get (byLocatorPrefix r) ''pg'')
      else Err (ErrNew (''failed to find storage for locator '' @ loc)))"

text \<open>A method call on an interface value: nil panics.\<close>

definition nil_deref :: string where
  "nil_deref = ''invalid memory address or nil pointer dereference''"

definition invoke :: "'i option \<Rightarrow> ('i \<Rightarrow> (world, 'a) comp) \<Rightarrow> (world, 'a) comp" where
  "invoke i f = (case i of None \<Rightarrow> panic nil_deref | Some s \<Rightarrow> f s)"

definition StoreRouter_Put ::
  "ObjectRepo StoreRouter \<Rightarrow> ctx \<Rightarrow> Metadata \<Rightarrow> nat \<Rightarrow> int \<Rightarrow> bytes \<Rightarrow> (world, ObjectLocator) comp" where
  "StoreRouter_Put r c meta rd sz sha =
     call (pure_call (pickByType r (MetaDataType meta))) fail (\<lambda>storage.
     call (invoke storage (\<lambda>s. or_Put s c meta rd sz sha)) (wrapping ''storage Put'') ret)"

definition StoreRouter_Get :: "ObjectRepo StoreRouter \<Rightarrow> ctx \<Rightarrow> ObjectLocator \<Rightarrow> (world, ReadCloser) comp" where
  "StoreRouter_Get r c loc =
     call (pure_call (pickByLocator r loc)) fail (\<lambda>storage.
     call (invoke storage (\<lambda>s. or_Get s c loc)) (wrapping ''storage Get'') ret)"

definition StoreRouter_Delete :: "ObjectRepo StoreRouter \<Rightarrow> ctx \<Rightarrow> ObjectLocator \<Rightarrow> (world, unit) comp" where
  "StoreRouter_Delete r c loc =
     call (pure_call (pickByLocator r loc)) fail (\<lambda>storage.
     call (invoke storage (\<lambda>s. or_Delete s c loc)) (wrapping ''storage Delete'') ret)"

definition router_repo :: "ObjectRepo StoreRouter \<Rightarrow> ObjectRepo" where
  "router_repo r = \<lparr>or_Put = StoreRouter_Put r, or_Get = StoreRouter_Get r, or_Delete = StoreRouter_Delete r\<rparr>"

text \<open>The map of \<open>setupRepos\<close> (\<open>src/internal/api/api.go\<close>): one storage for all types.\<close>

definition reposByType :: "'i \<Rightarrow> DataType \<Rightarrow> 'i option option" where
  "reposByType objectsStorage = [DataTypeBinary \<mapsto> Some objectsStorage, DataTypeCard \<mapsto> Some objectsStorage,
     DataTypeAuthenticationCredentials \<mapsto> Some objectsStorage]"

section \<open>A router over one storage meets the contract of that storage\<close>

lemma pickByLocator_New:
  "pickByLocator (router_New bt) loc =
     (if strings_HasPrefix loc ''s3'' \<or> strings_HasPrefix loc ''pg'' then Ok None
      else Err (ErrNew (''failed to find storage for locator '' @ loc)))"
  by (simp add: pickByLocator_def router_New_def map_get_def nil_map_def)

lemma StoreRouter_Get_New:
  "StoreRouter_Get (router_New bt) c loc w =
     (if strings_HasPrefix loc ''s3'' \<or> strings_HasPrefix loc ''pg'' then (Panic nil_deref, w)
      else (Err (ErrNew (''failed to find storage for locator '' @ loc)), w))"
  by (simp add: StoreRouter_Get_def pickByLocator_New call_def comp_simps invoke_def)

lemma StoreRouter_Delete_New:
  "StoreRouter_Delete (router_New bt) c loc w =
     (if strings_HasPrefix loc ''s3'' \<or> strings_HasPrefix loc ''pg'' then (Panic nil_deref, w)
      else (Err (ErrNew (''failed to find storage for locator '' @ loc)), w))"
  by (simp add: StoreRouter_Delete_def pickByLocator_New call_def comp_simps invoke_def)

lemma pickByType_Ok: "pickByType r dt = Ok s \<longleftrightarrow> dt \<noteq> DataTypeUnspecified \<and> (\<exists>s'. s = Some s' \<and> byType r dt = Some (Some s'))"
  by (auto simp: pickByType_def split: option.splits)

lemma pickByType_returns: "returns (pickByType r dt)"
  by (simp add: pickByType_def split: option.split)

locale routed_storage = object_repo +
  fixes bt :: "DataType \<Rightarrow> ObjectRepo option option"
  assumes only: "bt dt = Some (Some s) \<Longrightarrow> s = R"
begin

lemma Put_cases:
  obtains "StoreRouter_Put (router_New bt) c m rd sz sha = call (or_Put R c m rd sz sha) (wrapping ''storage Put'') ret"
  | e where "StoreRouter_Put (router_New bt) c m rd sz sha = fail e"
proof (cases "pickByType (router_New bt) (MetaDataType m)")
  case (Ok s)
  then have "s = Some R" using only by (auto simp: pickByType_Ok router_New_def)
  with Ok have "StoreRouter_Put (router_New bt) c m rd sz sha = call (or_Put R c m rd sz sha) (wrapping ''storage Put'') ret"
    by (intro ext) (simp add: StoreRouter_Put_def call_def [of "pure_call _"] comp_simps invoke_def)
  then show thesis by (rule that(1))
next
  case (Err e)
  then have "StoreRouter_Put (router_New bt) c m rd sz sha = fail e"
    by (intro ext) (simp add: StoreRouter_Put_def call_def comp_simps)
  then show thesis by (rule that(2))
qed (use pickByType_returns [of "router_New bt" "MetaDataType m"] in simp_all)

lemma routed_put:
  "frames (\<lambda>w. other_tables (db w)) (StoreRouter_Put (router_New bt) c m rd sz sha)"
  "keeps wf_world (StoreRouter_Put (router_New bt) c m rd sz sha)"
  "0 < sz \<Longrightarrow> sz < 2 ^ 31 \<Longrightarrow> total (StoreRouter_Put (router_New bt) c m rd sz sha)"
  by (cases rule: Put_cases [of c m rd sz sha];
      simp add: frames_rules put_frames keeps_rules put_keeps total_rules put_total)+

lemma routed_locator:
  assumes "StoreRouter_Put (router_New bt) c m rd sz sha w = (Ok loc, w')"
  shows "strings_HasPrefix loc ''pg''"
  using assms
proof (cases rule: Put_cases [of c m rd sz sha])
  case 1
  with assms have "call (or_Put R c m rd sz sha) (wrapping ''storage Put'') ret w = (Ok loc, w')" by simp
  then have "or_Put R c m rd sz sha w = (Ok loc, w')" by (elim call_OkE) (auto simp: comp_simps)
  then show ?thesis by (rule put_locator)
qed (simp add: comp_simps)

end

text \<open>The router's reads and deletions never get as far as the storage, so they are safe.\<close>

sublocale routed_storage \<subseteq> router: object_repo "router_repo (router_New bt)" data
proof (unfold_locales, unfold router_repo_def ObjectRepo.select_convs)
  show "frames db (StoreRouter_Get (router_New bt) c loc)"
    and "frames stream_state (StoreRouter_Get (router_New bt) c loc)"
    and "keeps wf_world (StoreRouter_Get (router_New bt) c loc)"
    and "frames (\<lambda>w. other_tables (db w)) (StoreRouter_Delete (router_New bt) c loc)"
    and "keeps wf_world (StoreRouter_Delete (router_New bt) c loc)" for c loc
    by (simp_all add: frames_def keeps_def StoreRouter_Get_New StoreRouter_Delete_New)
qed ((fact data_db routed_put routed_locator)+, simp_all add: StoreRouter_Get_New split: if_splits)

interpretation pg_router: routed_storage "NewObjectRepository U" "\<lambda>w. object_data (db w)"
  "reposByType (NewObjectRepository U)" for U
  by unfold_locales (simp add: reposByType_def split: if_splits)

section \<open>Properties\<close>

text \<open>A router built by \<open>New\<close> never reaches a storage when reading or deleting: its map
  of locator prefixes is nil, so a locator with a known prefix picks a nil storage and the call
  panics, and every other locator is an error.\<close>

theorem router_read_panics:
  "StoreRouter_Get (router_New bt) c loc w =
     (if strings_HasPrefix loc ''s3'' \<or> strings_HasPrefix loc ''pg'' then (Panic nil_deref, w)
      else (Err (ErrNew (''failed to find storage for locator '' @ loc)), w)) \<and>
   StoreRouter_Delete (router_New bt) c loc w =
     (if strings_HasPrefix loc ''s3'' \<or> strings_HasPrefix loc ''pg'' then (Panic nil_deref, w)
      else (Err (ErrNew (''failed to find storage for locator '' @ loc)), w))"
  by (simp add: StoreRouter_Get_New StoreRouter_Delete_New)

text \<open>The router of the server writes data of the three storable types to the one storage,
  with its errors wrapped, and refuses every other type without touching anything.\<close>

theorem router_put_dispatch:
  "StoreRouter_Put (router_New (reposByType S)) c m rd sz sha w =
     (if storable_type (MetaDataType m)
      then (case or_Put S c m rd sz sha w of
              (Err e, w') \<Rightarrow> (Err (Wrap ''storage Put'' e), w') | rw \<Rightarrow> rw)
      else (Err (ErrNew (if MetaDataType m = DataTypeUnspecified then ''unknown data type''
                         else ''failed to find storage for data type '' @ MetaDataType m)), w))"
proof (cases "storable_type (MetaDataType m)")
  case True
  then have "pickByType (router_New (reposByType S)) (MetaDataType m) = Ok (Some S)"
    by (auto simp: pickByType_def router_New_def reposByType_def storable_type_def)
  with True show ?thesis
    by (simp add: StoreRouter_Put_def call_def comp_simps invoke_def split: prod.split result.split)
next
  case False
  then have "reposByType S (MetaDataType m) = None"
    by (simp add: reposByType_def storable_type_def)
  with False show ?thesis
    by (simp add: StoreRouter_Put_def pickByType_def router_New_def call_def comp_simps)
qed

end
