(* ===== verification/Keeper.thy ===== *)
theory Keeper
  imports Router
begin

text \<open>
  Package \<open>keeper\<close> (\<open>src/internal/service/server/keeper/keeper.go\<close>): adding,
  reading, listing, deleting and synchronising sealed objects over an object repository and a
  metadata repository.  A pointer to metadata is optional; a callback is a computation.
\<close>

section \<open>The service\<close>

definition MsgEmptyUserID :: string where
  "MsgEmptyUserID = ''empty userID''"

record Service =
  objectRepo :: ObjectRepo
  metadataRepo :: MetadataRepo

definition NewService :: "ObjectRepo \<Rightarrow> MetadataRepo \<Rightarrow> Service" where
  "NewService obr mdr = \<lparr>objectRepo = obr, metadataRepo = mdr\<rparr>"

type_synonym StreamCallback = "Metadata \<Rightarrow> bytes \<Rightarrow> (world, unit) comp"
type_synonym SyncMode = int

definition SyncModeShort :: SyncMode where "SyncModeShort = 1"
definition SyncModeFull :: SyncMode where "SyncModeFull = 2"

text \<open>\<open>return x, errors.Join(...)\<close>.\<close>

definition ret_join :: "'a \<Rightarrow> goerr option list \<Rightarrow> (world, 'a) comp" where
  "ret_join x es = (case errors_Join es of None \<Rightarrow> ret x | Some e \<Rightarrow> fail e)"

text \<open>The compensation of \<open>AddSealed\<close> when the metadata cannot be stored.\<close>

definition undo_put :: "Service \<Rightarrow> ctx \<Rightarrow> ObjectLocator \<Rightarrow> goerr \<Rightarrow> (world, DataID) comp" where
  "undo_put s ctx2 loc err =
     call (or_Delete (objectRepo s) ctx2 loc)
       (\<lambda>errDelete. wrapping ''failed to put metadata to meta repo'' (ErrJoin [err, errDelete]))
       (\<lambda>_. wrapping ''failed to put metadata to meta repo'' err)"

definition AddSealed ::
  "Service \<Rightarrow> ctx \<Rightarrow> UserID \<Rightarrow> Metadata option \<Rightarrow> bytes \<Rightarrow> (world, DataID) comp" where
  "AddSealed s c userID metaPtr sealed =
     (if userID = '''' then fail (ErrNew MsgEmptyUserID)
      else (case metaPtr of
         None \<Rightarrow> fail (ErrNew ''nil metadata'')
       | Some meta0 \<Rightarrow>
           if sealed = [] then fail (ErrNew ''empty sealed_data'')
           else if MetaDataType meta0 \<notin> {DataTypeAuthenticationCredentials, DataTypeCard, DataTypeBinary}
           then fail (ErrNew (''unsupported data type: '' @ MetaDataType meta0))
           else
             let meta = meta0\<lparr>MetaUserID := userID\<rparr> in
             call (with_timeout c (\<lambda>ctx1.
                 call (bytes_NewReader sealed) fail (\<lambda>r.
                 or_Put (objectRepo s) ctx1 meta r (int32 (int (length sealed))) (sha256_Sum256 sealed))))
               (wrapping ''failed to put sealed data to object repo'') (\<lambda>loc.
             with_timeout c (\<lambda>ctx2.
               call (mdr_Put (metadataRepo s) ctx2 meta loc) (undo_put s ctx2 loc) ret))))"

definition getSealedHelper :: "Service \<Rightarrow> ctx \<Rightarrow> ObjectLocator \<Rightarrow> (world, bytes) comp" where
  "getSealedHelper s c loc =
     with_timeout c (\<lambda>ctxTO.
     call (or_Get (objectRepo s) ctxTO loc) (wrapping ''objectRepo.Get method failed'') (\<lambda>rc.
     call (rc_ReadAll rc)
       (\<lambda>e. ret_join [] [Some (Wrap ''failed to read object'' e), rc_Close rc])
       (\<lambda>sealed. ret_join sealed [None, rc_Close rc])))"

definition GetSealed :: "Service \<Rightarrow> ctx \<Rightarrow> DataID \<Rightarrow> StreamCallback \<Rightarrow> (world, unit) comp" where
  "GetSealed s c i cb =
     (if i = '''' then fail (ErrNew ''empty id'')
      else
        call (with_timeout c (\<lambda>ctx1. mdr_Get (metadataRepo s) ctx1 i))
          (wrapping ''failed to get metadata from repo'') (\<lambda>(meta, loc).
        call (getSealedHelper s c loc) fail (\<lambda>sealed.
        call (cb meta sealed) (wrapping ''callback failed'') ret)))"

definition Service_List :: "Service \<Rightarrow> ctx \<Rightarrow> UserID \<Rightarrow> (world, MetaLoc list) comp" where
  "Service_List s c userID =
     (if userID = '''' then fail (ErrNew MsgEmptyUserID)
      else call (with_timeout c (\<lambda>ctxTO. mdr_ListByUser (metadataRepo s) ctxTO userID))
        (wrapping ''failed to list metadata from repo'') ret)"

definition Service_Delete :: "Service \<Rightarrow> ctx \<Rightarrow> DataID \<Rightarrow> (world, unit) comp" where
  "Service_Delete s c i =
     (if i = '''' then fail (ErrNew ''empty id'')
      else
        call (with_timeout c (\<lambda>ctx1. mdr_Delete (metadataRepo s) ctx1 i))
          (wrapping ''failed to delete metadata'') (\<lambda>loc.
        call (with_timeout c (\<lambda>ctx2. or_Delete (objectRepo s) ctx2 loc))
          (wrapping ''failed to delete data'') ret))"

fun sync_loop :: "Service \<Rightarrow> ctx \<Rightarrow> SyncMode \<Rightarrow> StreamCallback \<Rightarrow> MetaLoc list \<Rightarrow> (world, unit) comp" where
  "sync_loop s c mode cb [] = ret ()"
| "sync_loop s c mode cb (ml # mls) =
     (\<lambda>w. case ctx_Err c (now w) of
        Some e \<Rightarrow> (Err (Wrap ''metadata run through failed'' e), w)
      | None \<Rightarrow>
          if mode = SyncModeShort then
            call (getSealedHelper s c (Locator ml)) fail (\<lambda>sealed.
            call (cb (Meta ml) sealed)
              (wrapping ''metadata and data grpc stream write callback failed'') (\<lambda>_.
            sync_loop s c mode cb mls)) w
          else if mode = SyncModeFull then (Err (ErrNew ''full sync mode isn't implemented yet''), w)
          else (Err (ErrNew ''unknown sync mode''), w))"

definition Service_Sync ::
  "Service \<Rightarrow> ctx \<Rightarrow> UserID \<Rightarrow> SyncMode \<Rightarrow> StreamCallback \<Rightarrow> (world, unit) comp" where
  "Service_Sync s c userID mode cb =
     (if userID = '''' then fail (ErrNew MsgEmptyUserID)
      else
        call (with_timeout c (\<lambda>ctx1. mdr_ListByUser (metadataRepo s) ctx1 userID))
          (wrapping ''repo.ListMetadata method failed'') (\<lambda>metaLocs.
        sync_loop s c mode cb metaLocs))"

section \<open>The service over any repositories\<close>

locale keeper_storage = obj: object_repo R data + meta: metadata_repo M parse print catalog
  for R :: ObjectRepo and data :: "world \<Rightarrow> ObjectLocator \<Rightarrow> bytes"
    and M :: MetadataRepo and parse :: "string \<Rightarrow> uuid option" and print :: "uuid \<Rightarrow> string"
    and catalog :: "world \<Rightarrow> entry list" +
  assumes catalog_frame: "other_tables (db v) = other_tables (db w) \<Longrightarrow> catalog v = catalog w"
begin

abbreviation service :: Service where
  "service \<equiv> NewService R M"

lemma NewReader_inv: "keeps wf_world (bytes_NewReader bs)" "frames db (bytes_NewReader bs)"
  by (simp_all add: keeps_def frames_def bytes_NewReader_def wf_world_def)

lemma undo_put_inv: "keeps wf_world (undo_put service c loc e)"
  unfolding undo_put_def NewService_def by (intro keeps_rules) (simp add: obj.delete_keeps)

lemma AddSealed_keeps: "keeps wf_world (AddSealed service c u m bs)"
proof -
  have "keeps wf_world (or_Put R c m r sz sha)" "keeps wf_world (mdr_Put M c m loc)" for c m r sz sha loc
    by (fact obj.put_keeps meta.put_keeps)+
  then show ?thesis
    unfolding AddSealed_def Let_def
    by (intro keeps_rules NewReader_inv undo_put_inv) (simp_all add: NewService_def)
qed

lemma ret_join_keeps [keeps_rules]: "keeps I (ret_join x es)"
  unfolding ret_join_def by (intro keeps_rules)

lemma getSealedHelper_inv:
  assumes get: "\<And>c. keeps I (or_Get R c loc)"
    and read: "\<And>c w rc w1. or_Get R c loc w = (Ok rc, w1) \<Longrightarrow> keeps I (rc_ReadAll rc)"
  shows "keeps I (getSealedHelper service c loc)"
proof (rule keepsI)
  fix w assume "I w"
  let ?c = "context_WithTimeout c RepoOperationTO (now w)"
  let ?k = "\<lambda>rc. call (rc_ReadAll rc)
       (\<lambda>e. ret_join [] [Some (Wrap ''failed to read object'' e), rc_Close rc])
       (\<lambda>sealed. ret_join sealed [None, rc_Close rc])"
  have after_get: "I (snd (or_Get R ?c loc w))" using get \<open>I w\<close> by (rule keepsD)
  have "getSealedHelper service c loc w = call (or_Get R ?c loc) (wrapping ''objectRepo.Get method failed'') ?k w"
    by (simp add: getSealedHelper_def NewService_def with_timeout_def)
  moreover have "I (snd (call (or_Get R ?c loc) (wrapping ''objectRepo.Get method failed'') ?k w))"
  proof (cases rule: call_cases [of "or_Get R ?c loc" w "wrapping ''objectRepo.Get method failed''" ?k])
    case (Ok rc w1)
    have "keeps I (?k rc)" by (intro keeps_rules read [OF Ok(1)])
    then show ?thesis using after_get Ok by (auto intro: keepsD)
  qed (use after_get in \<open>auto simp: comp_simps\<close>)
  ultimately show "I (snd (getSealedHelper service c loc w))" by simp
qed

lemma getSealedHelper_keeps: "keeps wf_world (getSealedHelper service c loc)"
  by (rule getSealedHelper_inv [OF obj.get_keeps obj.read_keeps])

lemma getSealedHelper_frames:
  "frames db (getSealedHelper service c loc)" "frames stream_state (getSealedHelper service c loc)"
  unfolding frames_def
  by (intro allI getSealedHelper_inv frames_keeps obj.get_frames obj.get_stream;
      erule obj.read_frames obj.read_stream)+

lemma GetSealed_keeps: "(\<And>m bs. keeps wf_world (cb m bs)) \<Longrightarrow> keeps wf_world (GetSealed service c i cb)"
  unfolding GetSealed_def
  by (intro keeps_rules getSealedHelper_keeps) (simp_all add: NewService_def meta.get_keeps)

lemma Delete_keeps: "keeps wf_world (Service_Delete service c i)"
  unfolding Service_Delete_def
  by (intro keeps_rules) (simp_all add: NewService_def meta.delete_keeps obj.delete_keeps)

lemma List_keeps: "keeps wf_world (Service_List service c u)"
  unfolding Service_List_def by (intro keeps_rules) (simp add: NewService_def meta.list_keeps)

lemma sync_loop_keeps:
  "(\<And>m bs. keeps wf_world (cb m bs)) \<Longrightarrow> keeps wf_world (sync_loop service c mode cb mls)"
proof (induction mls)
  case (Cons ml mls)
  have "keeps wf_world (call (getSealedHelper service c (Locator ml)) fail (\<lambda>sealed.
      call (cb (Meta ml) sealed) (wrapping ''metadata and data grpc stream write callback failed'') (\<lambda>_.
      sync_loop service c mode cb mls)))"
    by (intro keeps_rules getSealedHelper_keeps Cons)
  then show ?case by (auto simp: keeps_def split: option.split)
qed (simp add: keeps_rules)

lemma Sync_keeps: "(\<And>m bs. keeps wf_world (cb m bs)) \<Longrightarrow> keeps wf_world (Service_Sync service c u mode cb)"
  unfolding Service_Sync_def
  by (intro keeps_rules sync_loop_keeps) (simp_all add: NewService_def meta.list_keeps)

lemma AddSealed_valid:
  assumes "u \<noteq> ''''" and "bs \<noteq> []" and "storable_type (MetaDataType m)"
  shows "AddSealed service c u (Some m) bs =
    call (with_timeout c (\<lambda>ctx1. call (bytes_NewReader bs) fail (\<lambda>r.
        or_Put R ctx1 (m\<lparr>MetaUserID := u\<rparr>) r (int32 (int (length bs))) (sha256_Sum256 bs))))
      (wrapping ''failed to put sealed data to object repo'') (\<lambda>loc. with_timeout c (\<lambda>ctx2.
        call (mdr_Put M ctx2 (m\<lparr>MetaUserID := u\<rparr>) loc) (undo_put service ctx2 loc) ret))"
  using assms by (auto simp: AddSealed_def Let_def storable_type_def NewService_def)

lemma AddSealed_OkE:
  assumes "AddSealed service c u mp bs w = (Ok i, w')"
  obtains m r loc c1 c2 w1 w2 where "u \<noteq> ''''" and "mp = Some m" and "bs \<noteq> []" and "storable_type (MetaDataType m)"
    and "or_Put R c1 (m\<lparr>MetaUserID := u\<rparr>) r (int32 (int (length bs))) (sha256_Sum256 bs) w1 = (Ok loc, w2)"
    and "db w1 = db w" and "wf_world w \<Longrightarrow> wf_world w1"
    and "mdr_Put M c2 (m\<lparr>MetaUserID := u\<rparr>) loc w2 = (Ok i, w')"
proof -
  from assms obtain m where m: "u \<noteq> ''''" "mp = Some m" "bs \<noteq> []" "storable_type (MetaDataType m)"
    by (auto simp: AddSealed_def storable_type_def comp_simps split: if_splits option.splits)
  let ?m = "m\<lparr>MetaUserID := u\<rparr>" and ?c1 = "context_WithTimeout c RepoOperationTO (now w)"
  let ?put = "\<lambda>ctx1. call (bytes_NewReader bs) fail (\<lambda>r.
      or_Put R ctx1 ?m r (int32 (int (length bs))) (sha256_Sum256 bs))"
  have "AddSealed service c u mp bs w = call (with_timeout c ?put)
      (wrapping ''failed to put sealed data to object repo'') (\<lambda>loc. with_timeout c (\<lambda>ctx2.
        call (mdr_Put M ctx2 ?m loc) (undo_put service ctx2 loc) ret)) w"
    using m by (simp add: AddSealed_valid)
  with assms obtain loc w2 where put: "with_timeout c ?put w = (Ok loc, w2)"
    and rest: "with_timeout c (\<lambda>ctx2. call (mdr_Put M ctx2 ?m loc) (undo_put service ctx2 loc) ret) w2 = (Ok i, w')"
    by (auto elim: call_OkE simp: comp_simps)
  obtain r w1 where nr: "bytes_NewReader bs w = (Ok r, w1)" by (simp add: bytes_NewReader_def)
  have w1: "db w1 = db w" "wf_world w \<Longrightarrow> wf_world w1"
    using framesD' [OF NewReader_inv(2) nr] keepsD [OF NewReader_inv(1), of w bs] nr by simp_all
  have p: "or_Put R ?c1 ?m r (int32 (int (length bs))) (sha256_Sum256 bs) w1 = (Ok loc, w2)"
    using put nr by (simp add: with_timeout_def call_def)
  have "\<not> is_Ok (fst (undo_put service ctx2 loc e v))" for ctx2 e v
    unfolding undo_put_def by (auto simp: call_def comp_simps split: prod.split result.split)
  with rest obtain c2 where "mdr_Put M c2 ?m loc w2 = (Ok i, w')"
    unfolding with_timeout_def by (auto elim!: call_OkE simp: comp_simps)
  with m p w1 show thesis by (rule that)
qed

lemma AddSealed_catalog:
  assumes "wf_world w" and "AddSealed service c u mp bs w = (Ok i, w')"
  shows "\<exists>m loc k x xs. mp = Some m \<and> parse u = Some k \<and> strings_HasPrefix loc ''pg'' \<and>
    catalog w' = catalog w @ xs @ [x] \<and> copies k (m\<lparr>MetaUserID := u\<rparr>) loc (xs @ [x]) \<and>
    ID (Meta (e_ml x)) = i \<and> e_id x \<notin> e_id ` set (catalog w)"
  using assms(2)
proof (rule AddSealed_OkE)
  fix m r loc c1 c2 w1 w2
  assume m: "mp = Some m" and put: "or_Put R c1 (m\<lparr>MetaUserID := u\<rparr>) r (int32 (int (length bs))) (sha256_Sum256 bs) w1 = (Ok loc, w2)"
    and w1: "db w1 = db w" "wf_world w \<Longrightarrow> wf_world w1" and mput: "mdr_Put M c2 (m\<lparr>MetaUserID := u\<rparr>) loc w2 = (Ok i, w')"
  have "wf_world w2" using keepsD [OF obj.put_keeps w1(2) [OF assms(1)]] put by (metis snd_conv)
  from meta.put_Ok [OF this mput] obtain k x xs where "parse u = Some k" "catalog w' = catalog w2 @ xs @ [x]"
    "copies k (m\<lparr>MetaUserID := u\<rparr>) loc (xs @ [x])" "ID (Meta (e_ml x)) = i" "e_id x \<notin> e_id ` set (catalog w2)"
    by auto
  moreover have "catalog w2 = catalog w"
    using framesD' [OF obj.put_frames put] w1(1) by (intro catalog_frame) simp
  ultimately show ?thesis
    using m obj.put_locator [OF put]
    by (intro exI [of _ m] exI [of _ loc] exI [of _ k] exI [of _ x] exI [of _ xs]) simp
qed

lemma List_exact:
  assumes "Service_List service c u w = (Ok mls, w')"
  shows "u \<noteq> '''' \<and> (\<exists>k. parse u = Some k \<and> mls = owned_by (catalog w) k)"
proof -
  from assms have "u \<noteq> ''''" by (auto simp: Service_List_def comp_simps)
  moreover from this assms have "mdr_ListByUser M (context_WithTimeout c RepoOperationTO (now w)) u w = (Ok mls, w')"
    by (auto elim!: call_OkE simp: Service_List_def NewService_def with_timeout_def comp_simps)
  ultimately show ?thesis using meta.list_Ok by blast
qed

text \<open>What a helper call delivers is the content under the locator.\<close>

lemma getSealedHelper_Ok:
  assumes "getSealedHelper service c loc w = (Ok bs, w')"
  shows "bs = data w loc" and "db w' = db w"
proof -
  let ?c = "context_WithTimeout c RepoOperationTO (now w)"
  let ?k = "\<lambda>rc. call (rc_ReadAll rc) (\<lambda>e. ret_join [] [Some (Wrap ''failed to read object'' e), rc_Close rc])
       (\<lambda>sealed. ret_join sealed [None, rc_Close rc])"
  from assms have "call (or_Get R ?c loc) (wrapping ''objectRepo.Get method failed'') ?k w = (Ok bs, w')"
    by (simp add: getSealedHelper_def NewService_def with_timeout_def)
  then obtain rc w1 where get: "or_Get R ?c loc w = (Ok rc, w1)" and rest: "?k rc w1 = (Ok bs, w')"
    by (rule call_OkE [OF _ wrapping_not_Ok])
  have nok: "\<not> is_Ok (fst (ret_join [] [Some (Wrap ''failed to read object'' e), rc_Close rc] v))" for e v
    by (cases "rc_Close rc") (simp_all add: ret_join_def errors_Join_def map_filter_simps comp_simps)
  from rest have read: "rc_ReadAll rc w1 = (Ok bs, w')"
    by (rule call_OkE [OF _ nok]) (auto simp: ret_join_def comp_simps split: option.splits)
  have db1: "db w1 = db w" using framesD' [OF obj.get_frames get] .
  show "bs = data w loc" using obj.read_Ok [OF get read] obj.data_db [OF db1] by simp
  show "db w' = db w" using framesD' [OF obj.read_frames [OF get] read] db1 by simp
qed

lemma GetSealed_Ok:
  assumes "GetSealed service c i cb w = (Ok (), w')"
  shows "\<exists>x \<in> set (catalog w). parse i = Some (e_id x) \<and>
    (\<exists>v. db v = db w \<and> cb (Meta (e_ml x)) (data w (Locator (e_ml x))) v = (Ok (), w'))"
proof -
  let ?c = "context_WithTimeout c RepoOperationTO (now w)"
  let ?k = "\<lambda>(m, loc). call (getSealedHelper service c loc) fail (\<lambda>sealed.
      call (cb m sealed) (wrapping ''callback failed'') ret)"
  from assms have "call (mdr_Get M ?c i) (wrapping ''failed to get metadata from repo'') ?k w = (Ok (), w')"
    by (auto simp: GetSealed_def NewService_def with_timeout_def call_def [of "with_timeout c _"] call_def [of "mdr_Get M _ i"]
        comp_simps split: if_splits)
  then obtain ml w1 where get: "mdr_Get M ?c i w = (Ok ml, w1)" and rest: "?k ml w1 = (Ok (), w')"
    by (rule call_OkE [OF _ wrapping_not_Ok])
  obtain m loc where ml: "ml = (m, loc)" by (cases ml)
  from rest [unfolded ml, simplified] obtain bs w2 where h: "getSealedHelper service c loc w1 = (Ok bs, w2)"
    and cb: "call (cb m bs) (wrapping ''callback failed'') ret w2 = (Ok (), w')"
    by (rule call_OkE [OF _ fail_not_Ok])
  from cb have "cb m bs w2 = (Ok (), w')" by (rule call_OkE [OF _ wrapping_not_Ok]) (simp add: comp_simps)
  moreover have w1: "db w1 = db w" using framesD' [OF meta.get_frames get] .
  moreover have "bs = data w loc" "db w2 = db w"
    using getSealedHelper_Ok [OF h] obj.data_db [OF w1] w1 by simp_all
  moreover obtain x where "x \<in> set (catalog w)" "parse i = Some (e_id x)" "e_ml x = \<lparr>Locator = loc, Meta = m\<rparr>"
    using meta.get_Ok get ml by blast
  ultimately show ?thesis by (intro bexI [of _ x] conjI exI [of _ w2]) simp_all
qed

end

text \<open>The service of the server (\<open>setupRepos\<close>), with the router, and the service
  directly over the database.\<close>

abbreviation pg_service :: "uuid_lib \<Rightarrow> Service" where
  "pg_service U \<equiv> NewService (NewObjectRepository U) (NewMetadataRepository U)"

abbreviation server_service :: "uuid_lib \<Rightarrow> Service" where
  "server_service U \<equiv> NewService (router_repo (router_New (reposByType (NewObjectRepository U)))) (NewMetadataRepository U)"

interpretation pg_keeper: keeper_storage "NewObjectRepository U" "\<lambda>w. object_data (db w)"
  "NewMetadataRepository U" "uuid_Parse U" "uuid_String U" "pg_catalog U" for U
  by unfold_locales (rule catalog_other)

interpretation server_keeper: keeper_storage "router_repo (router_New (reposByType (NewObjectRepository U)))"
  "\<lambda>w. object_data (db w)" "NewMetadataRepository U" "uuid_Parse U" "uuid_String U" "pg_catalog U" for U
  by unfold_locales (rule catalog_other)

section \<open>Properties\<close>

lemma catalog_ids_wf: "wf_tables t \<Longrightarrow> e_id ` set (catalog_of U t) = o_id ` set (objects t)"
proof (intro equalityI catalog_ids)
  assume "wf_tables t"
  then show "o_id ` set (objects t) \<subseteq> e_id ` set (catalog_of U t)"
    using row_entry_wf [of t _ U] row_entry_SomeD [of U t]
    by (force simp: catalog_set image_iff)
qed

lemma Put_manifest: "frames (\<lambda>w. chunk_manifest (db w)) (MetadataRepository_Put U c m loc)"
  unfolding MetadataRepository_Put_def call_fail_ret
  by (intro WithRetry_frames frames_rules pool_exec_db)
     (simp_all add: sql_PutMetadata_def split: option.split)

text \<open>An object just catalogued has no chunks: they belong to objects that existed before.\<close>

lemma new_object_empty:
  assumes "wf_world w" and "MetadataRepository_Put U c m loc w = (Ok i, w')"
  shows "object_data (db w') loc = []"
proof -
  from Put_Ok [OF assms] obtain u x xs where "pg_catalog U w' = pg_catalog U w @ xs @ [x]"
    "copies u m loc (xs @ [x])" and new: "e_id x \<notin> e_id ` set (pg_catalog U w)" by blast
  then have x: "x \<in> set (pg_catalog U w')" "Locator (e_ml x) = loc" by (simp_all add: copies_def)
  have wf: "wf_tables (db w)" using assms(1) by (simp add: wf_world_def)
  have "m_objects_id ` set (chunk_manifest (db w)) \<subseteq> o_id ` set (objects (db w))"
  proof
    fix k assume "k \<in> m_objects_id ` set (chunk_manifest (db w))"
    then obtain mr where mr: "mr \<in> set (chunk_manifest (db w))" "k = m_objects_id mr" by blast
    then have "(m_blob_id mr, k) \<in> (\<lambda>b. (b_id b, b_objects_id b)) ` set (secret_blobs (db w))"
      using wf by (auto simp: wf_tables_def refs_ok_def image_subset_iff)
    then show "k \<in> o_id ` set (objects (db w))"
      using wf by (auto simp: wf_tables_def refs_ok_def image_subset_iff)
  qed
  then have "e_id x \<notin> m_objects_id ` set (chunk_manifest (db w'))"
    using new catalog_ids_wf [OF wf, of U] framesD' [OF Put_manifest assms(2)] by auto
  then have none: "chunks_of (db w') (e_id x) = []"
    by (force simp: chunks_of_def filter_empty_conv)
  from x obtain r where r: "r \<in> set (objects (db w'))" "o_storage_locator r = loc" and "o_id r = e_id x"
    by (auto simp: catalog_set dest!: row_entry_SomeD)
  then have "r \<in> set (filter (\<lambda>r. o_storage_locator r = loc) (objects (db w')))" by simp
  then have "r' = r" if "filter (\<lambda>r. o_storage_locator r = loc) (objects (db w')) = [r']" for r'
    using that by simp
  then have "chunks_of (db w') (o_id r') = []"
    if "filter (\<lambda>r. o_storage_locator r = loc) (objects (db w')) = [r']" for r'
    using that none \<open>o_id r = e_id x\<close> by metis
  then have "object_chunks (db w') loc = []" by (simp add: object_chunks_def split: list.split)
  then show ?thesis by (simp add: object_data_def)
qed

text \<open>A request to add an object without a user, without metadata, without data or with an
  unknown data type is refused before any repository is called.\<close>

theorem add_sealed_guards:
  assumes "u = '''' \<or> mp = None \<or> bs = [] \<or> \<not> storable_type (MetaDataType (the mp))"
  shows "\<exists>e. AddSealed s c u mp bs w = (Err e, w)"
  using assms by (auto simp: AddSealed_def storable_type_def comp_simps split: option.split)

theorem add_sealed_guards_witness:
  "\<exists>e. AddSealed (server_service demo_uuid) context_Background ''1'' (Some demo_card) [] (demo_world [])
     = (Err e, demo_world [])"
  by (rule add_sealed_guards) simp

text \<open>When adding an object succeeds, the catalog has one more entry for the user (and
  possibly copies of it left by retried attempts), under a new id, which is the one returned,
  and no other entry changes.\<close>

theorem add_sealed_catalogs:
  assumes "wf_world w" and "AddSealed (server_service U) c u mp bs w = (Ok i, w')"
  shows "\<exists>m loc k x xs. mp = Some m \<and> uuid_Parse U u = Some k \<and> strings_HasPrefix loc ''pg'' \<and>
    catalog_of U (db w') = catalog_of U (db w) @ xs @ [x] \<and> copies k (m\<lparr>MetaUserID := u\<rparr>) loc (xs @ [x]) \<and>
    ID (Meta (e_ml x)) = i \<and> e_id x \<notin> e_id ` set (catalog_of U (db w))"
  by (rule server_keeper.AddSealed_catalog [OF assms])


lemmas demo_add_simps = AddSealed_def NewService_def NewMetadataRepository_def MetadataRepository_Put_def router_repo_def
      StoreRouter_Put_def pickByType_def router_New_def reposByType_def invoke_def NewObjectRepository_def
      SealedRepo_Put_def bytes_NewReader_def with_timeout_def WithRetry.simps putLogic_def put_tx_def call_def
      comp_simps deferring_def looping_def ToPgUUID_def demo_uuid_1 pool_Begin_def pool_exec_reliable
      ctx_Err_with_timeout run_stmt_def sql_Begin_def put_loop.simps putHelper_def reader_Read_def int32_id
      GenerateSHA256_def tx_exec_def next_event_def after_event_def run_in_tx_def sql_InsertBlob_def
      sql_PutManifest_def tx_Commit_def commit_tables_def tx_Rollback_def sql_PutMetadata_def
      DataTypeUnspecified_def DataTypeAuthenticationCredentials_def DataTypeBinary_def
      demo_object_world_def demo_catalog_defs Let_def

lemma demo_add:
  obtains i w' where "AddSealed (server_service demo_uuid) context_Background ''1'' (Some (demo_card\<lparr>ID := ''1''\<rparr>))
    [1, 2] demo_object_world = (Ok i, w')"
  by (simp add: demo_add_simps)

lemma demo_add_as:
  obtains i w' where "AddSealed (server_service demo_uuid) (context_WithValue_UserID context_Background v) ''1'' (Some (demo_card\<lparr>ID := ''1''\<rparr>))
    [1, 2] demo_object_world = (Ok i, w')"
  by (simp add: demo_add_simps)

theorem add_sealed_catalogs_witness:
  "\<exists>i w' x xs. AddSealed (server_service demo_uuid) context_Background ''1'' (Some (demo_card\<lparr>ID := ''1''\<rparr>))
       [1, 2] demo_object_world = (Ok i, w') \<and>
     catalog_of demo_uuid (db w') = catalog_of demo_uuid (db demo_object_world) @ xs @ [x]"
proof (rule demo_add)
  fix i w'
  assume run: "AddSealed (server_service demo_uuid) context_Background ''1'' (Some (demo_card\<lparr>ID := ''1''\<rparr>))
    [1, 2] demo_object_world = (Ok i, w')"
  from add_sealed_catalogs [OF wf_demo_object_world run] run show ?thesis by blast
qed


text \<open>A working network stays so under the two-second contexts of the service.\<close>

lemma reliable_timeout: "reliable c w \<Longrightarrow> reliable (context_WithTimeout c RepoOperationTO (now w)) w"
  using ctx_Err_with_timeout by (simp add: reliable_def)

lemma server_access:
  assumes "reliable c w" and "wf_world w" and "x \<in> set (catalog_of U (db w))"
    and "uuid_Parse U i = Some (e_id x)" and "i \<noteq> ''''" and "strings_HasPrefix (Locator (e_ml x)) ''pg''"
  shows "fst (GetSealed (server_service U) c i cb w) = Panic nil_deref"
    and "\<exists>w'. Service_Delete (server_service U) c i w = (Panic nil_deref, w') \<and>
       catalog_of U (db w') = filter (\<lambda>y. e_id y \<noteq> e_id x) (catalog_of U (db w))"
proof -
  note rel = reliable_timeout [OF assms(1)]
  note defs = NewService_def NewMetadataRepository_def router_repo_def with_timeout_def call_def
  show "fst (GetSealed (server_service U) c i cb w) = Panic nil_deref"
    using Get_live [OF rel assms(2-4)] assms(5,6)
    by (simp add: GetSealed_def getSealedHelper_def StoreRouter_Get_New defs)
  show "\<exists>w'. Service_Delete (server_service U) c i w = (Panic nil_deref, w') \<and>
       catalog_of U (db w') = filter (\<lambda>y. e_id y \<noteq> e_id x) (catalog_of U (db w))"
    using Delete_live [OF rel assms(2-4)] assms(5,6)
    by (simp add: Service_Delete_def StoreRouter_Delete_New delete_objects_catalog defs)
qed

text \<open>C35: On a working network, reading or deleting an object whose locator starts with
  \<open>pg\<close>, as every locator the server hands out does, brings the server down: the router
  calls a nil storage.  The deletion has removed the object from the catalog by then.\<close>

theorem server_object_access_crashes:
  assumes "reliable c w" and "wf_world w" and "x \<in> set (catalog_of U (db w))"
    and "uuid_Parse U i = Some (e_id x)" and "i \<noteq> ''''" and "strings_HasPrefix (Locator (e_ml x)) ''pg''"
  shows "fst (GetSealed (server_service U) c i cb w) = Panic nil_deref \<and>
    (\<exists>w'. Service_Delete (server_service U) c i w = (Panic nil_deref, w') \<and>
       catalog_of U (db w') = filter (\<lambda>y. e_id y \<noteq> e_id x) (catalog_of U (db w)))"
  using server_access [OF assms] by blast

lemma demo_object_entry:
  "\<exists>x \<in> set (catalog_of demo_uuid (db demo_object_world)). e_id x = 1 \<and> Locator (e_ml x) = ''pg://7''"
  by (simp add: catalog_of_def demo_object_world_def demo_user_world_def demo_world_def migrated_def map_filter_simps
      row_entry_def join_type_def data_type_name_def row_MetaLoc_def)

theorem server_object_access_crashes_witness:
  "fst (GetSealed (server_service demo_uuid) context_Background ''1'' (\<lambda>_ _. ret ()) demo_object_world) = Panic nil_deref"
proof -
  from demo_object_entry obtain x where "x \<in> set (catalog_of demo_uuid (db demo_object_world))"
    "uuid_Parse demo_uuid ''1'' = Some (e_id x)" "strings_HasPrefix (Locator (e_ml x)) ''pg''"
    by (auto simp: demo_uuid_1 strings_HasPrefix_def)
  moreover have "reliable context_Background demo_object_world"
    by (simp add: reliable_def demo_object_world_def demo_catalog_world_def demo_user_world_def demo_world_def)
  ultimately show ?thesis
    using server_object_access_crashes [OF _ wf_demo_object_world] by auto
qed

text \<open>Over the database directly, without the router, a successful read hands the callback
  the catalogued metadata of the object asked for together with the content stored under its
  locator, once, before anything changed in the tables.\<close>

theorem get_sealed_delivers:
  assumes "GetSealed (pg_service U) c i cb w = (Ok (), w')"
  shows "\<exists>x \<in> set (catalog_of U (db w)). uuid_Parse U i = Some (e_id x) \<and>
    (\<exists>v. db v = db w \<and> cb (Meta (e_ml x)) (object_data (db w) (Locator (e_ml x))) v = (Ok (), w'))"
  by (rule pg_keeper.GetSealed_Ok [OF assms])

theorem get_sealed_delivers_witness:
  "\<exists>w'. GetSealed (pg_service demo_uuid) context_Background ''1'' (\<lambda>_ _. ret ()) demo_object_world = (Ok (), w') \<and>
     (\<exists>x \<in> set (catalog_of demo_uuid (db demo_object_world)). uuid_Parse demo_uuid ''1'' = Some (e_id x))"
proof -
  obtain w' where run: "GetSealed (pg_service demo_uuid) context_Background ''1'' (\<lambda>_ _. ret ()) demo_object_world = (Ok (), w')"
    by (simp add: GetSealed_def getSealedHelper_def NewService_def NewMetadataRepository_def MetadataRepository_Get_def
        NewObjectRepository_def SealedRepo_Get_eq get_pipe_def ret_join_def errors_Join_def map_filter_simps with_timeout_def
        WithRetry.simps call_def comp_simps ToPgUUID_def demo_uuid_1 pool_exec_reliable ctx_Err_with_timeout run_stmt_def
        sql_GetMetadata_def join_type_def data_type_name_def sql_getQuery_def chunks_of_def
        demo_object_world_def demo_catalog_defs)
  from get_sealed_delivers [OF run] run show ?thesis by blast
qed


section \<open>Every operation returns\<close>

text \<open>A storage that answers every request lets every operation of the service return: the loop
  of \<open>Sync\<close> runs over the list it fetched, and the size of the data is positive, so that the copying
  loop of \<open>Put\<close> ends.  The router of the server is no such storage, as it panics on reading and
  deleting; the repositories behind it are.\<close>

lemma total_with_timeout [total_rules]: "(\<And>c'. total (f c')) \<Longrightarrow> total (with_timeout c f)"
  by (simp add: total_def with_timeout_def)

lemma total_bytes_NewReader [total_rules]: "total (bytes_NewReader bs)"
  by (simp add: total_def bytes_NewReader_def)

lemma total_ret_join [total_rules]: "total (ret_join x es)"
  unfolding ret_join_def by (intro total_rules)

lemma total_sync_loop:
  assumes "\<And>c' loc. total (getSealedHelper s c' loc)" and "\<And>m bs. total (cb m bs)"
  shows "total (sync_loop s c mode cb mls)"
proof (induction mls)
  case (Cons ml mls)
  then have "total (call (getSealedHelper s c (Locator ml)) fail (\<lambda>sealed.
      call (cb (Meta ml) sealed) (wrapping ''metadata and data grpc stream write callback failed'') (\<lambda>_.
      sync_loop s c mode cb mls)))"
    by (intro total_rules assms)
  then show ?case by (auto simp: total_def split: option.split)
qed (simp add: total_rules)

locale answering_storage = keeper_storage +
  assumes get_total: "total (or_Get R c loc)" and delete_total: "total (or_Delete R c loc)"
begin

lemma undo_put_total: "total (undo_put service c loc e)"
  unfolding undo_put_def NewService_def by (intro total_rules) (simp add: delete_total)

lemma AddSealed_total:
  assumes "length bs < 2 ^ 31"
  shows "total (AddSealed service c u mp bs)"
proof -
  have "int32 (int (length bs)) = int (length bs)" using assms by (simp add: int32_id)
  then have "bs \<noteq> [] \<Longrightarrow> total (or_Put R c' m r (int32 (int (length bs))) sha)" for c' m r sha
    using assms by (intro obj.put_total) auto
  then show ?thesis
    unfolding AddSealed_def Let_def
    by (intro total_rules undo_put_total) (simp_all add: NewService_def meta.put_total)
qed

lemma getSealedHelper_total: "total (getSealedHelper service c loc)"
proof -
  have "total (call (rc_ReadAll rc) (\<lambda>e. ret_join [] [Some (Wrap ''failed to read object'' e), rc_Close rc])
      (\<lambda>sealed. ret_join sealed [None, rc_Close rc]))" if "or_Get R c' loc v = (Ok rc, v1)" for c' v rc v1
    by (intro total_rules obj.read_total [OF that])
  then show ?thesis
    unfolding getSealedHelper_def NewService_def Service.select_convs
    by (intro total_with_timeout total_call_from [of "or_Get R c' loc" for c']) (simp_all add: get_total total_simple)
qed

lemma GetSealed_total: "(\<And>m bs. total (cb m bs)) \<Longrightarrow> total (GetSealed service c i cb)"
  unfolding GetSealed_def
  by (intro total_rules getSealedHelper_total) (simp add: NewService_def meta.get_total)

lemma List_total: "total (Service_List service c u)"
  unfolding Service_List_def by (intro total_rules) (simp add: NewService_def meta.list_total)

lemma Delete_total: "total (Service_Delete service c i)"
  unfolding Service_Delete_def
  by (intro total_rules) (simp_all add: NewService_def meta.delete_total delete_total)

lemma Sync_total: "(\<And>m bs. total (cb m bs)) \<Longrightarrow> total (Service_Sync service c u mode cb)"
  unfolding Service_Sync_def
  by (intro total_rules total_sync_loop getSealedHelper_total) (simp_all add: NewService_def meta.list_total)

end

interpretation pg_answers: answering_storage "NewObjectRepository U" "\<lambda>w. object_data (db w)" "NewMetadataRepository U"
  "uuid_Parse U" "uuid_String U" "\<lambda>w. catalog_of U (db w)" for U
proof
  show "total (or_Get (NewObjectRepository U) c loc)" for c loc
    by (simp add: NewObjectRepository_def SealedRepo_Get_eq total_def)
  show "total (or_Delete (NewObjectRepository U) c loc)" for c loc
    by (simp add: NewObjectRepository_def Delete_object_total)
qed

text \<open>C31: Over the database, every operation of the service returns, with a value or an error, whatever
  the network does and whatever the tables hold: it neither hangs nor panics.  \<open>AddSealed\<close> needs data
  shorter than two gigabytes, whose length survives the conversion to a 32-bit size; \<open>GetSealed\<close> and
  \<open>Sync\<close> need a callback that returns.\<close>

theorem service_returns:
  assumes "length bs < 2 ^ 31" and "\<And>m d v. returns (fst (cb m d v))"
  shows "returns (fst (AddSealed (pg_service U) c u mp bs w)) \<and> returns (fst (GetSealed (pg_service U) c i cb w)) \<and>
    returns (fst (Service_List (pg_service U) c u w)) \<and> returns (fst (Service_Delete (pg_service U) c i w)) \<and>
    returns (fst (Service_Sync (pg_service U) c u mode cb w))"
proof -
  have "total (cb m d)" for m d using assms(2) by (simp add: total_def)
  with assms(1) show ?thesis
    by (intro conjI totalD pg_answers.AddSealed_total pg_answers.GetSealed_total pg_answers.List_total
        pg_answers.Delete_total pg_answers.Sync_total)
qed

theorem service_returns_witness:
  "returns (fst (AddSealed (pg_service demo_uuid) context_Background ''1'' (Some demo_card) [1, 2, 3] (demo_world []))) \<and>
   returns (fst (Service_Sync (pg_service demo_uuid) context_Background ''1'' SyncModeShort (\<lambda>_ _. ret ()) (demo_world [])))"
  using service_returns [of "[1, 2, 3]" "\<lambda>_ _. ret ()" demo_uuid context_Background "''1''" "Some demo_card" "demo_world []"]
  by (simp add: comp_simps)

end
