(* ===== verification/Converter.thy ===== *)
theory Converter
  imports Proto
begin

text \<open>
  Package \<open>metadata\<close> (\<open>src/internal/adapters/grpc/metadata/converter.go\<close>): the
  conversions between the protobuf metadata and the domain metadata.  The conversions of
  time stamps are those of the protobuf runtime, the argument \<open>T\<close>.
\<close>

definition FromProtoMetadata :: "timestamp_lib \<Rightarrow> pb_Metadata option \<Rightarrow> Metadata result" where
  "FromProtoMetadata T m =
     (if m = None then Err (ErrNew ''nil proto metadata'')
      else
        let dt = Metadata_GetDataType m in
        rcall (if dt = Metadata_DATA_TYPE_AUTH then Ok DataTypeAuthenticationCredentials
               else if dt = Metadata_DATA_TYPE_CARD then Ok DataTypeCard
               else if dt = Metadata_DATA_TYPE_BINARY then Ok DataTypeBinary
               else Err (ErrNew ''unknown metadata type'')) Err (\<lambda>dt.
        let created = (case Metadata_GetCreatedAt m of
              None \<Rightarrow> zero_time
            | Some ts \<Rightarrow> timestamp_AsTime T ts);
            chunkDescriptor = (case Metadata_GetChunkDescriptor m of
              None \<Rightarrow> None
            | Some cm \<Rightarrow> Some \<lparr>Offset = ChunkDescriptor_GetOffset (Some cm),
                CRC32C = ChunkDescriptor_GetCrc32C (Some cm),
                Last = ChunkDescriptor_GetLast (Some cm)\<rparr>)
        in Ok \<lparr>CreatedAt = created, ChunkDesc = chunkDescriptor,
               Description = Metadata_GetDescription m, Name = Metadata_GetName m,
               MetaUserID = '''', MetaDataType = dt, ID = Metadata_GetId m\<rparr>))"

definition ToProtoMetadata :: "timestamp_lib \<Rightarrow> Metadata option \<Rightarrow> pb_Metadata option" where
  "ToProtoMetadata T mo =
     (case mo of
        None \<Rightarrow> None
      | Some m \<Rightarrow>
          let pdt = (if MetaDataType m = DataTypeAuthenticationCredentials then Metadata_DATA_TYPE_AUTH
                     else if MetaDataType m = DataTypeCard then Metadata_DATA_TYPE_CARD
                     else if MetaDataType m = DataTypeBinary then Metadata_DATA_TYPE_BINARY
                     else Metadata_DATA_TYPE_UNSPECIFIED);
              cd = (case ChunkDesc m of
                  None \<Rightarrow> None
                | Some x \<Rightarrow> Some \<lparr>pb_Offset = Some (Offset x), pb_Last = Some (Last x),
                    pb_Crc32C = Some (CRC32C x)\<rparr>)
          in Some \<lparr>pb_DataType = Some pdt, pb_Id = Some (ID m), pb_Name = Some (Name m),
                   pb_Description = Some (Description m),
                   pb_CreatedAt = Some (timestamppb_New T (CreatedAt m)), pb_ChunkDesc = cd\<rparr>)"

section \<open>Properties\<close>

text \<open>The documented behaviour of the time stamp conversions, and functions that have it.\<close>

definition timestamp_roundtrip :: "timestamp_lib \<Rightarrow> bool" where
  "timestamp_roundtrip T \<longleftrightarrow> (\<forall>t. timestamp_AsTime T (timestamppb_New T t) = t)"

definition demo_timestamp :: timestamp_lib where
  "demo_timestamp = \<lparr>
     timestamppb_New = (\<lambda>t. \<lparr>ts_Seconds = t div second, ts_Nanos = t mod second\<rparr>),
     timestamp_AsTime = (\<lambda>ts. ts_Seconds ts * second + ts_Nanos ts)\<rparr>"

lemma demo_timestamp_roundtrip: "timestamp_roundtrip demo_timestamp"
  by (simp add: timestamp_roundtrip_def demo_timestamp_def)

definition demo_metadata :: Metadata where
  "demo_metadata = \<lparr>CreatedAt = 5, ChunkDesc = Some \<lparr>Offset = 7, CRC32C = 9, Last = True\<rparr>,
     Description = ''d'', Name = ''n'', MetaUserID = ''u'', MetaDataType = DataTypeBinary,
     ID = ''i''\<rparr>"

text \<open>C24: Converting domain metadata of a storable type to protobuf and back gives the same
  metadata, the owner excepted: the wire format does not carry the user, who comes from the
  access token.\<close>

theorem metadata_roundtrip:
  assumes "timestamp_roundtrip T" and "storable_type (MetaDataType m)"
  shows "FromProtoMetadata T (ToProtoMetadata T (Some m)) = Ok (m\<lparr>MetaUserID := ''''\<rparr>)"
  using assms
  by (cases m; cases "ChunkDesc m")
     (auto simp: FromProtoMetadata_def ToProtoMetadata_def metadata_getters pb_data_type_defs
       storable_type_def timestamp_roundtrip_def Let_def)

theorem metadata_roundtrip_witness:
  "FromProtoMetadata demo_timestamp (ToProtoMetadata demo_timestamp (Some demo_metadata))
     = Ok (demo_metadata\<lparr>MetaUserID := ''''\<rparr>)"
  by (rule metadata_roundtrip [OF demo_timestamp_roundtrip])
     (simp add: demo_metadata_def storable_type_def)

text \<open>A protobuf message is rejected exactly when it is nil or its data type is not one
  of AUTH, CARD and BINARY; otherwise the result has a storable type, no owner, and the id,
  name and description of the message.\<close>

theorem FromProtoMetadata_cases:
  "FromProtoMetadata T p =
     (case p of
        None \<Rightarrow> Err (ErrNew ''nil proto metadata'')
      | Some q \<Rightarrow>
          if pb_DataType q \<in> {Some 1, Some 2, Some 3} then Ok \<lparr>
              CreatedAt = (case pb_CreatedAt q of None \<Rightarrow> zero_time | Some ts \<Rightarrow> timestamp_AsTime T ts),
              ChunkDesc = map_option (\<lambda>c. \<lparr>Offset = or_zero 0 (pb_Offset c),
                CRC32C = or_zero 0 (pb_Crc32C c), Last = or_zero False (pb_Last c)\<rparr>) (pb_ChunkDesc q),
              Description = or_zero '''' (pb_Description q), Name = or_zero '''' (pb_Name q),
              MetaUserID = '''',
              MetaDataType = [DataTypeAuthenticationCredentials, DataTypeCard, DataTypeBinary] !
                (nat (the (pb_DataType q)) - 1),
              ID = or_zero '''' (pb_Id q)\<rparr>
          else Err (ErrNew ''unknown metadata type''))"
proof (cases p)
  case (Some q)
  show ?thesis
  proof (cases "pb_DataType q")
    case None
    with Some show ?thesis
      by (simp add: FromProtoMetadata_def metadata_getters pb_data_type_defs)
  next
    case dt: (Some d)
    consider "d = 1" | "d = 2" | "d = 3" | "d \<notin> {1, 2, 3}" by auto
    then show ?thesis
      by cases (use Some dt in \<open>auto simp: FromProtoMetadata_def metadata_getters pb_data_type_defs
          split: option.splits\<close>)
  qed
qed (simp add: FromProtoMetadata_def)

lemma FromProtoMetadata_storable:
  "FromProtoMetadata T p = Ok m \<Longrightarrow> storable_type (MetaDataType m) \<and> MetaUserID m = ''''"
  by (auto simp: FromProtoMetadata_def storable_type_def Let_def rcall_Ok_iff split: if_splits)

end
