(* ===== verification/Token_Repo.thy ===== *)
theory Token_Repo
  imports User_Repo
begin

text \<open>
  \<open>src/internal/repo/db/token_repo.go\<close>, the store of refresh tokens, and the
  interface \<open>session.RefreshTokenStorage\<close> it implements.  The locale states what the
  session manager may rely on; its interpretation at the end shows that the repository
  provides it, whatever the network does.
\<close>

section \<open>The repository\<close>

definition TokenRepository_Save ::
  "uuid_lib \<Rightarrow> ctx \<Rightarrow> slice \<Rightarrow> UserID \<Rightarrow> time \<Rightarrow> (world, unit) comp" where
  "TokenRepository_Save U c tokenHash userID expiresAt =
     WithRetry
       (call (pure_call (ToPgUUID U userID)) (wrapping msgWrongUserID) (\<lambda>userUUID.
        call (pool_exec c (sql_Save userUUID tokenHash expiresAt)) (wrapping ''queries.Save failed'')
        ret)) 0"

definition TokenRepository_Validate ::
  "uuid_lib \<Rightarrow> ctx \<Rightarrow> slice \<Rightarrow> UserID \<Rightarrow> (world, unit) comp" where
  "TokenRepository_Validate U c tokenHash userID =
     WithRetry
       (call (pure_call (ToPgUUID U userID)) (wrapping msgWrongUserID) (\<lambda>userUUID.
        call (pool_exec c (sql_Validate tokenHash userUUID)) (wrapping ''queries.Validate failed'') (\<lambda>ok.
        if \<not> ok then fail (ErrNew ''invalid token'') else ret ()))) 0"

definition TokenRepository_Delete :: "ctx \<Rightarrow> slice \<Rightarrow> (world, unit) comp" where
  "TokenRepository_Delete c tokenHash =
     WithRetry
       (call (pool_exec c (sql_DeleteToken tokenHash)) (wrapping ''queries.Delete failed'') ret) 0"

section \<open>The interface\<close>

record RefreshTokenStorage =
  rts_Save :: "ctx \<Rightarrow> slice \<Rightarrow> UserID \<Rightarrow> time \<Rightarrow> (world, unit) comp"
  rts_Validate :: "ctx \<Rightarrow> slice \<Rightarrow> UserID \<Rightarrow> (world, unit) comp"
  rts_Delete :: "ctx \<Rightarrow> slice \<Rightarrow> (world, unit) comp"

definition NewTokenRepository :: "uuid_lib \<Rightarrow> RefreshTokenStorage" where
  "NewTokenRepository U = \<lparr>rts_Save = TokenRepository_Save U,
     rts_Validate = TokenRepository_Validate U, rts_Delete = TokenRepository_Delete\<rparr>"

text \<open>
  The contract.  \<open>holds w h u e\<close> says that token \<open>h\<close> is stored for user \<open>u\<close>
  with expiry \<open>e\<close>, and \<open>known w u\<close> that tokens may be stored for \<open>u\<close>.
\<close>

definition other_than_tokens :: "tables \<Rightarrow> tables" where
  "other_than_tokens t = t\<lparr>refresh_tokens := []\<rparr>"

locale refresh_token_storage =
  fixes st :: RefreshTokenStorage
    and holds :: "world \<Rightarrow> bytes \<Rightarrow> UserID \<Rightarrow> time \<Rightarrow> bool"
    and known :: "world \<Rightarrow> UserID \<Rightarrow> bool"
  assumes holds_db: "db v = db w \<Longrightarrow> holds v h u e = holds w h u e"
    and save_Ok: "rts_Save st c (Some h) u e w = (Ok y, w') \<Longrightarrow> holds w' h u e"
    and save_other: "rts_Save st c (Some h) u e w = (r, w') \<Longrightarrow> h' \<noteq> h \<Longrightarrow>
      holds w' h' u' e' = holds w h' u' e'"
    and save_live: "reliable c w \<Longrightarrow> known w u \<Longrightarrow> \<exists>w'. rts_Save st c (Some h) u e w = (Ok (), w')"
    and save_keeps: "keeps wf_world (rts_Save st c s u e)"
    and save_frames: "frames (\<lambda>w. other_than_tokens (db w)) (rts_Save st c s u e)"
    and validate_sound: "rts_Validate st c s u w = (Ok y, w') \<Longrightarrow>
      \<exists>h e. s = Some h \<and> holds w h u e \<and> now w' < e"
    and validate_live: "reliable c w \<Longrightarrow> holds w h u e \<Longrightarrow> now w < e \<Longrightarrow>
      \<exists>w'. rts_Validate st c (Some h) u w = (Ok (), w')"
    and validate_frames: "frames db (rts_Validate st c s u)"
    and delete_Ok: "rts_Delete st c (Some h) w = (Ok y, w') \<Longrightarrow> \<not> holds w' h u e"
    and delete_other: "rts_Delete st c s w = (r, w') \<Longrightarrow> s \<noteq> Some h \<Longrightarrow> holds w' h u e = holds w h u e"
    and delete_live: "reliable c w \<Longrightarrow> \<exists>w'. rts_Delete st c s w = (Ok (), w')"
    and delete_keeps: "keeps wf_world (rts_Delete st c s)"
    and delete_frames: "frames (\<lambda>w. other_than_tokens (db w)) (rts_Delete st c s)"
    and save_total: "total (rts_Save st c s u e)"
    and delete_total: "total (rts_Delete st c s)"

section \<open>The repository meets the contract\<close>

definition token_holds :: "uuid_lib \<Rightarrow> world \<Rightarrow> bytes \<Rightarrow> UserID \<Rightarrow> time \<Rightarrow> bool" where
  "token_holds U w h u e \<longleftrightarrow>
     (case uuid_Parse U u of
        None \<Rightarrow> False
      | Some uid \<Rightarrow> \<lparr>t_user_id = uid, t_token_hash = h, t_expires_at = e\<rparr> \<in> set (refresh_tokens (db w)))"

lemma in_upsert: "r \<in> set (upsert_token r rs)"
  by (auto simp: upsert_token_def image_iff)

lemma in_upsert_other:
  "t_token_hash s \<noteq> t_token_hash r \<Longrightarrow> s \<in> set (upsert_token r rs) \<longleftrightarrow> s \<in> set rs"
  by (auto simp: upsert_token_def image_iff)

text \<open>The tokens with another hash are untouched by a statement.\<close>

definition other_tokens :: "slice \<Rightarrow> tables \<Rightarrow> token_row set" where
  "other_tokens s t = {r \<in> set (refresh_tokens t). Some (t_token_hash r) \<noteq> s}"

lemma token_holds_other:
  assumes "Some h \<noteq> s" and "other_tokens s (db w) = other_tokens s (db w')"
  shows "token_holds U w h u e = token_holds U w' h u e"
proof -
  let ?r = "\<lambda>uid. \<lparr>t_user_id = uid, t_token_hash = h, t_expires_at = e\<rparr>"
  have "?r uid \<in> set (refresh_tokens (db v)) \<longleftrightarrow> ?r uid \<in> other_tokens s (db v)" for uid and v :: world
    using assms(1) by (simp add: other_tokens_def)
  then show ?thesis
    using assms(2) by (simp add: token_holds_def split: option.split)
qed

lemma sql_Save_other: "other_tokens s (snd (sql_Save u s e fresh at t)) = other_tokens s t"
  by (auto simp: sql_Save_def other_tokens_def in_upsert_other split: option.splits)

lemma sql_DeleteToken_other: "other_tokens s (snd (sql_DeleteToken s fresh at t)) = other_tokens s t"
  by (auto simp: sql_DeleteToken_def other_tokens_def)

lemma Save_frames: "frames (\<lambda>w. other_tokens s (db w)) (TokenRepository_Save U c s u e)"
  unfolding TokenRepository_Save_def
  by (intro WithRetry_frames frames_rules pool_exec_db sql_Save_other) simp

lemma Delete_frames: "frames (\<lambda>w. other_tokens s (db w)) (TokenRepository_Delete c s)"
  unfolding TokenRepository_Delete_def
  by (intro WithRetry_frames frames_rules pool_exec_db sql_DeleteToken_other) simp

lemma Validate_frames: "frames db (TokenRepository_Validate U c s u)"
  unfolding TokenRepository_Validate_def
  by (intro WithRetry_frames frames_rules pool_exec_db [where f = "\<lambda>t. t"])
     (simp_all add: sql_Validate_def)

lemma Save_others: "frames (\<lambda>w. other_than_tokens (db w)) (TokenRepository_Save U c s u e)"
  unfolding TokenRepository_Save_def
  by (intro WithRetry_frames frames_rules pool_exec_db)
     (simp_all add: sql_Save_def other_than_tokens_def split: option.split)

lemma Delete_others: "frames (\<lambda>w. other_than_tokens (db w)) (TokenRepository_Delete c s)"
  unfolding TokenRepository_Delete_def
  by (intro WithRetry_frames frames_rules pool_exec_db) (simp_all add: sql_DeleteToken_def other_than_tokens_def)

lemma Save_total: "total (TokenRepository_Save U c s u e)"
  unfolding TokenRepository_Save_def by (intro total_rules)

lemma Token_Delete_total: "total (TokenRepository_Delete c s)"
  unfolding TokenRepository_Delete_def by (intro total_rules)

lemma Save_wf: "keeps wf_world (TokenRepository_Save U c s u e)"
  unfolding TokenRepository_Save_def by (intro keeps_rules stmt_keeps)

lemma Delete_wf: "keeps wf_world (TokenRepository_Delete c s)"
  unfolding TokenRepository_Delete_def by (intro keeps_rules stmt_keeps)

lemma Save_Ok:
  assumes "TokenRepository_Save U c (Some h) u e w = (Ok y, w')"
  shows "token_holds U w' h u e"
proof -
  from assms obtain v where "call (pure_call (ToPgUUID U u)) (wrapping msgWrongUserID) (\<lambda>userUUID.
      call (pool_exec c (sql_Save userUUID (Some h) e)) (wrapping ''queries.Save failed'') ret) v = (Ok y, w')"
    unfolding TokenRepository_Save_def
    by (rule WithRetry_OkE [where I = "\<lambda>_. True"]) (simp_all add: keeps_def)
  then obtain uid v1 where "uuid_Parse U u = Some uid"
    and "pool_exec c (sql_Save uid (Some h) e) v1 = (Ok (), w')"
    by (elim call_OkE) (auto simp: comp_simps ToPgUUID_Ok)
  then show ?thesis
    by (elim pool_exec_OkE) (auto simp: token_holds_def sql_Save_def in_upsert split: if_splits)
qed

lemma Validate_sound:
  assumes "TokenRepository_Validate U c s u w = (Ok y, w')"
  shows "\<exists>h e. s = Some h \<and> token_holds U w h u e \<and> now w' < e"
proof -
  let ?q = "call (pure_call (ToPgUUID U u)) (wrapping msgWrongUserID) (\<lambda>userUUID.
      call (pool_exec c (sql_Validate s userUUID)) (wrapping ''queries.Validate failed'') (\<lambda>ok.
      if \<not> ok then fail (ErrNew ''invalid token'') else ret ()))"
  have "frames db ?q"
    by (intro frames_rules pool_exec_db [where f = "\<lambda>t. t"]) (simp add: sql_Validate_def)
  then have "keeps (\<lambda>v. db v = db w) ?q" by (rule frames_keeps)
  then obtain v where v: "db v = db w" "?q v = (Ok y, w')"
    by (rule WithRetry_OkE [OF assms [unfolded TokenRepository_Validate_def] refl]) simp_all
  from v(2) obtain uid where "uuid_Parse U u = Some uid"
    and "pool_exec c (sql_Validate s uid) v = (Ok True, w')"
    by (elim call_OkE) (auto simp: comp_simps ToPgUUID_Ok split: if_splits)
  then show ?thesis using v(1)
    by (elim pool_exec_OkE)
       (auto simp: token_holds_def sql_Validate_def list_ex_iff, metis (full_types) token_row.surjective old.unit.exhaust)
qed

lemma Token_Delete_Ok:
  assumes "TokenRepository_Delete c (Some h) w = (Ok y, w')"
  shows "\<not> token_holds U w' h u e"
proof -
  from assms obtain v where
    "call (pool_exec c (sql_DeleteToken (Some h))) (wrapping ''queries.Delete failed'') ret v = (Ok y, w')"
    unfolding TokenRepository_Delete_def
    by (rule WithRetry_OkE [where I = "\<lambda>_. True"]) (simp_all add: keeps_def)
  then obtain v1 where "pool_exec c (sql_DeleteToken (Some h)) v1 = (Ok (), w')"
    by (elim call_OkE) (auto simp: comp_simps)
  then show ?thesis
    by (elim pool_exec_OkE) (auto simp: token_holds_def sql_DeleteToken_def split: option.splits)
qed

lemma Save_live:
  assumes "reliable c w" and "known_user U w u"
  shows "\<exists>w'. TokenRepository_Save U c (Some h) u e w = (Ok (), w')"
proof -
  from assms(2) obtain uid where uid: "uuid_Parse U u = Some uid" "uid \<in> u_id ` set (users (db w))"
    by (auto simp: known_user_def split: option.splits)
  have "\<exists>w'. pool_exec c (sql_Save uid (Some h) e) w = (Ok (), w')"
    using assms(1) uid(2) by (simp add: reliable_def pool_exec_reliable run_stmt_def sql_Save_def)
  then show ?thesis
    unfolding TokenRepository_Save_def using uid(1)
    by (elim exE, intro exI WithRetry_Ok) (simp add: comp_simps ToPgUUID_def call_def)
qed

lemma Validate_live:
  assumes "reliable c w" and "token_holds U w h u e" and "now w < e"
  shows "\<exists>w'. TokenRepository_Validate U c (Some h) u w = (Ok (), w')"
proof -
  from assms(2) obtain uid where uid: "uuid_Parse U u = Some uid"
    and row: "\<lparr>t_user_id = uid, t_token_hash = h, t_expires_at = e\<rparr> \<in> set (refresh_tokens (db w))"
    by (auto simp: token_holds_def split: option.splits)
  have "list_ex (\<lambda>r. Some (t_token_hash r) = Some h \<and> t_user_id r = uid \<and> now w < t_expires_at r)
      (refresh_tokens (db w))"
    unfolding list_ex_iff using row assms(3) by (intro bexI [OF _ row]) simp
  then have "\<exists>w'. pool_exec c (sql_Validate (Some h) uid) w = (Ok True, w')"
    using assms(1) by (simp add: reliable_def pool_exec_reliable run_stmt_def sql_Validate_def)
  then show ?thesis
    unfolding TokenRepository_Validate_def using uid
    by (elim exE, intro exI WithRetry_Ok) (simp add: comp_simps ToPgUUID_def call_def)
qed

lemma Token_Delete_live:
  assumes "reliable c w"
  shows "\<exists>w'. TokenRepository_Delete c s w = (Ok (), w')"
proof -
  have "\<exists>w'. pool_exec c (sql_DeleteToken s) w = (Ok (), w')"
    using assms by (simp add: reliable_def pool_exec_reliable run_stmt_def sql_DeleteToken_def)
  then show ?thesis
    unfolding TokenRepository_Delete_def
    by (elim exE, intro exI WithRetry_Ok) (simp add: comp_simps call_def)
qed

interpretation pg_tokens: refresh_token_storage "NewTokenRepository U" "token_holds U" "known_user U"
  for U
proof (unfold_locales, unfold NewTokenRepository_def RefreshTokenStorage.select_convs)
  fix v w :: world and h u e
  assume "db v = db w"
  then show "token_holds U v h u e = token_holds U w h u e"
    by (simp add: token_holds_def split: option.split)
next
  fix c h u e w r w' h' u' e'
  assume "TokenRepository_Save U c (Some h) u e w = (r, w')" and "h' \<noteq> h"
  then show "token_holds U w' h' u' e' = token_holds U w h' u' e'"
    using framesD' [OF Save_frames] by (metis option.inject token_holds_other)
next
  fix c s w r w' h u e
  assume "TokenRepository_Delete c s w = (r, w')" and "s \<noteq> Some h"
  then show "token_holds U w' h u e = token_holds U w h u e"
    using framesD' [OF Delete_frames] by (metis token_holds_other)
qed (fact Save_Ok Save_live Save_wf Save_others Delete_others Save_total Token_Delete_total Validate_sound Validate_live Validate_frames Token_Delete_Ok Token_Delete_live Delete_wf)+

lemma Validate_clock: "now w \<le> now (snd (TokenRepository_Validate U c s u w))"
proof -
  have "keeps (\<lambda>v. now w \<le> now v) (TokenRepository_Validate U c s u)"
    unfolding TokenRepository_Validate_def by (intro keeps_rules)
  then show ?thesis by (rule keepsD) simp
qed

end
