(* ===== verification/Jwt_Tokens.thy ===== *)
theory Jwt_Tokens
  imports Hash Model
begin

text \<open>
  Package \<open>tokens\<close> (\<open>src/pkg/tokens/tokens.go\<close>): refresh tokens are digests of
  random bytes, access tokens are JSON Web Tokens signed with HS256.  The JWT package is
  third-party: the record \<open>jwt_lib\<close>, whose parser is given the token, the key
  function, the leeway, the accepted algorithms and the current time.
\<close>

record claims =
  IssuedAt :: time
  ExpiresAt :: time
  Subject :: string

record jwt_lib =
  jwt_SignedString :: "string \<Rightarrow> claims \<Rightarrow> bytes \<Rightarrow> string result"
  jwt_ParseWithClaims ::
    "string \<Rightarrow> (string \<Rightarrow> bytes result) \<Rightarrow> int \<Rightarrow> string list \<Rightarrow> time \<Rightarrow> (claims \<times> bool) result"

definition AccessTokenExpire :: int where
  "AccessTokenExpire = 15 * 60 * second"

definition RefreshTokenExpireDays :: int where
  "RefreshTokenExpireDays = 15"

definition HS256 :: string where
  "HS256 = ''HS256''"

definition jwtLeeway :: int where
  "jwtLeeway = 10 * second"

definition tokenSize :: nat where
  "tokenSize = 32"

text \<open>In UTC a day of \<open>AddDate\<close> has 24 hours.\<close>

definition time_AddDays :: "time \<Rightarrow> int \<Rightarrow> time" where
  "time_AddDays t d = t + d * (24 * 60 * 60 * second)"

record Generator =
  secret :: bytes

definition NewGenerator :: "bytes \<Rightarrow> Generator" where
  "NewGenerator s = \<lparr>secret = s\<rparr>"

definition GenerateRefreshToken :: "Generator \<Rightarrow> ('z env_scheme, bytes option \<times> time) comp" where
  "GenerateRefreshToken g =
     call (GenerateRandom tokenSize) (wrapping ''failed to generate token'') (\<lambda>random.
     call time_Now fail (\<lambda>t.
     ret (Some (GenerateSHA256 random), time_AddDays t RefreshTokenExpireDays)))"

definition GenerateAccessToken :: "jwt_lib \<Rightarrow> Generator \<Rightarrow> UserID \<Rightarrow> ('z env_scheme, string) comp" where
  "GenerateAccessToken J g userID =
     call time_Now fail (\<lambda>iat.
     call (pure_call (jwt_SignedString J HS256
        \<lparr>IssuedAt = iat, ExpiresAt = iat + AccessTokenExpire, Subject = userID\<rparr> (secret g)))
       (wrapping ''fail JWT signing'') ret)"

text \<open>The key function given to the parser: it only accepts HS256.\<close>

definition keyfunc :: "Generator \<Rightarrow> string \<Rightarrow> bytes result" where
  "keyfunc g alg =
     (if alg \<noteq> HS256 then Err (ErrNew ''wrong signing algorithm'') else Ok (secret g))"

definition CheckAccessToken :: "jwt_lib \<Rightarrow> Generator \<Rightarrow> string \<Rightarrow> ('z env_scheme, UserID) comp" where
  "CheckAccessToken J g token =
     call time_Now fail (\<lambda>t.
     call (pure_call (jwt_ParseWithClaims J token (keyfunc g) jwtLeeway [HS256] t))
       (\<lambda>err. if errors_Is err Jwt_ErrTokenExpired then fail (Sentinel Jwt_ErrTokenExpired)
              else fail (Wrap ''invalid token'' err)) (\<lambda>(cl, valid).
     if \<not> valid then fail (ErrNew ''invalid token'') else ret (Subject cl)))"

section \<open>Lemmas\<close>

lemma GenerateRefreshToken_Ok:
  assumes "GenerateRefreshToken g w = (Ok (tok, exp), w')"
  obtains h where "tok = Some h" and "length h = 32"
    and "exp = time_AddDays (now w) RefreshTokenExpireDays"
    and "w' = w\<lparr>rnd_pos := Suc (rnd_pos w)\<rparr>"
proof -
  from assms obtain random w1 where random: "GenerateRandom tokenSize w = (Ok random, w1)"
    and "call time_Now fail (\<lambda>t. ret (Some (GenerateSHA256 random),
      time_AddDays t RefreshTokenExpireDays)) w1 = (Ok (tok, exp), w')"
    unfolding GenerateRefreshToken_def by (rule call_OkE) (simp add: comp_simps)
  then have "tok = Some (GenerateSHA256 random)" "w' = w1"
    "exp = time_AddDays (now w1) RefreshTokenExpireDays"
    by (auto simp: call_def comp_simps)
  with GenerateRandom_Ok [OF random] show thesis by (auto intro: that)
qed

lemma GenerateAccessToken_eq:
  "GenerateAccessToken J g u w =
     (case jwt_SignedString J HS256
        \<lparr>IssuedAt = now w, ExpiresAt = now w + AccessTokenExpire, Subject = u\<rparr> (secret g) of
        Ok s \<Rightarrow> (Ok s, w) | Err e \<Rightarrow> (Err (Wrap ''fail JWT signing'' e), w) | Panic p \<Rightarrow> (Panic p, w)
      | Hang \<Rightarrow> (Hang, w))"
  by (simp add: GenerateAccessToken_def call_def comp_simps split: result.split)

lemma CheckAccessToken_state: "snd (CheckAccessToken J g tok w) = w"
  by (simp add: CheckAccessToken_def call_def comp_simps split: result.split prod.split)

text \<open>
  What the JWT package documents: a token it signed parses, with the key it was signed with
  and an accepted algorithm, to claims with the same subject as long as the expiry, cut to
  whole seconds and extended by the leeway, lies in the future, and afterwards fails with
  \<open>ErrTokenExpired\<close>.
\<close>

definition numeric_date :: "time \<Rightarrow> time" where
  "numeric_date t = t div second * second"

definition jwt_verifies :: "jwt_lib \<Rightarrow> bool" where
  "jwt_verifies J \<longleftrightarrow>
     (\<forall>alg cl key tok keyf leeway methods t.
        jwt_SignedString J alg cl key = Ok tok \<longrightarrow> alg \<in> set methods \<longrightarrow> keyf alg = Ok key \<longrightarrow>
        (if t < numeric_date (ExpiresAt cl) + leeway
         then \<exists>cl'. jwt_ParseWithClaims J tok keyf leeway methods t = Ok (cl', True) \<and> Subject cl' = Subject cl
         else \<exists>e. jwt_ParseWithClaims J tok keyf leeway methods t = Err e \<and> errors_Is e Jwt_ErrTokenExpired))"

lemma CheckAccessToken_of_generated:
  assumes "jwt_verifies J" and "GenerateAccessToken J g u w = (Ok tok, w1)"
  shows "CheckAccessToken J g tok v =
    (if now v < numeric_date (now w + AccessTokenExpire) + jwtLeeway then (Ok u, v)
     else (Err (Sentinel Jwt_ErrTokenExpired), v))"
proof -
  let ?cl = "\<lparr>IssuedAt = now w, ExpiresAt = now w + AccessTokenExpire, Subject = u\<rparr>"
  have "jwt_SignedString J HS256 ?cl (secret g) = Ok tok"
    using assms(2) by (simp add: GenerateAccessToken_eq split: result.splits)
  moreover have "keyfunc g HS256 = Ok (secret g)" by (simp add: keyfunc_def)
  moreover have "HS256 \<in> set [HS256]" by simp
  ultimately have "if now v < numeric_date (ExpiresAt ?cl) + jwtLeeway
     then \<exists>cl'. jwt_ParseWithClaims J tok (keyfunc g) jwtLeeway [HS256] (now v) = Ok (cl', True) \<and>
       Subject cl' = Subject ?cl
     else \<exists>e. jwt_ParseWithClaims J tok (keyfunc g) jwtLeeway [HS256] (now v) = Err e \<and>
       errors_Is e Jwt_ErrTokenExpired"
    using assms(1) unfolding jwt_verifies_def by blast
  then show ?thesis
    by (auto simp: CheckAccessToken_def call_def comp_simps split: if_splits)
qed

section \<open>Properties\<close>

text \<open>A JWT stand-in for the witnesses: a token spells out its expiry and its subject.\<close>

definition demo_jwt :: jwt_lib where
  "demo_jwt = \<lparr>
     jwt_SignedString = (\<lambda>alg cl key.
       let e = numeric_date (ExpiresAt cl)
       in Ok ((if e < 0 then CHR ''-'' else CHR ''+'') # itoa (nat \<bar>e\<bar>) @ ''$'' @ Subject cl)),
     jwt_ParseWithClaims = (\<lambda>tok keyf leeway methods t.
       let n = int (digits_val (takeWhile is_digit (tl tok)));
           e = (if hd tok = CHR ''-'' then - n else n)
       in if t < e + leeway
          then Ok (\<lparr>IssuedAt = 0, ExpiresAt = e, Subject = tl (dropWhile is_digit (tl tok))\<rparr>, True)
          else Err (Sentinel Jwt_ErrTokenExpired))\<rparr>"

lemma demo_jwt_verifies: "jwt_verifies demo_jwt"
proof -
  have "takeWhile is_digit (itoa n @ ''$'' @ s) = itoa n" "dropWhile is_digit (itoa n @ ''$'' @ s) = ''$'' @ s"
    for n s
    by (rule takeWhile_itoa; simp add: is_digit_def)+
  then show ?thesis
    by (auto simp: jwt_verifies_def demo_jwt_def Let_def digits_val_itoa)
qed

text \<open>An access token the server issued for a user is accepted, for that user, until
  fifteen minutes after its issue (cut to whole seconds) plus ten seconds of leeway; from then
  on it is rejected, and the error is exactly \<open>ErrTokenExpired\<close>, which the interceptor
  looks for.\<close>

theorem access_token_lifetime:
  assumes "jwt_verifies J" and "GenerateAccessToken J g u w = (Ok tok, w1)"
  shows "CheckAccessToken J g tok v =
    (if now v < numeric_date (now w + AccessTokenExpire) + jwtLeeway then (Ok u, v)
     else (Err (Sentinel Jwt_ErrTokenExpired), v))"
  using assms by (rule CheckAccessToken_of_generated)

theorem access_token_lifetime_witness:
  "\<exists>tok. GenerateAccessToken demo_jwt (NewGenerator [1]) ''u'' demo_env = (Ok tok, demo_env)
    \<and> CheckAccessToken demo_jwt (NewGenerator [1]) tok demo_env = (Ok ''u'', demo_env)
    \<and> CheckAccessToken demo_jwt (NewGenerator [1]) tok (demo_env\<lparr>now := 910 * second\<rparr>)
      = (Err (Sentinel Jwt_ErrTokenExpired), demo_env\<lparr>now := 910 * second\<rparr>)"
proof -
  obtain tok where run: "GenerateAccessToken demo_jwt (NewGenerator [1]) ''u'' demo_env = (Ok tok, demo_env)"
    by (simp add: GenerateAccessToken_eq demo_jwt_def Let_def)
  have "numeric_date (now demo_env + AccessTokenExpire) + jwtLeeway = 910 * second"
    by (simp add: numeric_date_def demo_env_def AccessTokenExpire_def jwtLeeway_def second_def)
  with run show ?thesis
    using access_token_lifetime [OF demo_jwt_verifies run, of demo_env]
      access_token_lifetime [OF demo_jwt_verifies run, of "demo_env\<lparr>now := 910 * second\<rparr>"]
    by (intro exI [of _ tok]) (simp add: demo_env_def second_def)
qed

text \<open>A refresh token is a 32-byte digest that expires fifteen days after its issue; its
  generation consumes one random draw and changes nothing else.\<close>

theorem refresh_token_shape:
  assumes "GenerateRefreshToken g w = (Ok (tok, exp), w')"
  shows "\<exists>h. tok = Some h \<and> length h = 32
    \<and> exp = now w + 15 * (24 * 60 * 60 * second) \<and> w' = w\<lparr>rnd_pos := Suc (rnd_pos w)\<rparr>"
  using assms
  by (rule GenerateRefreshToken_Ok) (simp add: time_AddDays_def RefreshTokenExpireDays_def)

theorem refresh_token_shape_witness:
  "\<exists>tok exp w'. GenerateRefreshToken (NewGenerator [1]) demo_env = (Ok (tok, exp), w')
    \<and> exp = 15 * (24 * 60 * 60 * second)"
proof -
  obtain tok exp w' where run: "GenerateRefreshToken (NewGenerator [1]) demo_env = (Ok (tok, exp), w')"
    by (simp add: GenerateRefreshToken_def GenerateRandom_def call_def rand_Read_def demo_env_def
        comp_simps)
  then show ?thesis using refresh_token_shape [OF run] by (auto simp: demo_env_def)
qed

end
