(* ===== verification/Session.thy ===== *)
theory Session
  imports Token_Repo Jwt_Tokens
begin

text \<open>
  Package \<open>session\<close> (\<open>src/pkg/session/session.go\<close>): creation, refresh,
  validation and revocation of sessions over a store of refresh tokens.  The lemmas are
  proved once against the contract of the store; the properties at the end are their
  instances for the database.
\<close>

definition MDKeyAuthorisation :: string where
  "MDKeyAuthorisation = ''authorization''"

definition AuthTokenPrefix :: string where
  "AuthTokenPrefix = ''Bearer ''"

record Manager =
  storage :: RefreshTokenStorage
  issuer :: Generator

definition NewManager :: "RefreshTokenStorage \<Rightarrow> Generator \<Rightarrow> Manager" where
  "NewManager st g = \<lparr>storage = st, issuer = g\<rparr>"

definition CreateSession ::
  "jwt_lib \<Rightarrow> Manager \<Rightarrow> ctx \<Rightarrow> UserID \<Rightarrow> (world, string \<times> slice) comp" where
  "CreateSession J m c userID =
     call (GenerateAccessToken J (issuer m) userID) (wrapping ''failed to generate access token'')
       (\<lambda>accessToken.
     call (GenerateRefreshToken (issuer m)) (wrapping ''failed to generate refresh token'')
       (\<lambda>(refreshToken, expiresAt).
     call (with_timeout c (\<lambda>ctxTO. rts_Save (storage m) ctxTO refreshToken userID expiresAt))
       (wrapping ''failed to save refresh token'') (\<lambda>_.
     ret (accessToken, refreshToken))))"

definition RefreshSession ::
  "jwt_lib \<Rightarrow> Manager \<Rightarrow> ctx \<Rightarrow> UserID \<Rightarrow> slice \<Rightarrow> (world, string \<times> slice) comp" where
  "RefreshSession J m c userID oldRefreshToken =
     call (with_timeout c (\<lambda>ctxTO. rts_Delete (storage m) ctxTO oldRefreshToken))
       (wrapping ''failed to revoke old refresh token'') (\<lambda>_.
     call (CreateSession J m c userID) (wrapping ''failed to create new session'') ret)"

definition ValidateAccessToken :: "jwt_lib \<Rightarrow> Manager \<Rightarrow> string \<Rightarrow> (world, UserID) comp" where
  "ValidateAccessToken J m token = call (CheckAccessToken J (issuer m) token) fail ret"

definition ValidateRefreshToken :: "Manager \<Rightarrow> ctx \<Rightarrow> slice \<Rightarrow> UserID \<Rightarrow> (world, unit) comp" where
  "ValidateRefreshToken m c token userID =
     call (with_timeout c (\<lambda>ctxTO. rts_Validate (storage m) ctxTO token userID)) fail ret"

definition RevokeSession :: "Manager \<Rightarrow> ctx \<Rightarrow> slice \<Rightarrow> (world, unit) comp" where
  "RevokeSession m c refreshToken =
     call (with_timeout c (\<lambda>ctxTO. rts_Delete (storage m) ctxTO refreshToken))
       (wrapping ''failed to revoke refresh token'') ret"

section \<open>Sessions over any store\<close>

lemma keeps_GenerateRefreshToken [keeps_rules]: "keeps wf_world (GenerateRefreshToken g)"
  by (rule keepsI)
     (auto simp: GenerateRefreshToken_def GenerateRandom_def call_def comp_simps rand_Read_def
       Let_def wf_world_def split: sum.splits)

lemma keeps_GenerateAccessToken [keeps_rules]: "keeps I (GenerateAccessToken J g u)"
  by (rule keepsI) (simp add: GenerateAccessToken_eq split: result.split)

text \<open>The random draw of a session's refresh token succeeds, and its access token is signed.\<close>

definition can_issue :: "jwt_lib \<Rightarrow> Generator \<Rightarrow> UserID \<Rightarrow> world \<Rightarrow> bool" where
  "can_issue J g u w \<longleftrightarrow> is_Ok (fst (GenerateAccessToken J g u w)) \<and> isl (rnd_src w (rnd_pos w)) = False"

context refresh_token_storage
begin

abbreviation manager :: "Generator \<Rightarrow> Manager" where
  "manager g \<equiv> NewManager st g"

lemma CreateSession_OkE:
  assumes "CreateSession J (manager g) c u w = (Ok (a, r), w')"
  obtains h w1 where "r = Some h" and "length h = 32"
    and "rts_Save st (context_WithTimeout c RepoOperationTO (now w)) (Some h) u
      (time_AddDays (now w) RefreshTokenExpireDays) w1 = (Ok (), w')"
    and "db w1 = db w" and "GenerateAccessToken J g u w = (Ok a, w)"
proof -
  let ?save = "\<lambda>tok e. with_timeout c (\<lambda>ctxTO. rts_Save st ctxTO tok u e)"
  from assms obtain a1 w0 where a: "GenerateAccessToken J g u w = (Ok a1, w0)"
    and rest: "call (GenerateRefreshToken g) (wrapping ''failed to generate refresh token'')
       (\<lambda>(tok, e). call (?save tok e) (wrapping ''failed to save refresh token'') (\<lambda>_. ret (a1, tok))) w0
       = (Ok (a, r), w')"
    unfolding CreateSession_def NewManager_def by (elim call_OkE) (auto simp: comp_simps)
  then have w0: "w0 = w" by (simp add: GenerateAccessToken_eq split: result.splits)
  from rest obtain tok e w1 where t: "GenerateRefreshToken g w0 = (Ok (tok, e), w1)"
    and s: "call (?save tok e) (wrapping ''failed to save refresh token'') (\<lambda>_. ret (a1, tok)) w1 = (Ok (a, r), w')"
    by (elim call_OkE) (auto simp: comp_simps)
  then have sv: "rts_Save st (context_WithTimeout c RepoOperationTO (now w1)) tok u e w1 = (Ok (), w')"
    and eq: "a1 = a" "tok = r"
    by (auto elim!: call_OkE simp: comp_simps with_timeout_def)
  from t show thesis
    by (rule GenerateRefreshToken_Ok) (use sv eq a w0 in \<open>auto intro: that\<close>)
qed

lemma CreateSession_holds:
  assumes "CreateSession J (manager g) c u w = (Ok (a, r), w')"
  obtains h where "r = Some h" and "holds w' h u (time_AddDays (now w) RefreshTokenExpireDays)"
    and "\<And>h' u' e'. h' \<noteq> h \<Longrightarrow> holds w' h' u' e' = holds w h' u' e'"
  using assms
proof (rule CreateSession_OkE)
  fix h w1
  assume "r = Some h" and save: "rts_Save st (context_WithTimeout c RepoOperationTO (now w)) (Some h) u
      (time_AddDays (now w) RefreshTokenExpireDays) w1 = (Ok (), w')" and "db w1 = db w"
  then show thesis
    using save_Ok [OF save] save_other [OF save] holds_db [of w1 w] that [of h] by simp
qed

lemma CreateSession_live:
  assumes "reliable c w" and "known w u" and "can_issue J g u w"
    and known_db: "\<And>v. db v = db w \<Longrightarrow> known v u = known w u"
  shows "is_Ok (fst (CreateSession J (manager g) c u w))"
proof -
  from assms(3) obtain a where a: "GenerateAccessToken J g u w = (Ok a, w)"
    by (auto simp: can_issue_def is_Ok_iff GenerateAccessToken_eq split: result.splits)
  from assms(3) obtain f where "rnd_src w (rnd_pos w) = Inr f"
    by (cases "rnd_src w (rnd_pos w)") (auto simp: can_issue_def)
  then obtain tok e where t: "GenerateRefreshToken g w = (Ok (tok, e), w\<lparr>rnd_pos := Suc (rnd_pos w)\<rparr>)"
    by (simp add: GenerateRefreshToken_def GenerateRandom_def call_def comp_simps rand_Read_def Let_def)
  from t obtain h where h: "tok = Some h" by (auto elim: GenerateRefreshToken_Ok)
  have "reliable (context_WithTimeout c RepoOperationTO (now w)) (w\<lparr>rnd_pos := Suc (rnd_pos w)\<rparr>)"
    using assms(1) ctx_Err_with_timeout by (simp add: reliable_def)
  moreover have "known (w\<lparr>rnd_pos := Suc (rnd_pos w)\<rparr>) u"
    using assms(2) known_db [of "w\<lparr>rnd_pos := Suc (rnd_pos w)\<rparr>"] by simp
  ultimately obtain w' where "rts_Save st (context_WithTimeout c RepoOperationTO (now w)) tok u e
      (w\<lparr>rnd_pos := Suc (rnd_pos w)\<rparr>) = (Ok (), w')"
    unfolding h by (blast dest: save_live)
  with a t show ?thesis
    by (simp add: CreateSession_def NewManager_def call_def comp_simps with_timeout_def)
qed

lemma RevokeSession_revokes:
  assumes "RevokeSession (manager g) c (Some h) w = (Ok y, w')"
  shows "\<not> holds w' h u e" and "h' \<noteq> h \<Longrightarrow> holds w' h' u e = holds w h' u e"
proof -
  from assms have "rts_Delete st (context_WithTimeout c RepoOperationTO (now w)) (Some h) w = (Ok (), w')"
    unfolding RevokeSession_def NewManager_def
    by (elim call_OkE) (auto simp: comp_simps with_timeout_def)
  then show "\<not> holds w' h u e" and "h' \<noteq> h \<Longrightarrow> holds w' h' u e = holds w h' u e"
    by (auto dest: delete_Ok delete_other)
qed

lemma RefreshSession_rotates:
  assumes "RefreshSession J (manager g) c u (Some old) w = (Ok (a, r), w')"
  obtains h w1 where "r = Some h"
    and "holds w' h u (time_AddDays (now w1) RefreshTokenExpireDays)"
    and "rts_Delete st (context_WithTimeout c RepoOperationTO (now w)) (Some old) w = (Ok (), w1)"
    and "\<And>u' e'. old \<noteq> h \<Longrightarrow> \<not> holds w' old u' e'"
    and "\<And>h' u' e'. h' \<noteq> h \<Longrightarrow> h' \<noteq> old \<Longrightarrow> holds w' h' u' e' = holds w h' u' e'"
proof -
  from assms obtain w1 where
    del: "rts_Delete st (context_WithTimeout c RepoOperationTO (now w)) (Some old) w = (Ok (), w1)"
    and create: "CreateSession J (manager g) c u w1 = (Ok (a, r), w')"
    unfolding RefreshSession_def
    by (elim call_OkE) (auto simp: comp_simps with_timeout_def NewManager_def)
  have other: "holds w1 h' u' e' = holds w h' u' e'" if "h' \<noteq> old" for h' u' e'
    using delete_other [OF del] that by simp
  from create show thesis
  proof (rule CreateSession_holds)
    fix h
    assume h: "r = Some h" "holds w' h u (time_AddDays (now w1) RefreshTokenExpireDays)"
      "\<And>h' u' e'. h' \<noteq> h \<Longrightarrow> holds w' h' u' e' = holds w1 h' u' e'"
    show thesis
      by (rule that [OF h(1,2) del]) (use h(3) other delete_Ok [OF del] in simp_all)
  qed
qed

lemma ValidateRefreshToken_sound:
  assumes "ValidateRefreshToken (manager g) c s u w = (Ok y, w')"
  shows "\<exists>h e. s = Some h \<and> holds w h u e \<and> now w' < e"
proof -
  from assms have "rts_Validate st (context_WithTimeout c RepoOperationTO (now w)) s u w = (Ok (), w')"
    unfolding ValidateRefreshToken_def NewManager_def
    by (elim call_OkE) (auto simp: comp_simps with_timeout_def)
  then show ?thesis by (rule validate_sound)
qed

lemma ValidateRefreshToken_live:
  assumes "reliable c w" and "holds w h u e" and "now w < e"
  shows "\<exists>w'. ValidateRefreshToken (manager g) c (Some h) u w = (Ok (), w')"
proof -
  have "reliable (context_WithTimeout c RepoOperationTO (now w)) w"
    using assms(1) ctx_Err_with_timeout by (simp add: reliable_def)
  then obtain w' where
    "rts_Validate st (context_WithTimeout c RepoOperationTO (now w)) (Some h) u w = (Ok (), w')"
    using validate_live assms(2,3) by blast
  then show ?thesis
    by (simp add: ValidateRefreshToken_def NewManager_def call_def comp_simps with_timeout_def)
qed

lemma CreateSession_keeps: "keeps wf_world (CreateSession J (manager g) c u)"
  unfolding CreateSession_def NewManager_def by (intro keeps_rules) (simp add: save_keeps)

lemma RevokeSession_keeps: "keeps wf_world (RevokeSession (manager g) c s)"
  unfolding RevokeSession_def NewManager_def by (intro keeps_rules) (simp add: delete_keeps)

lemma RefreshSession_keeps: "keeps wf_world (RefreshSession J (manager g) c u s)"
  unfolding RefreshSession_def
  by (intro keeps_rules CreateSession_keeps) (simp add: delete_keeps NewManager_def)

end

section \<open>Properties\<close>

text \<open>The session manager of the server: the token repository over the database.\<close>

abbreviation pg_manager :: "uuid_lib \<Rightarrow> Generator \<Rightarrow> Manager" where
  "pg_manager U g \<equiv> NewManager (NewTokenRepository U) g"

lemma token_holds_unique:
  assumes "wf_world w" and "token_holds U w h u e" and "token_holds U w h u' e'"
  shows "e = e'"
proof -
  have "inj_on t_token_hash (set (refresh_tokens (db w)))"
    using assms(1) by (simp add: wf_world_def wf_tables_def keys_ok_def distinct_map)
  moreover from assms(2,3) obtain a b where
    "\<lparr>t_user_id = a, t_token_hash = h, t_expires_at = e\<rparr> \<in> set (refresh_tokens (db w))"
    "\<lparr>t_user_id = b, t_token_hash = h, t_expires_at = e'\<rparr> \<in> set (refresh_tokens (db w))"
    by (auto simp: token_holds_def split: option.splits)
  ultimately have "\<lparr>t_user_id = a, t_token_hash = h, t_expires_at = e\<rparr>
      = \<lparr>t_user_id = b, t_token_hash = h, t_expires_at = e'\<rparr>"
    by (intro inj_onD [of t_token_hash]) simp_all
  then show ?thesis by simp
qed

lemma demo_session:
  obtains a h w' where "CreateSession demo_jwt (pg_manager demo_uuid (NewGenerator [1]))
      context_Background ''1'' demo_user_world = (Ok (a, Some h), w')"
    and "net w' = []" and "now w' = 0"
  by (simp add: CreateSession_def NewManager_def NewTokenRepository_def TokenRepository_Save_def
      WithRetry.simps with_timeout_def call_def comp_simps GenerateAccessToken_eq demo_jwt_def Let_def
      GenerateRefreshToken_def GenerateRandom_def rand_Read_def demo_user_world_def demo_world_def
      ToPgUUID_def demo_uuid_1 pool_exec_reliable ctx_Err_with_timeout run_stmt_def sql_Save_def)

text \<open>The refresh token of a new session is accepted for its user exactly until its
  expiry, fifteen days after the session began, in every later world whose tables are the
  same and in which the database can be reached.\<close>

theorem session_lifetime:
  assumes "wf_world w" and "CreateSession J (pg_manager U g) c u w = (Ok (a, r), w')"
    and "db v = db w'" and "reliable c' v"
  shows "is_Ok (fst (ValidateRefreshToken (pg_manager U g) c' r u v)) \<longleftrightarrow>
    now v < time_AddDays (now w) RefreshTokenExpireDays"
proof -
  from assms(2) obtain h where h: "r = Some h"
    "token_holds U w' h u (time_AddDays (now w) RefreshTokenExpireDays)"
    by (rule pg_tokens.CreateSession_holds)
  have wf: "wf_world w'"
    using keepsD [OF pg_tokens.CreateSession_keeps assms(1), of J U g c u] assms(2) by simp
  have v: "token_holds U v h u e = token_holds U w' h u e" for e
    using assms(3) by (rule pg_tokens.holds_db)
  show ?thesis
  proof
    assume "is_Ok (fst (ValidateRefreshToken (pg_manager U g) c' r u v))"
    then obtain y v' where run: "ValidateRefreshToken (pg_manager U g) c' r u v = (Ok y, v')"
      by (auto simp: is_Ok_iff prod_eq_iff)
    from pg_tokens.ValidateRefreshToken_sound [OF run] obtain e where
      "token_holds U v h u e" "now v' < e" using h(1) by auto
    moreover have "now v \<le> now v'"
      using run Validate_clock [of v U "context_WithTimeout c' RepoOperationTO (now v)" r u]
      by (auto simp: ValidateRefreshToken_def NewManager_def NewTokenRepository_def with_timeout_def
          call_def comp_simps split: result.splits prod.splits)
    ultimately show "now v < time_AddDays (now w) RefreshTokenExpireDays"
      using token_holds_unique [OF wf h(2)] v by force
  next
    assume "now v < time_AddDays (now w) RefreshTokenExpireDays"
    then show "is_Ok (fst (ValidateRefreshToken (pg_manager U g) c' r u v))"
      using pg_tokens.ValidateRefreshToken_live [OF assms(4), of U h u _ g] h v by fastforce
  qed
qed

theorem session_lifetime_witness:
  "\<exists>a r w'. CreateSession demo_jwt (pg_manager demo_uuid (NewGenerator [1])) context_Background ''1''
       demo_user_world = (Ok (a, r), w')
     \<and> is_Ok (fst (ValidateRefreshToken (pg_manager demo_uuid (NewGenerator [1])) context_Background r ''1'' w'))"
proof -
  obtain a h w' where run: "CreateSession demo_jwt (pg_manager demo_uuid (NewGenerator [1]))
      context_Background ''1'' demo_user_world = (Ok (a, Some h), w')" and w': "net w' = []" "now w' = 0"
    by (rule demo_session)
  have "reliable context_Background w'" using w' by (simp add: reliable_def)
  with session_lifetime [OF wf_demo_user_world run refl this] w' have
    "is_Ok (fst (ValidateRefreshToken (pg_manager demo_uuid (NewGenerator [1])) context_Background
       (Some h) ''1'' w'))"
    by (simp add: time_AddDays_def RefreshTokenExpireDays_def second_def demo_user_world_def demo_world_def)
  with run show ?thesis by blast
qed

text \<open>C8: After a successful logout no network and no context can make the revoked token
  valid again, for any user; the tokens of other sessions are as they were.\<close>

theorem revoked_session_is_invalid:
  assumes "RevokeSession (pg_manager U g) c (Some h) w = (Ok y, w')"
  shows "(\<forall>v c' u. db v = db w' \<longrightarrow> \<not> is_Ok (fst (ValidateRefreshToken (pg_manager U g) c' (Some h) u v)))
    \<and> (\<forall>h' u e. h' \<noteq> h \<longrightarrow> token_holds U w' h' u e = token_holds U w h' u e)"
proof (intro conjI allI impI notI)
  fix v c' u assume v: "db v = db w'"
    and "is_Ok (fst (ValidateRefreshToken (pg_manager U g) c' (Some h) u v))"
  then obtain y v' where "ValidateRefreshToken (pg_manager U g) c' (Some h) u v = (Ok y, v')"
    by (auto simp: is_Ok_iff prod_eq_iff)
  then obtain e where "token_holds U v h u e" by (auto dest: pg_tokens.ValidateRefreshToken_sound)
  then show False
    using pg_tokens.RevokeSession_revokes(1) [OF assms] pg_tokens.holds_db [OF v] by simp
next
  fix h' u e assume "h' \<noteq> h"
  then show "token_holds U w' h' u e = token_holds U w h' u e"
    by (rule pg_tokens.RevokeSession_revokes(2) [OF assms])
qed

theorem revoked_session_is_invalid_witness:
  "\<exists>w'. RevokeSession (pg_manager demo_uuid (NewGenerator [1])) context_Background (Some [7]) demo_user_world
       = (Ok (), w')
     \<and> \<not> is_Ok (fst (ValidateRefreshToken (pg_manager demo_uuid (NewGenerator [1])) context_Background
          (Some [7]) ''1'' w'))"
proof -
  obtain w' where run: "RevokeSession (pg_manager demo_uuid (NewGenerator [1])) context_Background (Some [7])
      demo_user_world = (Ok (), w')"
    by (simp add: RevokeSession_def NewManager_def NewTokenRepository_def TokenRepository_Delete_def
        WithRetry.simps with_timeout_def call_def comp_simps demo_user_world_def demo_world_def
        pool_exec_reliable ctx_Err_with_timeout run_stmt_def sql_DeleteToken_def)
  then show ?thesis using revoked_session_is_invalid [OF run] by blast
qed


lemma demo_refresh:
  obtains a h w' where "RefreshSession demo_jwt (pg_manager demo_uuid (NewGenerator [1]))
      context_Background ''1'' (Some [7]) demo_user_world = (Ok (a, Some h), w')"
  by (simp add: RefreshSession_def CreateSession_def NewManager_def NewTokenRepository_def
      TokenRepository_Save_def TokenRepository_Delete_def
      WithRetry.simps with_timeout_def call_def comp_simps GenerateAccessToken_eq demo_jwt_def Let_def
      GenerateRefreshToken_def GenerateRandom_def rand_Read_def demo_user_world_def demo_world_def
      ToPgUUID_def demo_uuid_1 pool_exec_reliable ctx_Err_with_timeout run_stmt_def sql_Save_def
      sql_DeleteToken_def)


lemma Delete_reliable:
  assumes "reliable c w"
  shows "TokenRepository_Delete c s w = (Ok (), w\<lparr>uuid_pos := Suc (uuid_pos w), db := (db w)\<lparr>refresh_tokens :=
    filter (\<lambda>r. Some (t_token_hash r) \<noteq> s) (refresh_tokens (db w))\<rparr>\<rparr>)"
  unfolding TokenRepository_Delete_def
  by (rule WithRetry_Ok)
     (use assms in \<open>simp add: reliable_def pool_exec_reliable run_stmt_def sql_DeleteToken_def call_def comp_simps\<close>)

text \<open>C26: Refreshing does not check the old token.  For a known user, with the database in
  reach, the refresh succeeds whatever byte string (or none) is presented as the old token,
  stored or not, expired or not, and whoever it belongs to.\<close>

theorem refresh_accepts_any_token:
  assumes "reliable c w" and "known_user U w u" and "can_issue J g u w"
  shows "is_Ok (fst (RefreshSession J (pg_manager U g) c u s w))"
proof -
  let ?w1 = "w\<lparr>uuid_pos := Suc (uuid_pos w), db := (db w)\<lparr>refresh_tokens :=
    filter (\<lambda>r. Some (t_token_hash r) \<noteq> s) (refresh_tokens (db w))\<rparr>\<rparr>"
  have "reliable (context_WithTimeout c RepoOperationTO (now w)) w"
    using assms(1) ctx_Err_with_timeout by (simp add: reliable_def)
  then have del: "with_timeout c (\<lambda>ctxTO. rts_Delete (NewTokenRepository U) ctxTO s) w = (Ok (), ?w1)"
    by (simp add: with_timeout_def NewTokenRepository_def Delete_reliable)
  have "is_Ok (fst (CreateSession J (pg_manager U g) c u ?w1))"
  proof (rule pg_tokens.CreateSession_live)
    show "reliable c ?w1" using assms(1) by (simp add: reliable_def)
    show "known_user U ?w1 u" using assms(2) by (simp add: known_user_def split: option.splits)
    show "can_issue J g u ?w1"
      using assms(3) by (simp add: can_issue_def GenerateAccessToken_eq split: result.splits)
    show "known_user U v u = known_user U ?w1 u" if "db v = db ?w1" for v
      using that by (simp add: known_user_def split: option.splits)
  qed
  then show ?thesis
    unfolding RefreshSession_def using del
    by (auto simp: NewManager_def call_def comp_simps is_Ok_iff split: result.splits prod.splits)
qed

theorem refresh_accepts_any_token_witness:
  "is_Ok (fst (RefreshSession demo_jwt (pg_manager demo_uuid (NewGenerator [1])) context_Background ''1''
     (Some [42]) demo_user_world))"
  by (rule refresh_accepts_any_token)
     (simp_all add: reliable_def demo_user_world_def demo_world_def known_user_def demo_uuid_1 can_issue_def
       GenerateAccessToken_eq demo_jwt_def Let_def)

end
