(* ===== verification/Auth_Service.thy ===== *)
theory Auth_Service
  imports Session User_Repo
begin

text \<open>
  \<open>src/internal/api/v1/auth_service.go\<close>: the handlers \<open>Login\<close>, \<open>Logout\<close> and
  \<open>Register\<close> over a user repository and a session manager.  A request pointer is
  optional.  The service reports every failure as a gRPC status.
\<close>

section \<open>The session manager as an interface\<close>

record SessionManager =
  sm_CreateSession :: "ctx \<Rightarrow> UserID \<Rightarrow> (world, string \<times> slice) comp"
  sm_RefreshSession :: "ctx \<Rightarrow> UserID \<Rightarrow> slice \<Rightarrow> (world, string \<times> slice) comp"
  sm_ValidateAccessToken :: "ctx \<Rightarrow> string \<Rightarrow> (world, UserID) comp"
  sm_RevokeSession :: "ctx \<Rightarrow> slice \<Rightarrow> (world, unit) comp"

definition manager_iface :: "jwt_lib \<Rightarrow> Manager \<Rightarrow> SessionManager" where
  "manager_iface J m = \<lparr>sm_CreateSession = CreateSession J m, sm_RefreshSession = RefreshSession J m,
     sm_ValidateAccessToken = (\<lambda>_. ValidateAccessToken J m), sm_RevokeSession = RevokeSession m\<rparr>"

text \<open>What the handlers and the interceptor rely on: sessions touch the tokens only.\<close>

locale session_manager =
  fixes SM :: SessionManager
  assumes create_keeps: "keeps wf_world (sm_CreateSession SM c u)"
    and create_frames: "frames (\<lambda>w. other_than_tokens (db w)) (sm_CreateSession SM c u)"
    and revoke_keeps: "keeps wf_world (sm_RevokeSession SM c s)"
    and revoke_frames: "frames (\<lambda>w. other_than_tokens (db w)) (sm_RevokeSession SM c s)"
    and validate_state: "snd (sm_ValidateAccessToken SM c tok w) = w"

lemma frames_with_timeout: "(\<And>c. frames f (g c)) \<Longrightarrow> frames f (with_timeout c g)"
  by (simp add: frames_def keeps_with_timeout)

lemma frames_case_prod: "(\<And>x y. frames f (g x y)) \<Longrightarrow> frames f (case p of (x, y) \<Rightarrow> g x y)"
  by (cases p) simp

lemma frames_GenerateRefreshToken: "frames (\<lambda>w :: world. f (db w)) (GenerateRefreshToken g)"
  by (rule framesI)
     (auto simp: GenerateRefreshToken_def GenerateRandom_def call_def comp_simps rand_Read_def Let_def split: sum.splits)

lemma frames_GenerateAccessToken: "frames f (GenerateAccessToken J g u)"
  by (rule framesI) (simp add: GenerateAccessToken_eq split: result.split)

context refresh_token_storage
begin

lemma CreateSession_frames: "frames (\<lambda>w. other_than_tokens (db w)) (CreateSession J (manager g) c u)"
  unfolding CreateSession_def
  by (intro frames_rules frames_GenerateAccessToken frames_GenerateRefreshToken frames_case_prod frames_with_timeout)
     (simp add: NewManager_def save_frames)

lemma RevokeSession_frames: "frames (\<lambda>w. other_than_tokens (db w)) (RevokeSession (manager g) c s)"
  unfolding RevokeSession_def
  by (intro frames_rules frames_with_timeout) (simp add: NewManager_def delete_frames)

end

sublocale refresh_token_storage \<subseteq> sessions: session_manager "manager_iface J (NewManager st g)" for J g
proof
  fix c tok w
  show "snd (sm_ValidateAccessToken (manager_iface J (NewManager st g)) c tok w) = w"
    by (simp add: manager_iface_def ValidateAccessToken_def CheckAccessToken_state)
qed (simp_all add: manager_iface_def CreateSession_keeps CreateSession_frames RevokeSession_keeps RevokeSession_frames)

section \<open>The service\<close>

definition MsgAgentWrong :: string where
  "MsgAgentWrong = ''agent error''"

definition MsgRequestValidationFailed :: string where
  "MsgRequestValidationFailed =
     ''request validation failed: check if both Login and Password are filled''"

definition msgRegistrationFailed :: string where
  "msgRegistrationFailed = ''registration failed, try again''"

record AuthService =
  as_repo :: UserRepository
  as_sessionManager :: SessionManager
  as_secret :: bytes

text \<open>\<open>NewAuthService\<close> leaves the field \<open>secret\<close> nil.\<close>

definition NewAuthService :: "UserRepository \<Rightarrow> SessionManager \<Rightarrow> AuthService" where
  "NewAuthService repo sm = \<lparr>as_repo = repo, as_sessionManager = sm, as_secret = []\<rparr>"

text \<open>\<open>return nil, status.Errorf(code, msg)\<close> as an error handler.\<close>

definition status :: "code \<Rightarrow> string \<Rightarrow> goerr \<Rightarrow> (world, 'a) comp" where
  "status cd msg e = fail (StatusErr cd msg)"

definition mk_Tokens :: "string \<Rightarrow> slice \<Rightarrow> Tokens" where
  "mk_Tokens access refresh = \<lparr>tok_AccessToken = Some \<lparr>at_AccessToken = Some access\<rparr>,
     tok_RefreshToken = Some \<lparr>rt_RefreshToken = refresh\<rparr>\<rparr>"

definition Login ::
  "argon2_lib \<Rightarrow> AuthService \<Rightarrow> ctx \<Rightarrow> LoginRequest option \<Rightarrow> (world, LoginResponse) comp" where
  "Login A s c r =
     (if r = None then fail (StatusErr InvalidArgument MsgAgentWrong)
      else (case LoginRequest_GetAuthData r of
         None \<Rightarrow> fail (StatusErr InvalidArgument MsgRequestValidationFailed)
       | Some credentials \<Rightarrow>
           if ad_Login credentials = None \<or> ad_Password credentials = None
           then fail (StatusErr InvalidArgument MsgRequestValidationFailed)
           else
             let loginHash = GenerateHMAC (or_zero [] (AuthData_GetLogin (Some credentials))) (as_secret s) in
             call (with_timeout c (\<lambda>ctx1. ur_FindByLogin (as_repo s) ctx1 loginHash))
               (status Unauthenticated ''failed to find user'') (\<lambda>(userID, userData).
             call (pure_call (CompareHashAndPassword A (PasswordPHC userData)
                 (or_zero [] (AuthData_GetPassword (Some credentials)))))
               (status Unauthenticated ''password format is wrong'') (\<lambda>_.
             call (sm_CreateSession (as_sessionManager s) c userID)
               (status Internal ''failed to create session'') (\<lambda>(access, refresh).
             ret \<lparr>loginresp_Tokens = Some (mk_Tokens access refresh)\<rparr>)))))"

definition Logout :: "AuthService \<Rightarrow> ctx \<Rightarrow> LogoutRequest option \<Rightarrow> (world, unit) comp" where
  "Logout s c r =
     (if r = None then fail (StatusErr InvalidArgument MsgAgentWrong)
      else (case LogoutRequest_GetRefreshToken r of
         None \<Rightarrow> fail (StatusErr InvalidArgument ''request validation failed'')
       | Some refreshToken \<Rightarrow>
           call (sm_RevokeSession (as_sessionManager s) c (RefreshToken_GetRefreshToken (Some refreshToken)))
             (status Internal ''logout failed'') (\<lambda>_. ret ())))"

definition Register ::
  "argon2_lib \<Rightarrow> AuthService \<Rightarrow> ctx \<Rightarrow> RegisterRequest option \<Rightarrow> (world, RegisterResponse) comp" where
  "Register A s c r =
     (if r = None then fail (StatusErr InvalidArgument MsgAgentWrong)
      else (case RegisterRequest_GetAuthData r of
         None \<Rightarrow> fail (StatusErr InvalidArgument MsgRequestValidationFailed)
       | Some credentials \<Rightarrow>
           if ad_Login credentials = None \<or> ad_Password credentials = None
           then fail (StatusErr InvalidArgument MsgRequestValidationFailed)
           else
             let loginHash = GenerateHMAC (or_zero [] (AuthData_GetLogin (Some credentials))) (as_secret s) in
             call (with_timeout c (\<lambda>ctx1. ur_FindByLogin (as_repo s) ctx1 loginHash))
               (\<lambda>err. if \<not> errors_Is err Model_ErrNotFound
                      then fail (StatusErr Internal msgRegistrationFailed)
                      else
                        call (GenerateFromPassword A (or_zero [] (AuthData_GetPassword (Some credentials))))
                          (status Internal msgRegistrationFailed) (\<lambda>passwordHash.
                        call (with_timeout c (\<lambda>ctx2. ur_Create (as_repo s) ctx2
                            \<lparr>PasswordPHC = passwordHash, LoginHash = loginHash\<rparr>))
                          (status Internal msgRegistrationFailed) (\<lambda>userID.
                        call (sm_CreateSession (as_sessionManager s) c userID)
                          (status Internal msgRegistrationFailed) (\<lambda>(access, refresh).
                        ret \<lparr>registerresp_Tokens = Some (mk_Tokens access refresh)\<rparr>))))
               (\<lambda>_. fail (StatusErr AlreadyExists ''the username is already taken''))))"

section \<open>The handlers over any repository\<close>

lemma keeps_status [keeps_rules]: "keeps I (status cd msg e)"
  by (simp add: status_def keeps_rules)

lemma frames_status: "frames f (status cd msg e)"
  by (simp add: status_def frames_simple)

lemma status_simp [comp_simps]: "status cd msg e w = (Err (StatusErr cd msg), w)"
  by (simp add: status_def comp_simps)

lemma status_not_Ok: "\<not> is_Ok (fst (status cd msg e w))"
  by (simp add: comp_simps)

lemma GenerateRandom_db: "frames (\<lambda>w :: world. (db w, open_tx w)) (GenerateRandom n)"
  by (rule framesI) (auto simp: GenerateRandom_def call_def comp_simps rand_Read_def Let_def split: sum.splits)

lemma GenerateFromPassword_db: "frames (\<lambda>w :: world. (db w, open_tx w)) (GenerateFromPassword A p)"
  unfolding GenerateFromPassword_def by (intro frames_rules GenerateRandom_db)

lemma GenerateFromPassword_wf [keeps_rules]: "keeps wf_world (GenerateFromPassword A p)"
  using framesD [OF GenerateFromPassword_db, of A p] by (auto simp: keeps_def wf_world_def)

lemma NewAuthService_simps [simp]:
  "as_repo (NewAuthService repo sm) = repo" "as_sessionManager (NewAuthService repo sm) = sm"
  "as_secret (NewAuthService repo sm) = []"
  by (simp_all add: NewAuthService_def)

text \<open>The credentials of a request that passes validation.\<close>

definition credentials :: "AuthData option \<Rightarrow> (bytes \<times> bytes) option" where
  "credentials ad = (case ad of
      None \<Rightarrow> None
    | Some x \<Rightarrow> (case (ad_Login x, ad_Password x) of (Some l, Some p) \<Rightarrow> Some (l, p) | _ \<Rightarrow> None))"

lemma credentials_Some:
  "credentials ad = Some (l, p) \<longleftrightarrow> (\<exists>x. ad = Some x \<and> ad_Login x = Some l \<and> ad_Password x = Some p)"
  by (auto simp: credentials_def split: option.splits)

text \<open>\<open>Login\<close> after validation.\<close>

lemma Login_valid:
  assumes "credentials (LoginRequest_GetAuthData r) = Some (l, p)"
  shows "Login A s c r =
    call (with_timeout c (\<lambda>ctx1. ur_FindByLogin (as_repo s) ctx1 (GenerateHMAC l (as_secret s))))
      (status Unauthenticated ''failed to find user'') (\<lambda>(userID, userData).
    call (pure_call (CompareHashAndPassword A (PasswordPHC userData) p))
      (status Unauthenticated ''password format is wrong'') (\<lambda>_.
    call (sm_CreateSession (as_sessionManager s) c userID)
      (status Internal ''failed to create session'') (\<lambda>(access, refresh).
    ret \<lparr>loginresp_Tokens = Some (mk_Tokens access refresh)\<rparr>)))"
  using assms
  by (cases r) (auto simp: Login_def credentials_Some request_getters Let_def)

lemma Login_invalid:
  assumes "credentials (LoginRequest_GetAuthData r) = None"
  shows "\<exists>msg. Login A s c r = fail (StatusErr InvalidArgument msg)"
  using assms
  by (auto simp: Login_def credentials_def request_getters split: option.splits prod.splits)

lemma Register_invalid:
  assumes "credentials (RegisterRequest_GetAuthData r) = None"
  shows "\<exists>msg. Register A s c r = fail (StatusErr InvalidArgument msg)"
  using assms
  by (auto simp: Register_def credentials_def request_getters split: option.splits prod.splits)

text \<open>The part of \<open>Register\<close> that follows a search that found nobody.\<close>

definition register_new :: "argon2_lib \<Rightarrow> AuthService \<Rightarrow> ctx \<Rightarrow> bytes \<Rightarrow> bytes \<Rightarrow> (world, RegisterResponse) comp" where
  "register_new A s c l p =
     call (GenerateFromPassword A p) (status Internal msgRegistrationFailed) (\<lambda>passwordHash.
     call (with_timeout c (\<lambda>ctx2. ur_Create (as_repo s) ctx2
         \<lparr>PasswordPHC = passwordHash, LoginHash = GenerateHMAC l (as_secret s)\<rparr>))
       (status Internal msgRegistrationFailed) (\<lambda>userID.
     call (sm_CreateSession (as_sessionManager s) c userID)
       (status Internal msgRegistrationFailed) (\<lambda>(access, refresh).
     ret \<lparr>registerresp_Tokens = Some (mk_Tokens access refresh)\<rparr>)))"

lemma Register_valid:
  assumes "credentials (RegisterRequest_GetAuthData r) = Some (l, p)"
  shows "Register A s c r =
    call (with_timeout c (\<lambda>ctx1. ur_FindByLogin (as_repo s) ctx1 (GenerateHMAC l (as_secret s))))
      (\<lambda>err. if \<not> errors_Is err Model_ErrNotFound then fail (StatusErr Internal msgRegistrationFailed)
             else register_new A s c l p)
      (\<lambda>_. fail (StatusErr AlreadyExists ''the username is already taken''))"
  using assms
  by (cases r) (auto simp: Register_def register_new_def credentials_Some request_getters Let_def cong: if_cong)

locale auth_storage = user_repository R account + session_manager SM
  for R :: UserRepository and account :: "world \<Rightarrow> UserID \<Rightarrow> bytes \<Rightarrow> string \<Rightarrow> bool" and SM :: SessionManager
begin

abbreviation auth :: AuthService where
  "auth \<equiv> NewAuthService R SM"

lemma Login_keeps: "keeps wf_world (Login A auth c r)"
proof (cases "credentials (LoginRequest_GetAuthData r)")
  case None
  then show ?thesis using Login_invalid [of r A auth c] by (auto simp: keeps_rules)
next
  case (Some lp)
  obtain l p where "lp = (l, p)" by (cases lp)
  with Some have "Login A auth c r = call (with_timeout c (\<lambda>ctx1. ur_FindByLogin R ctx1 (GenerateHMAC l [])))
      (status Unauthenticated ''failed to find user'') (\<lambda>(userID, userData).
    call (pure_call (CompareHashAndPassword A (PasswordPHC userData) p))
      (status Unauthenticated ''password format is wrong'') (\<lambda>_.
    call (sm_CreateSession SM c userID)
      (status Internal ''failed to create session'') (\<lambda>(access, refresh).
    ret \<lparr>loginresp_Tokens = Some (mk_Tokens access refresh)\<rparr>)))"
    by (simp add: Login_valid)
  then show ?thesis
    by (simp only:) (intro keeps_rules find_keeps create_keeps)
qed

end
context auth_storage
begin

lemma register_new_keeps: "keeps wf_world (register_new A auth c l p)"
  unfolding register_new_def NewAuthService_def AuthService.select_convs
  by (intro keeps_rules create_keeps user_repository.create_keeps [OF user_repository_axioms])

lemma Register_keeps: "keeps wf_world (Register A auth c r)"
proof (cases "credentials (RegisterRequest_GetAuthData r)")
  case None
  then show ?thesis using Register_invalid [of r A auth c] by (auto simp: keeps_rules)
next
  case (Some lp)
  obtain l p where "lp = (l, p)" by (cases lp)
  with Some have "Register A auth c r = call (with_timeout c (\<lambda>ctx1. ur_FindByLogin R ctx1 (GenerateHMAC l [])))
      (\<lambda>err. if \<not> errors_Is err Model_ErrNotFound then fail (StatusErr Internal msgRegistrationFailed)
             else register_new A auth c l p)
      (\<lambda>_. fail (StatusErr AlreadyExists ''the username is already taken''))"
    by (simp add: Register_valid)
  then show ?thesis by (simp only:) (intro keeps_rules find_keeps register_new_keeps)
qed

lemma Logout_keeps: "keeps wf_world (Logout auth c r)"
  unfolding Logout_def NewAuthService_def AuthService.select_convs
  by (intro keeps_rules revoke_keeps)

text \<open>A successful login belongs to an account whose password string accepts the password.\<close>

lemma Login_Ok:
  assumes "Login A auth c r w = (Ok resp, w')"
  shows "\<exists>l p u phc. credentials (LoginRequest_GetAuthData r) = Some (l, p) \<and>
    account w u (GenerateHMAC l []) phc \<and> CompareHashAndPassword A phc p = Ok ()"
proof -
  obtain l p where lp: "credentials (LoginRequest_GetAuthData r) = Some (l, p)"
    using assms Login_invalid [of r A auth c]
    by (cases "credentials (LoginRequest_GetAuthData r)") (auto simp: comp_simps)
  let ?c = "context_WithTimeout c RepoOperationTO (now w)"
  from assms obtain u x w1 where find: "ur_FindByLogin R ?c (GenerateHMAC l []) w = (Ok (u, x), w1)"
    and rest: "call (pure_call (CompareHashAndPassword A (PasswordPHC x) p))
      (status Unauthenticated ''password format is wrong'') (\<lambda>_.
    call (sm_CreateSession SM c u)
      (status Internal ''failed to create session'') (\<lambda>(access, refresh).
    ret \<lparr>loginresp_Tokens = Some (mk_Tokens access refresh)\<rparr>)) w1 = (Ok resp, w')"
    unfolding Login_valid [OF lp] NewAuthService_def AuthService.select_convs
    by (elim call_OkE [OF _ status_not_Ok]) (auto simp: with_timeout_def)
  from rest have "CompareHashAndPassword A (PasswordPHC x) p = Ok ()"
    by (elim call_OkE [OF _ status_not_Ok]) (auto simp: comp_simps)
  with lp find_sound [OF find] show ?thesis by blast
qed

end

text \<open>The authentication service of the server.\<close>

abbreviation server_auth :: "jwt_lib \<Rightarrow> uuid_lib \<Rightarrow> Generator \<Rightarrow> AuthService" where
  "server_auth J U g \<equiv> NewAuthService (NewUserRepository U) (manager_iface J (pg_manager U g))"

interpretation pg_auth: auth_storage "NewUserRepository U" "user_account U" "manager_iface J (pg_manager U g)"
  for U J g
  by unfold_locales

section \<open>Properties\<close>

text \<open>A login succeeds exactly when the request carries a login and a password, the
  repository finds a user under the keyed hash of the login, the password matches that user's
  stored string, and a session can be created for the user; the response carries the tokens of
  that session.\<close>

theorem login_succeeds_iff:
  "Login A s c r w = (Ok resp, w') \<longleftrightarrow>
     (\<exists>l p u x w1 a t. credentials (LoginRequest_GetAuthData r) = Some (l, p) \<and>
        ur_FindByLogin (as_repo s) (context_WithTimeout c RepoOperationTO (now w)) (GenerateHMAC l (as_secret s)) w
          = (Ok (u, x), w1) \<and>
        CompareHashAndPassword A (PasswordPHC x) p = Ok () \<and>
        sm_CreateSession (as_sessionManager s) c u w1 = (Ok (a, t), w') \<and>
        resp = \<lparr>loginresp_Tokens = Some (mk_Tokens a t)\<rparr>)"
proof (cases "credentials (LoginRequest_GetAuthData r)")
  case None
  then show ?thesis using Login_invalid [of r A s c] by (auto simp: comp_simps)
next
  case (Some lp)
  then obtain l p where lp: "credentials (LoginRequest_GetAuthData r) = Some (l, p)" by (cases lp) simp
  show ?thesis
    unfolding Login_valid [OF lp]
    by (auto simp: lp call_def with_timeout_def comp_simps split: prod.splits result.splits)
qed

lemma server_find_fails:
  obtains e w' where "ur_FindByLogin (NewUserRepository U) c l w = (Err e, w')" and "db w' = db w"
    and "\<not> errors_Is e Model_ErrNotFound"
proof -
  obtain e w' where run: "UserRepository_FindByLogin U c l w = (Err e, w')"
    using total_ErrE [OF FindByLogin_total FindByLogin_fails] by (metis prod.collapse)
  then have "ur_FindByLogin (NewUserRepository U) c l w = (Err e, w')" by (simp add: NewUserRepository_def)
  from this framesD' [OF FindByLogin_frames run] FindByLogin_not_found [OF run] show thesis by (rule that)
qed

lemma server_Register_fails:
  "\<exists>cd msg w'. Register A (server_auth J U g) c r w = (Err (StatusErr cd msg), w') \<and> db w' = db w"
proof (cases "credentials (RegisterRequest_GetAuthData r)")
  case None
  then show ?thesis using Register_invalid [of r A "server_auth J U g" c] by (auto simp: comp_simps)
next
  case (Some lp)
  obtain l p where lp: "lp = (l, p)" by (cases lp)
  obtain e w' where "ur_FindByLogin (NewUserRepository U) (context_WithTimeout c RepoOperationTO (now w))
      (GenerateHMAC l []) w = (Err e, w')" "db w' = db w" "\<not> errors_Is e Model_ErrNotFound"
    by (rule server_find_fails)
  then show ?thesis
    using Some lp by (simp add: Register_valid call_def with_timeout_def comp_simps)
qed

lemma server_Login_fails:
  "\<exists>cd msg w'. Login A (server_auth J U g) c r w = (Err (StatusErr cd msg), w') \<and> db w' = db w"
proof (cases "credentials (LoginRequest_GetAuthData r)")
  case None
  then show ?thesis using Login_invalid [of r A "server_auth J U g" c] by (auto simp: comp_simps)
next
  case (Some lp)
  obtain l p where lp: "lp = (l, p)" by (cases lp)
  obtain e w' where "ur_FindByLogin (NewUserRepository U) (context_WithTimeout c RepoOperationTO (now w))
      (GenerateHMAC l []) w = (Err e, w')" "db w' = db w"
    by (rule server_find_fails)
  then show ?thesis
    using Some lp by (simp add: Login_valid call_def with_timeout_def comp_simps)
qed

text \<open>C17: No one can register with the server or log in to it: whatever the request, the
  database and the network, both handlers answer with a gRPC error status and change nothing in
  the database.\<close>

theorem nobody_gets_in:
  "(\<exists>cd msg w'. Register A (server_auth J U g) c r w = (Err (StatusErr cd msg), w') \<and> db w' = db w) \<and>
   (\<exists>cd msg w'. Login A (server_auth J U g) c q w = (Err (StatusErr cd msg), w') \<and> db w' = db w)"
  by (intro conjI server_Register_fails server_Login_fails)

end
