(* ===== verification/Keeper_Service.thy ===== *)
theory Keeper_Service
  imports Keeper Converter Auth_Service
begin

text \<open>
  \<open>src/internal/api/v1/keeper_service.go\<close> and \<open>health_service.go\<close>: the gRPC
  handlers of the keeper, over the interface \<open>KeeperUseCase\<close>, and the health check.

  The gRPC stream belongs to a third-party package: what \<open>Recv\<close> returns on a client
  stream is an argument (requests and errors in order, \<open>io.EOF\<close> at the end), and
  \<open>Send\<close> on a server stream appends to the world's \<open>sent\<close> or fails as
  \<open>send_err\<close> says.  The text of an error, which one status message carries, is the
  argument \<open>text_of\<close>.
\<close>

section \<open>The use case as an interface\<close>

record KeeperUseCase =
  uc_AddSealed :: "ctx \<Rightarrow> UserID \<Rightarrow> Metadata option \<Rightarrow> bytes \<Rightarrow> (world, DataID) comp"
  uc_Delete :: "ctx \<Rightarrow> DataID \<Rightarrow> (world, unit) comp"
  uc_GetSealed :: "ctx \<Rightarrow> DataID \<Rightarrow> StreamCallback \<Rightarrow> (world, unit) comp"
  uc_List :: "ctx \<Rightarrow> UserID \<Rightarrow> (world, MetaLoc list) comp"
  uc_Sync :: "ctx \<Rightarrow> UserID \<Rightarrow> SyncMode \<Rightarrow> StreamCallback \<Rightarrow> (world, unit) comp"

definition service_iface :: "Service \<Rightarrow> KeeperUseCase" where
  "service_iface s = \<lparr>uc_AddSealed = AddSealed s, uc_Delete = Service_Delete s, uc_GetSealed = GetSealed s,
     uc_List = Service_List s, uc_Sync = Service_Sync s\<rparr>"

section \<open>Streams\<close>

definition stream_Send :: "pb_Metadata option \<times> Payload option \<Rightarrow> (world, unit) comp" where
  "stream_Send msg w =
     (case send_err w (length (sent w)) of
        None \<Rightarrow> (Ok (), w\<lparr>sent := sent w @ [msg]\<rparr>)
      | Some e \<Rightarrow> (Err e, w))"

text \<open>\<open>GetResponse\<close> and \<open>SyncResponse\<close> have the same two fields.\<close>

definition response :: "timestamp_lib \<Rightarrow> Metadata \<Rightarrow> bytes \<Rightarrow> pb_Metadata option \<times> Payload option" where
  "response T m sealed = (ToProtoMetadata T (Some m), Some \<lparr>SealedData = Some sealed\<rparr>)"

text \<open>The receiving loop of \<open>Add\<close>.\<close>

fun recv_all :: "(goerr \<Rightarrow> string) \<Rightarrow> (goerr + AddRequest) list \<Rightarrow> AddRequest list result" where
  "recv_all text_of [] = Ok []"
| "recv_all text_of (Inr req # rs) = rcall (recv_all text_of rs) Err (\<lambda>reqs. Ok (req # reqs))"
| "recv_all text_of (Inl err # rs) =
     (if errors_Is err Io_EOF then Ok []
      else if errors_Is err Context_Canceled then Err (StatusErr Canceled (text_of err))
      else Err (StatusErr InvalidArgument MsgAgentWrong))"

section \<open>The handlers\<close>

definition MsgUserNotAuthenticated :: string where
  "MsgUserNotAuthenticated = ''user not authenticated''"

definition MsgSyncFailed :: string where
  "MsgSyncFailed = ''sync failed''"

text \<open>The user of the call: \<open>userID, ok := ...; if !ok || userID == ""\<close>.\<close>

definition with_user :: "ctx \<Rightarrow> (UserID \<Rightarrow> (world, 'a) comp) \<Rightarrow> (world, 'a) comp" where
  "with_user c k =
     (case ctx_UserID c of
        None \<Rightarrow> fail (StatusErr Unauthenticated MsgUserNotAuthenticated)
      | Some userID \<Rightarrow>
          if userID = '''' then fail (StatusErr Unauthenticated MsgUserNotAuthenticated)
          else k userID)"

fun add_each ::
  "timestamp_lib \<Rightarrow> KeeperUseCase \<Rightarrow> ctx \<Rightarrow> UserID \<Rightarrow> AddRequest list \<Rightarrow> (world, unit) comp" where
  "add_each T uc c userID [] = ret ()"
| "add_each T uc c userID (req # reqs) =
     (case AddRequest_GetMetadata (Some req) of
        None \<Rightarrow> fail (StatusErr InvalidArgument MsgAgentWrong)
      | Some metaDTO \<Rightarrow>
          (case AddRequest_GetPayload (Some req) of
             None \<Rightarrow> fail (StatusErr InvalidArgument MsgAgentWrong)
           | Some payload \<Rightarrow>
               call (pure_call (FromProtoMetadata T (Some metaDTO)))
                 (status InvalidArgument MsgAgentWrong) (\<lambda>meta.
               (case Payload_GetSealedData (Some payload) of
                  None \<Rightarrow> fail (StatusErr InvalidArgument ''data should be filled'')
                | Some sealedData \<Rightarrow>
                    call (uc_AddSealed uc c userID (Some meta) sealedData)
                      (status Internal ''add failed'') (\<lambda>_.
                    add_each T uc c userID reqs)))))"

definition KeeperGRPC_Add ::
  "(goerr \<Rightarrow> string) \<Rightarrow> timestamp_lib \<Rightarrow> KeeperUseCase \<Rightarrow> ctx \<Rightarrow> (goerr + AddRequest) list \<Rightarrow>
     goerr option \<Rightarrow> (world, unit) comp" where
  "KeeperGRPC_Add text_of T uc c recvs sendAndClose =
     with_user c (\<lambda>userID.
     call (pure_call (recv_all text_of recvs)) fail (\<lambda>requests.
     call (add_each T uc c userID requests) fail (\<lambda>_.
     case sendAndClose of None \<Rightarrow> ret () | Some e \<Rightarrow> fail e)))"

definition KeeperGRPC_Delete ::
  "KeeperUseCase \<Rightarrow> ctx \<Rightarrow> DeleteRequest option \<Rightarrow> (world, unit) comp" where
  "KeeperGRPC_Delete uc c req =
     (if req = None then fail (StatusErr InvalidArgument MsgAgentWrong)
      else with_user c (\<lambda>userID.
        case DeleteRequest_GetMetadata req of
          None \<Rightarrow> fail (StatusErr InvalidArgument MsgAgentWrong)
        | Some metaDTO \<Rightarrow>
            call (uc_Delete uc c (Metadata_GetId (Some metaDTO))) (status Internal ''delete failed'') (\<lambda>_.
            ret ())))"

definition KeeperGRPC_Get ::
  "timestamp_lib \<Rightarrow> KeeperUseCase \<Rightarrow> ctx \<Rightarrow> GetRequest option \<Rightarrow> (world, unit) comp" where
  "KeeperGRPC_Get T uc c req =
     (if req = None then fail (StatusErr InvalidArgument MsgAgentWrong)
      else with_user c (\<lambda>userID.
        case GetRequest_GetMetadata req of
          None \<Rightarrow> fail (StatusErr InvalidArgument MsgAgentWrong)
        | Some metaDTO \<Rightarrow>
            call (uc_GetSealed uc c (Metadata_GetId (Some metaDTO)) (\<lambda>m sealed. stream_Send (response T m sealed)))
              (status Internal MsgSyncFailed) (\<lambda>_. ret ())))"

definition KeeperGRPC_List :: "timestamp_lib \<Rightarrow> KeeperUseCase \<Rightarrow> ctx \<Rightarrow> (world, ListResponse) comp" where
  "KeeperGRPC_List T uc c =
     (case ctx_UserID c of
        None \<Rightarrow> fail (StatusErr Unauthenticated MsgAgentWrong)
      | Some userID \<Rightarrow>
          call (with_timeout c (\<lambda>ctxTO. uc_List uc ctxTO userID)) (status Internal ''server internal error'')
            (\<lambda>metaLocs. ret \<lparr>list_Metadata = map (\<lambda>ml. ToProtoMetadata T (Some (Meta ml))) metaLocs\<rparr>))"

definition KeeperGRPC_Sync ::
  "timestamp_lib \<Rightarrow> KeeperUseCase \<Rightarrow> ctx \<Rightarrow> SyncRequest option \<Rightarrow> (world, unit) comp" where
  "KeeperGRPC_Sync T uc c req =
     (if req = None then fail (StatusErr InvalidArgument MsgAgentWrong)
      else with_user c (\<lambda>userID.
        let k = (\<lambda>mode.
          call (uc_Sync uc c userID mode (\<lambda>m sealed. stream_Send (response T m sealed)))
            (status Internal MsgSyncFailed) (\<lambda>_. ret ()))
        in if SyncRequest_GetSyncMode req = SYNC_MODE_SHORT then k SyncModeShort
           else if SyncRequest_GetSyncMode req = SYNC_MODE_FULL then k SyncModeFull
           else fail (StatusErr InvalidArgument ''unknown sync mode'')))"

text \<open>\<open>HealthService.Ping\<close> over the interface \<open>HealthRepository\<close>.\<close>

definition HealthService_Ping :: "(ctx \<Rightarrow> (world, unit) comp) \<Rightarrow> ctx \<Rightarrow> (world, unit) comp" where
  "HealthService_Ping repo_Ping c =
     call (with_timeout c repo_Ping) (status Internal ''repository disconnected'') (\<lambda>_. ret ())"

section \<open>The use case over any storage\<close>

text \<open>What the handlers rely on: every operation keeps the integrity of the database, if the
  callback does.\<close>

locale keeper_use_case =
  fixes uc :: KeeperUseCase
  assumes add_keeps: "keeps wf_world (uc_AddSealed uc c u m bs)"
    and delete_keeps: "keeps wf_world (uc_Delete uc c i)"
    and get_keeps: "(\<And>m bs. keeps wf_world (cb m bs)) \<Longrightarrow> keeps wf_world (uc_GetSealed uc c i cb)"
    and list_keeps: "keeps wf_world (uc_List uc c u)"
    and sync_keeps: "(\<And>m bs. keeps wf_world (cb m bs)) \<Longrightarrow> keeps wf_world (uc_Sync uc c u mode cb)"
begin

lemma send_keeps: "keeps wf_world (stream_Send msg)"
  by (auto simp: keeps_def stream_Send_def wf_world_def split: option.split)

lemma with_user_keeps: "(\<And>u. keeps wf_world (k u)) \<Longrightarrow> keeps wf_world (with_user c k)"
  unfolding with_user_def by (intro keeps_rules)

lemma add_each_keeps: "keeps wf_world (add_each T uc c u reqs)"
  by (induction reqs)
     (simp_all, (intro keeps_rules add_keeps | assumption)+)

lemma Add_keeps: "keeps wf_world (KeeperGRPC_Add text_of T uc c recvs close)"
  unfolding KeeperGRPC_Add_def by (intro with_user_keeps keeps_rules add_each_keeps)

lemma Delete_handler_keeps: "keeps wf_world (KeeperGRPC_Delete uc c req)"
  unfolding KeeperGRPC_Delete_def by (intro with_user_keeps keeps_rules delete_keeps)

lemma Get_handler_keeps: "keeps wf_world (KeeperGRPC_Get T uc c req)"
  unfolding KeeperGRPC_Get_def by (intro with_user_keeps keeps_rules get_keeps send_keeps)

lemma List_handler_keeps: "keeps wf_world (KeeperGRPC_List T uc c)"
  unfolding KeeperGRPC_List_def by (intro keeps_rules list_keeps)

lemma Sync_handler_keeps: "keeps wf_world (KeeperGRPC_Sync T uc c req)"
  unfolding KeeperGRPC_Sync_def Let_def by (intro with_user_keeps keeps_rules sync_keeps send_keeps)

end

sublocale keeper_storage \<subseteq> use_case: keeper_use_case "service_iface service"
  by unfold_locales
     (simp_all add: service_iface_def AddSealed_keeps Delete_keeps GetSealed_keeps List_keeps Sync_keeps)

lemma stream_Send_Ok:
  "stream_Send msg w = (Ok (), w') \<longleftrightarrow> send_err w (length (sent w)) = None \<and> w' = w\<lparr>sent := sent w @ [msg]\<rparr>"
  by (auto simp: stream_Send_def split: option.splits)

context keeper_storage
begin

lemma Service_List_frames: "frames db (Service_List service c u)"
  unfolding Service_List_def by (intro frames_rules frames_with_timeout) (simp add: NewService_def meta.list_frames)

lemma sync_loop_sends:
  assumes "sync_loop service c mode (\<lambda>m bs. stream_Send (response T m bs)) mls w = (Ok (), w')"
  shows "sent w' = sent w @ map (\<lambda>ml. response T (Meta ml) (data w (Locator ml))) mls \<and> db w' = db w"
  using assms
proof (induction mls arbitrary: w)
  case (Cons ml mls)
  let ?cb = "\<lambda>m bs. stream_Send (response T m bs)"
  from Cons.prems have "mode = SyncModeShort" and
    "call (getSealedHelper service c (Locator ml)) fail (\<lambda>sealed.
      call (?cb (Meta ml) sealed) (wrapping ''metadata and data grpc stream write callback failed'') (\<lambda>_.
      sync_loop service c mode ?cb mls)) w = (Ok (), w')"
    by (auto split: option.splits if_splits)
  from this(2) obtain bs w1 where h: "getSealedHelper service c (Locator ml) w = (Ok bs, w1)"
    and "call (?cb (Meta ml) bs) (wrapping ''metadata and data grpc stream write callback failed'') (\<lambda>_.
      sync_loop service c mode ?cb mls) w1 = (Ok (), w')"
    by (rule call_OkE [OF _ fail_not_Ok])
  from this(2) obtain y w2 where send: "?cb (Meta ml) bs w1 = (Ok (), w2)" and rest: "sync_loop service c mode ?cb mls w2 = (Ok (), w')"
    by (rule call_OkE [OF _ wrapping_not_Ok]) simp
  have w1: "db w1 = db w" "sent w1 = sent w" "bs = data w (Locator ml)"
    using framesD' [OF getSealedHelper_frames(1) h] framesD' [OF getSealedHelper_frames(2) h] getSealedHelper_Ok [OF h]
    by (simp_all add: stream_state_def)
  have w2: "db w2 = db w" "sent w2 = sent w @ [response T (Meta ml) (data w (Locator ml))]"
    using send w1 by (simp_all add: stream_Send_Ok)
  from Cons.IH [OF rest] w2 show ?case
    using obj.data_db [OF w2(1)] by simp
qed (simp add: comp_simps)

lemma Sync_sends:
  assumes "Service_Sync service c u mode (\<lambda>m bs. stream_Send (response T m bs)) w = (Ok (), w')"
  shows "\<exists>k. parse u = Some k \<and> db w' = db w \<and>
    sent w' = sent w @ map (\<lambda>ml. response T (Meta ml) (data w (Locator ml))) (owned_by (catalog w) k)"
proof -
  let ?c = "context_WithTimeout c RepoOperationTO (now w)"
  from assms have "call (with_timeout c (\<lambda>ctx1. mdr_ListByUser M ctx1 u)) (wrapping ''repo.ListMetadata method failed'')
      (sync_loop service c mode (\<lambda>m bs. stream_Send (response T m bs))) w = (Ok (), w')"
    by (auto simp: Service_Sync_def NewService_def comp_simps split: if_splits)
  then obtain mls w1 where l: "mdr_ListByUser M ?c u w = (Ok mls, w1)"
    and loop: "sync_loop service c mode (\<lambda>m bs. stream_Send (response T m bs)) mls w1 = (Ok (), w')"
    by (rule call_OkE [OF _ wrapping_not_Ok]) (simp add: with_timeout_def)
  have w1: "db w1 = db w" "sent w1 = sent w"
    using framesD' [OF meta.list_frames l] framesD' [OF meta.list_stream l] by (simp_all add: stream_state_def)
  from meta.list_Ok [OF l] sync_loop_sends [OF loop] w1 obj.data_db [OF w1(1)] show ?thesis by auto
qed

end

section \<open>Properties\<close>

lemma with_user_none:
  "ctx_UserID c = None \<or> ctx_UserID c = Some '''' \<Longrightarrow>
     with_user c k w = (Err (StatusErr Unauthenticated MsgUserNotAuthenticated), w)"
  by (auto simp: with_user_def comp_simps)

text \<open>Without a user in the context, or with the empty one, every handler of the keeper
  answers with a gRPC error status and nothing at all changes, whatever the request.\<close>

theorem unauthenticated_untouched:
  assumes "ctx_UserID c = None \<or> ctx_UserID c = Some ''''"
  shows "(\<exists>cd msg. KeeperGRPC_Add text_of T (service_iface s) c recvs close w = (Err (StatusErr cd msg), w)) \<and>
    (\<exists>cd msg. KeeperGRPC_Delete (service_iface s) c dreq w = (Err (StatusErr cd msg), w)) \<and>
    (\<exists>cd msg. KeeperGRPC_Get T (service_iface s) c greq w = (Err (StatusErr cd msg), w)) \<and>
    (\<exists>cd msg. KeeperGRPC_List T (service_iface s) c w = (Err (StatusErr cd msg), w)) \<and>
    (\<exists>cd msg. KeeperGRPC_Sync T (service_iface s) c sreq w = (Err (StatusErr cd msg), w))"
  using assms
  by (auto simp: KeeperGRPC_Add_def KeeperGRPC_Delete_def KeeperGRPC_Get_def KeeperGRPC_List_def KeeperGRPC_Sync_def
      with_user_none service_iface_def Service_List_def with_timeout_def call_def comp_simps)

theorem unauthenticated_untouched_witness:
  "\<exists>cd msg. KeeperGRPC_Delete (service_iface (server_service demo_uuid)) context_Background None demo_object_world
     = (Err (StatusErr cd msg), demo_object_world)"
proof -
  have "ctx_UserID context_Background = None \<or> ctx_UserID context_Background = Some ''''"
    by (simp add: ctx_UserID_def context_Background_def)
  from unauthenticated_untouched [OF this, of _ _ "server_service demo_uuid"] show ?thesis by blast
qed



text \<open>C21: The handlers do not compare the owner of an object with the caller: on a working
  network any user with a non-empty id who knows the id of a stored object can delete it, no
  matter whose it is.  The call ends in the panic of the router, with the object gone.\<close>

theorem delete_ignores_owner:
  assumes "reliable c w" and "wf_world w" and "x \<in> set (catalog_of U (db w))"
    and "strings_HasPrefix (Locator (e_ml x)) ''pg''" and "ctx_UserID c = Some u" and "u \<noteq> ''''"
    and "DeleteRequest_GetMetadata req = Some m" and "Metadata_GetId (Some m) = i" and "i \<noteq> ''''"
    and "uuid_Parse U i = Some (e_id x)"
  shows "\<exists>w'. KeeperGRPC_Delete (service_iface (server_service U)) c req w = (Panic nil_deref, w') \<and>
    catalog_of U (db w') = filter (\<lambda>y. e_id y \<noteq> e_id x) (catalog_of U (db w))"
proof -
  have "req \<noteq> None" using assms(7) by (cases req) (simp_all add: request_getters)
  then show ?thesis
    using server_access(2) [OF assms(1-3,10,9,4)] assms(5-8)
    by (auto simp: KeeperGRPC_Delete_def with_user_def service_iface_def call_def)
qed

theorem delete_ignores_owner_witness:
  "\<exists>w'. KeeperGRPC_Delete (service_iface (server_service demo_uuid)) (context_WithValue_UserID context_Background ''2'')
     (Some \<lparr>delreq_Metadata = Some \<lparr>pb_DataType = None, pb_Id = Some ''1'', pb_Name = None, pb_Description = None,
        pb_CreatedAt = None, pb_ChunkDesc = None\<rparr>\<rparr>) demo_object_world = (Panic nil_deref, w')"
proof -
  from demo_object_entry obtain x where x: "x \<in> set (catalog_of demo_uuid (db demo_object_world))"
    "uuid_Parse demo_uuid ''1'' = Some (e_id x)" "strings_HasPrefix (Locator (e_ml x)) ''pg''"
    by (auto simp: demo_uuid_1 strings_HasPrefix_def)
  have "reliable (context_WithValue_UserID context_Background ''2'') demo_object_world"
    by (simp add: reliable_def demo_object_world_def demo_catalog_world_def demo_user_world_def demo_world_def)
  from delete_ignores_owner [OF this wf_demo_object_world x(1,3) ctx_UserID_WithValue _ _ _ _ x(2)]
  have "DeleteRequest_GetMetadata req = Some m \<Longrightarrow> Metadata_GetId (Some m) = ''1'' \<Longrightarrow>
    \<exists>w'. KeeperGRPC_Delete (service_iface (server_service demo_uuid)) (context_WithValue_UserID context_Background ''2'')
      req demo_object_world = (Panic nil_deref, w')" for req m
    by blast
  then show ?thesis by (simp add: request_getters Metadata_GetId_def)
qed

text \<open>C16: A successful \<open>List\<close> of the server answers with exactly the objects of the user of the
  call, in the order of the catalog, converted one by one, and changes nothing in the database.\<close>

theorem list_is_exact:
  assumes "KeeperGRPC_List T (service_iface (server_service U)) c w = (Ok resp, w')"
  shows "\<exists>u k. ctx_UserID c = Some u \<and> u \<noteq> '''' \<and> uuid_Parse U u = Some k \<and> db w' = db w \<and>
    list_Metadata resp = map (\<lambda>ml. ToProtoMetadata T (Some (Meta ml))) (owned_by (catalog_of U (db w)) k)"
proof -
  from assms obtain u where u: "ctx_UserID c = Some u"
    and "call (with_timeout c (\<lambda>ctxTO. Service_List (server_service U) ctxTO u)) (status Internal ''server internal error'')
      (\<lambda>mls. ret \<lparr>list_Metadata = map (\<lambda>ml. ToProtoMetadata T (Some (Meta ml))) mls\<rparr>) w = (Ok resp, w')"
    by (auto simp: KeeperGRPC_List_def service_iface_def comp_simps split: option.splits)
  from this(2) obtain mls where run: "Service_List (server_service U) (context_WithTimeout c RepoOperationTO (now w)) u w = (Ok mls, w')"
    and "list_Metadata resp = map (\<lambda>ml. ToProtoMetadata T (Some (Meta ml))) mls"
    by (auto elim!: call_OkE [OF _ status_not_Ok] simp: comp_simps with_timeout_def)
  with server_keeper.List_exact [OF run] framesD' [OF server_keeper.Service_List_frames run] u show ?thesis by auto
qed

theorem list_is_exact_witness:
  "\<exists>resp w'. KeeperGRPC_List demo_timestamp (service_iface (server_service demo_uuid))
       (context_WithValue_UserID context_Background ''1'') demo_object_world = (Ok resp, w') \<and>
     length (list_Metadata resp) = 1"
proof -
  let ?c = "context_WithValue_UserID context_Background ''1''"
  have "reliable ?c demo_object_world"
    by (simp add: reliable_def demo_object_world_def demo_catalog_world_def demo_user_world_def demo_world_def)
  note rel = reliable_timeout [OF reliable_timeout [OF this]]
  obtain w' where "mdr_ListByUser (NewMetadataRepository demo_uuid)
      (context_WithTimeout (context_WithTimeout ?c RepoOperationTO (now demo_object_world)) RepoOperationTO (now demo_object_world))
      ''1'' demo_object_world = (Ok (owned_by (catalog_of demo_uuid (db demo_object_world)) 1), w')"
    using pg_metadata.list_live [OF rel demo_uuid_1] by blast
  then obtain resp where run: "KeeperGRPC_List demo_timestamp (service_iface (server_service demo_uuid)) ?c demo_object_world = (Ok resp, w')"
    by (simp add: KeeperGRPC_List_def service_iface_def Service_List_def NewService_def with_timeout_def call_def comp_simps)
  have "length (owned_by (catalog_of demo_uuid (db demo_object_world)) 1) = 1"
    by (simp add: owned_by_def catalog_of_def demo_object_world_def demo_catalog_defs map_filter_simps
      row_entry_def join_type_def data_type_name_def row_MetaLoc_def)
  with list_is_exact [OF run] run show ?thesis by (auto simp: demo_uuid_1)
qed

end
