(* ===== verification/Status_Codes.thy ===== *)
theory Status_Codes
  imports Keeper_Service
begin

text \<open>
  The type of the handlers' errors: whatever goes wrong below, a handler answers with a gRPC
  status, never with a raw error of a repository, a driver or a conversion.  The rules follow the
  shape of the handlers; a call whose error branch answers with a status hides the errors of what it
  calls.
\<close>

named_theorems status_rules \<open>rules that show that a computation only fails with a status\<close>

fun is_status :: "goerr \<Rightarrow> bool" where
  "is_status (StatusErr _ _) = True"
| "is_status _ = False"

fun status_result :: "'a result \<Rightarrow> bool" where
  "status_result (Err e) = is_status e"
| "status_result _ = True"

definition status_only :: "('w, 'a) comp \<Rightarrow> bool" where
  "status_only m \<longleftrightarrow> (\<forall>w. status_result (fst (m w)))"

lemma is_status_iff: "is_status e \<longleftrightarrow> (\<exists>cd msg. e = StatusErr cd msg)"
  by (cases e) auto

lemma status_onlyD: "status_only m \<Longrightarrow> m w = (Err e, w') \<Longrightarrow> \<exists>cd msg. e = StatusErr cd msg"
  by (auto simp: status_only_def is_status_iff [symmetric] dest: spec [of _ w])

lemma status_only_simple [status_rules]:
  "status_only (ret x)" "status_only (fail (StatusErr cd msg))" "status_only (status cd msg e)"
  by (simp_all add: status_only_def comp_simps)

lemma status_only_fail: "is_status e \<Longrightarrow> status_only (fail e)"
  by (simp add: status_only_def comp_simps)

lemma status_only_pure [status_rules]: "status_result r \<Longrightarrow> status_only (pure_call r)"
  by (simp add: status_only_def comp_simps)

lemma status_only_call [status_rules]:
  "(\<And>e. status_only (h e)) \<Longrightarrow> (\<And>x. status_only (k x)) \<Longrightarrow> status_only (call m h k)"
  by (auto simp: status_only_def call_def split: prod.split result.split)

text \<open>An error passed on must have been a status already.\<close>

lemma status_only_pass:
  assumes "status_only m" and "\<And>x. status_only (k x)"
  shows "status_only (call m fail k)"
proof -
  have "status_result (fst (call m fail k w))" for w
    using assms(1) [unfolded status_only_def, rule_format, of w] assms(2)
    by (cases "m w"; cases "fst (m w)") (auto simp: call_def comp_simps status_only_def)
  then show ?thesis by (simp add: status_only_def)
qed

lemma status_only_if [status_rules]:
  "status_only m \<Longrightarrow> status_only n \<Longrightarrow> status_only (if b then m else n)"
  by simp

lemma status_only_option [status_rules]:
  "status_only m \<Longrightarrow> (\<And>x. status_only (f x)) \<Longrightarrow> status_only (case v of None \<Rightarrow> m | Some x \<Rightarrow> f x)"
  by (cases v) auto

lemma status_only_prod [status_rules]: "(\<And>x y. status_only (f x y)) \<Longrightarrow> status_only (case p of (x, y) \<Rightarrow> f x y)"
  by (cases p) auto

section \<open>The handlers\<close>

lemma Login_status: "status_only (Login A s c r)"
  unfolding Login_def Let_def by (intro status_rules)

lemma Logout_status: "status_only (Logout s c r)"
  unfolding Logout_def by (intro status_rules)

lemma Register_status: "status_only (Register A s c r)"
  unfolding Register_def Let_def by (intro status_rules)

lemma with_user_status [status_rules]: "(\<And>u. status_only (k u)) \<Longrightarrow> status_only (with_user c k)"
  unfolding with_user_def by (intro status_rules)

lemma recv_all_status: "status_result (recv_all text_of rs)"
proof (induction text_of rs rule: recv_all.induct)
  case (2 text_of req rs)
  then show ?case by (cases "recv_all text_of rs") simp_all
qed simp_all

lemma add_each_status: "status_only (add_each T uc c u reqs)"
proof (induction reqs)
  case (Cons req reqs)
  then show ?case unfolding add_each.simps by (intro status_rules)
qed (simp add: status_rules)

lemma Add_status:
  assumes "\<And>e. close = Some e \<Longrightarrow> is_status e"
  shows "status_only (KeeperGRPC_Add text_of T uc c recvs close)"
proof -
  have "status_only (case close of None \<Rightarrow> (ret () :: (world, unit) comp) | Some e \<Rightarrow> fail e)"
    using assms by (cases close) (simp_all add: status_rules status_only_fail)
  then show ?thesis
    unfolding KeeperGRPC_Add_def
    by (intro with_user_status status_only_pass status_only_pure recv_all_status add_each_status)
qed

lemma keeper_status:
  "status_only (KeeperGRPC_Delete uc c dreq)" "status_only (KeeperGRPC_Get T uc c greq)"
  "status_only (KeeperGRPC_List T uc c)" "status_only (KeeperGRPC_Sync T uc c sreq)"
  unfolding KeeperGRPC_Delete_def KeeperGRPC_Get_def KeeperGRPC_List_def KeeperGRPC_Sync_def Let_def
  by (intro status_rules)+

lemma Ping_status: "status_only (HealthService_Ping ping c)"
  unfolding HealthService_Ping_def by (intro status_rules)

end
