(* ===== verification/Vault.thy ===== *)
theory Vault
  imports Keeper_Service
begin

text \<open>
  What the keeper promises to its users, as an abstract machine over catalogs, and the proof that
  the service implements it over every storage that meets the contracts: each call of the service,
  whatever its result and however the network fails, is a step of the machine on the abstract
  catalogs before and after it, so every run of the service is a run of the machine.  What holds of
  the machine, such as the isolation of users from each other, then holds of the service.
\<close>

section \<open>The abstract machine\<close>

datatype vault_op =
    OpAdd UserID "Metadata option" bytes
  | OpDelete DataID
  | OpGet DataID
  | OpList UserID
  | OpSync UserID SyncMode

datatype outcome = Added DataID | Finished | Listed "MetaLoc list" | Failed

inductive vault_step :: "(string \<Rightarrow> uuid option) \<Rightarrow> vault_op \<Rightarrow> outcome \<Rightarrow> entry list \<Rightarrow> entry list \<Rightarrow> bool"
  for parse where
  added: "parse u = Some k \<Longrightarrow> copies k (m\<lparr>MetaUserID := u\<rparr>) loc (xs @ [x]) \<Longrightarrow> ID (Meta (e_ml x)) = i \<Longrightarrow>
    e_id x \<notin> e_id ` set es \<Longrightarrow> vault_step parse (OpAdd u (Some m) bs) (Added i) es (es @ xs @ [x])"
| add_refused: "vault_step parse (OpAdd u mp bs) Failed es es"
| add_unanswered: "parse u = Some k \<Longrightarrow> copies k (m\<lparr>MetaUserID := u\<rparr>) loc xs \<Longrightarrow>
    vault_step parse (OpAdd u (Some m) bs) Failed es (es @ xs)"
| deleted: "x \<in> set es \<Longrightarrow> parse i = Some (e_id x) \<Longrightarrow>
    vault_step parse (OpDelete i) Finished es (filter (\<lambda>y. e_id y \<noteq> e_id x) es)"
| delete_refused: "vault_step parse (OpDelete i) Failed es es"
| delete_unanswered: "parse i = Some k \<Longrightarrow> vault_step parse (OpDelete i) Failed es (filter (\<lambda>y. e_id y \<noteq> k) es)"
| got: "x \<in> set es \<Longrightarrow> parse i = Some (e_id x) \<Longrightarrow> vault_step parse (OpGet i) Finished es es"
| listed: "parse u = Some k \<Longrightarrow> vault_step parse (OpList u) (Listed (owned_by es k)) es es"
| synced: "parse u = Some k \<Longrightarrow> vault_step parse (OpSync u mode) Finished es es"
| read_failed: "op \<in> {OpGet i, OpList u, OpSync u mode} \<Longrightarrow> vault_step parse op Failed es es"

inductive vault_run ::
  "(string \<Rightarrow> uuid option) \<Rightarrow> (vault_op \<times> outcome) list \<Rightarrow> entry list \<Rightarrow> entry list \<Rightarrow> bool"
  for parse where
  idle: "vault_run parse [] es es"
| stepped: "vault_step parse op out es es1 \<Longrightarrow> vault_run parse tr es1 es2 \<Longrightarrow> vault_run parse ((op, out) # tr) es es2"

inductive_cases vault_run_NilE: "vault_run parse [] es es'"
inductive_cases vault_run_ConsE: "vault_run parse ((op, out) # tr) es es'"

text \<open>An operation concerns the owner \<open>k\<close> when it adds in the name of \<open>k\<close> or removes one of the
  objects of \<open>k\<close>.\<close>

fun concerns :: "(string \<Rightarrow> uuid option) \<Rightarrow> entry list \<Rightarrow> uuid \<Rightarrow> vault_op \<Rightarrow> bool" where
  "concerns parse es k (OpAdd u mp bs) = (parse u = Some k)"
| "concerns parse es k (OpDelete i) = (\<exists>x \<in> set es. e_owner x = k \<and> parse i = Some (e_id x))"
| "concerns parse es k op = False"

text \<open>The objects of one owner.\<close>

definition entries_of :: "uuid \<Rightarrow> entry list \<Rightarrow> entry list" where
  "entries_of k es = filter (\<lambda>x. e_owner x = k) es"

lemma owned_by_entries: "owned_by es k = map e_ml (entries_of k es)"
  by (simp add: owned_by_def entries_of_def)

lemma entries_of_append [simp]: "entries_of k (es @ es') = entries_of k es @ entries_of k es'"
  by (simp add: entries_of_def)

lemma entries_of_copies: "copies k m loc xs \<Longrightarrow> k \<noteq> k' \<Longrightarrow> entries_of k' xs = []"
  by (auto simp: entries_of_def copies_def list_all_iff filter_empty_conv)

lemma entries_of_removed:
  "(\<And>x. x \<in> set es \<Longrightarrow> e_owner x = k \<Longrightarrow> e_id x \<noteq> d) \<Longrightarrow> entries_of k (filter (\<lambda>y. e_id y \<noteq> d) es) = entries_of k es"
  unfolding entries_of_def filter_filter by (intro filter_cong) auto

lemma concerns_entries:
  assumes "entries_of k es = entries_of k es'"
  shows "concerns parse es k op = concerns parse es' k op"
proof -
  have "concerns parse es k (OpDelete i) \<longleftrightarrow> (\<exists>x \<in> set (entries_of k es). parse i = Some (e_id x))" for i es
    by (auto simp: entries_of_def)
  with assms show ?thesis by (cases op) simp_all
qed

lemma vault_step_isolated:
  "vault_step parse op out es es' \<Longrightarrow> \<not> concerns parse es k op \<Longrightarrow> entries_of k es' = entries_of k es"
proof (induction rule: vault_step.induct)
  case (added u k' m loc xs x i es bs)
  then show ?case using entries_of_copies [OF added(2), of k] by auto
next
  case (add_unanswered u k' m loc xs bs es)
  then show ?case using entries_of_copies [OF add_unanswered(2), of k] by auto
qed (auto intro!: entries_of_removed)

lemma vault_run_isolated:
  "vault_run parse tr es es' \<Longrightarrow> \<forall>(op, out) \<in> set tr. \<not> concerns parse es k op \<Longrightarrow> entries_of k es' = entries_of k es"
proof (induction rule: vault_run.induct)
  case (stepped op out es es1 tr es2)
  from stepped have "entries_of k es1 = entries_of k es" by (auto intro: vault_step_isolated)
  moreover from this have "entries_of k es2 = entries_of k es1"
    using stepped.prems concerns_entries [of k es1 es] by (intro stepped.IH) auto
  ultimately show ?case by simp
qed simp

section \<open>The service as a machine\<close>

definition exec_op :: "timestamp_lib \<Rightarrow> Service \<Rightarrow> ctx \<Rightarrow> vault_op \<Rightarrow> (world, outcome) comp" where
  "exec_op T s c op =
     (case op of
        OpAdd u mp bs \<Rightarrow> call (AddSealed s c u mp bs) fail (\<lambda>i. ret (Added i))
      | OpDelete i \<Rightarrow> call (Service_Delete s c i) fail (\<lambda>_. ret Finished)
      | OpGet i \<Rightarrow> call (GetSealed s c i (\<lambda>m bs. stream_Send (response T m bs))) fail (\<lambda>_. ret Finished)
      | OpList u \<Rightarrow> call (Service_List s c u) fail (\<lambda>mls. ret (Listed mls))
      | OpSync u mode \<Rightarrow> call (Service_Sync s c u mode (\<lambda>m bs. stream_Send (response T m bs))) fail (\<lambda>_. ret Finished))"

fun outcome_of :: "outcome result \<Rightarrow> outcome" where
  "outcome_of (Ok out) = out"
| "outcome_of _ = Failed"

text \<open>Calls one after the other, each under its own context; between them everything outside the
  database may change.\<close>

inductive service_run :: "timestamp_lib \<Rightarrow> Service \<Rightarrow> (vault_op \<times> outcome) list \<Rightarrow> world \<Rightarrow> world \<Rightarrow> bool"
  for T s where
  start: "service_run T s [] w w"
| called: "exec_op T s c op w = (r, w1) \<Longrightarrow> service_run T s tr w1 w2 \<Longrightarrow>
    service_run T s ((op, outcome_of r) # tr) w w2"
| paused: "db v = db w \<Longrightarrow> open_tx v = open_tx w \<Longrightarrow> service_run T s tr v w2 \<Longrightarrow> service_run T s tr w w2"

section \<open>Refinement\<close>

lemma Send_db: "frames db (stream_Send msg)"
  by (rule framesI) (simp add: stream_Send_def split: option.split)

lemma call_ret_map: "call m fail (\<lambda>x. ret (f x)) w = (r, w') \<longleftrightarrow> (\<exists>r0. m w = (r0, w') \<and> r = map_result f r0)"
  by (auto simp: call_def comp_simps split: result.splits prod.splits)

lemma outcome_of_map: "outcome_of (map_result f r) = (case r of Ok x \<Rightarrow> f x | _ \<Rightarrow> Failed)"
  by (cases r) simp_all

lemma map_result_Ok: "Ok y = map_result f r \<longleftrightarrow> (\<exists>x. r = Ok x \<and> y = f x)"
  by (cases r) auto

lemma frames_case_option:
  "frames f m \<Longrightarrow> (\<And>x. frames f (g x)) \<Longrightarrow> frames f (case v of None \<Rightarrow> m | Some x \<Rightarrow> g x)"
  by (cases v) simp_all

context keeper_storage
begin

lemma undo_put_frames: "frames (\<lambda>w. other_tables (db w)) (undo_put service c loc e)"
  unfolding undo_put_def by (intro frames_rules) (simp add: NewService_def obj.delete_frames)

lemma AddSealed_any:
  assumes "wf_world w" and "AddSealed service c u mp bs w = (r, w')"
  shows "catalog w' = catalog w \<or> (\<exists>m k loc xs. mp = Some m \<and> parse u = Some k \<and>
    copies k (m\<lparr>MetaUserID := u\<rparr>) loc xs \<and> catalog w' = catalog w @ xs)"
proof (cases "u = '''' \<or> mp = None \<or> bs = [] \<or> \<not> storable_type (MetaDataType (the mp))")
  case True
  then show ?thesis using add_sealed_guards [OF True, of service c w] assms(2) by auto
next
  case False
  then obtain m where m: "mp = Some m" "u \<noteq> ''''" "bs \<noteq> []" "storable_type (MetaDataType m)" by auto
  let ?m = "m\<lparr>MetaUserID := u\<rparr>"
  let ?put = "with_timeout c (\<lambda>ctx1. call (bytes_NewReader bs) fail (\<lambda>rd.
      or_Put R ctx1 ?m rd (int32 (int (length bs))) (sha256_Sum256 bs)))"
  obtain rp w1 where put: "?put w = (rp, w1)" by (cases "?put w")
  have "frames (\<lambda>w. other_tables (db w)) ?put" "keeps wf_world ?put"
    by (intro frames_with_timeout frames_rules keeps_rules obj.put_frames obj.put_keeps NewReader_inv
        frames_weaken [OF NewReader_inv(2)])+
  with put assms(1) have w1: "catalog w1 = catalog w" "wf_world w1"
    by (auto intro: catalog_frame dest: framesD' keepsD') 
  show ?thesis
  proof (cases rp)
    case (Ok loc)
    let ?c = "context_WithTimeout c RepoOperationTO (now w1)"
    obtain rm w2 where mput: "mdr_Put M ?c ?m loc w1 = (rm, w2)" by (cases "mdr_Put M ?c ?m loc w1")
    have "AddSealed service c u mp bs w = call (mdr_Put M ?c ?m loc) (undo_put service ?c loc) ret w1"
      using put Ok m by (simp add: AddSealed_valid call_def with_timeout_def)
    with assms(2) mput have "w' = w2 \<or> (\<exists>e. undo_put service ?c loc e w2 = (r, w'))"
      by (auto simp: call_def comp_simps split: result.splits)
    then have "catalog w' = catalog w2"
      using framesD' [OF undo_put_frames] by (auto intro: catalog_frame)
    with meta.put_any [OF w1(2) mput] w1(1) m(1) show ?thesis by auto
  qed (use assms(2) put m w1(1) in \<open>auto simp: AddSealed_valid call_def comp_simps\<close>)
qed

lemma Service_Delete_any:
  assumes "Service_Delete service c i w = (r, w')"
  shows "catalog w' = catalog w \<or> (\<exists>k. parse i = Some k \<and> catalog w' = filter (\<lambda>y. e_id y \<noteq> k) (catalog w))"
proof (cases "i = ''''")
  case True
  then show ?thesis using assms by (simp add: Service_Delete_def comp_simps)
next
  case False
  let ?c = "context_WithTimeout c RepoOperationTO (now w)"
  obtain rm w1 where del: "mdr_Delete M ?c i w = (rm, w1)" by (cases "mdr_Delete M ?c i w")
  with assms False have "w' = w1 \<or> (\<exists>c loc ro. or_Delete R c loc w1 = (ro, w'))"
    by (auto simp: Service_Delete_def NewService_def with_timeout_def call_def comp_simps split: result.splits prod.splits)
  then have "catalog w' = catalog w1"
    using framesD' [OF obj.delete_frames] by (auto intro: catalog_frame)
  with meta.delete_any [OF del] show ?thesis by simp
qed

lemma Delete_exact:
  assumes "wf_world w" and "Service_Delete service c i w = (Ok y, w')"
  shows "\<exists>x \<in> set (catalog w). parse i = Some (e_id x) \<and> catalog w' = filter (\<lambda>y. e_id y \<noteq> e_id x) (catalog w)"
proof -
  let ?c = "context_WithTimeout c RepoOperationTO (now w)"
  from assms(2) obtain loc w1 c2 where del: "mdr_Delete M ?c i w = (Ok loc, w1)" and "or_Delete R c2 loc w1 = (Ok (), w')"
    by (auto simp: Service_Delete_def NewService_def with_timeout_def call_def comp_simps split: if_splits result.splits prod.splits)
  from this(2) have "catalog w' = catalog w1" using framesD' [OF obj.delete_frames] by (blast intro: catalog_frame)
  with meta.delete_Ok [OF assms(1) del] show ?thesis by auto
qed

lemma GetSealed_frames: "(\<And>m bs. frames db (cb m bs)) \<Longrightarrow> frames db (GetSealed service c i cb)"
  unfolding GetSealed_def
  by (intro frames_rules frames_with_timeout frames_case_prod getSealedHelper_frames) (simp_all add: NewService_def meta.get_frames)

lemma sync_loop_frames: "(\<And>m bs. frames db (cb m bs)) \<Longrightarrow> frames db (sync_loop service c mode cb mls)"
proof (induction mls)
  case (Cons ml mls)
  have "frames db (call (getSealedHelper service c (Locator ml)) fail (\<lambda>sealed.
      call (cb (Meta ml) sealed) (wrapping ''metadata and data grpc stream write callback failed'') (\<lambda>_.
      sync_loop service c mode cb mls)))"
    by (intro frames_rules getSealedHelper_frames Cons)
  then show ?case by (auto simp: frames_def keeps_def split: option.split)
qed (simp add: frames_simple)

lemma Sync_frames: "(\<And>m bs. frames db (cb m bs)) \<Longrightarrow> frames db (Service_Sync service c u mode cb)"
  unfolding Service_Sync_def
  by (intro frames_rules frames_with_timeout sync_loop_frames) (simp_all add: NewService_def meta.list_frames)

lemma exec_op_wf: "keeps wf_world (exec_op T service c op)"
  by (cases op)
     (simp_all add: exec_op_def,
      (intro keeps_rules AddSealed_keeps Delete_keeps GetSealed_keeps List_keeps Sync_keeps use_case.send_keeps)+)

lemma exec_op_frames: "op \<in> {OpGet i, OpList u, OpSync u mode} \<Longrightarrow> frames db (exec_op T service c op)"
  by (elim insertE emptyE)
     (simp_all add: exec_op_def, (intro frames_rules GetSealed_frames Service_List_frames Sync_frames Send_db)+)

lemma exec_add_refines:
  assumes "wf_world w" and "exec_op T service c (OpAdd u mp bs) w = (r, w')"
  shows "vault_step parse (OpAdd u mp bs) (outcome_of r) (catalog w) (catalog w')"
proof -
  from assms(2) obtain r0 where r0: "AddSealed service c u mp bs w = (r0, w')" "r = map_result Added r0"
    by (auto simp: exec_op_def call_ret_map)
  show ?thesis
  proof (cases "\<exists>i. r0 = Ok i")
    case True
    then obtain i where i: "r0 = Ok i" ..
    from AddSealed_catalog [OF assms(1) r0(1) [unfolded i]] show ?thesis
      using r0(2) i by (auto intro: vault_step.added)
  next
    case False
    with r0(2) have "outcome_of r = Failed" by (simp add: outcome_of_map split: result.split)
    with AddSealed_any [OF assms(1) r0(1)] show ?thesis
      by (auto intro: vault_step.add_refused vault_step.add_unanswered)
  qed
qed

lemma exec_delete_refines:
  assumes "wf_world w" and "exec_op T service c (OpDelete i) w = (r, w')"
  shows "vault_step parse (OpDelete i) (outcome_of r) (catalog w) (catalog w')"
proof -
  from assms(2) obtain r0 where r0: "Service_Delete service c i w = (r0, w')" "r = map_result (\<lambda>_. Finished) r0"
    by (auto simp: exec_op_def call_ret_map)
  show ?thesis
  proof (cases "\<exists>y. r0 = Ok y")
    case True
    then obtain y where y: "r0 = Ok y" ..
    from Delete_exact [OF assms(1) r0(1) [unfolded y]] show ?thesis
      using r0(2) y by (auto intro: vault_step.deleted)
  next
    case False
    with r0(2) have "outcome_of r = Failed" by (simp add: outcome_of_map split: result.split)
    with Service_Delete_any [OF r0(1)] show ?thesis
      by (auto intro: vault_step.delete_refused vault_step.delete_unanswered)
  qed
qed

text \<open>A read leaves the catalog alone; it remains to see what it returned.\<close>

lemma exec_read_refines:
  assumes "op \<in> {OpGet i, OpList u, OpSync u mode}" and "exec_op T service c op w = (r, w')"
    and "\<And>out. r = Ok out \<Longrightarrow> vault_step parse op out (catalog w) (catalog w)"
  shows "vault_step parse op (outcome_of r) (catalog w) (catalog w')"
proof -
  have "catalog w' = catalog w"
    using framesD' [OF exec_op_frames [OF assms(1)] assms(2)] by (rule meta.catalog_db)
  then show ?thesis using assms(1,3) by (cases r) (auto intro: vault_step.read_failed)
qed

lemma exec_op_refines:
  assumes "wf_world w" and "exec_op T service c op w = (r, w')"
  shows "vault_step parse op (outcome_of r) (catalog w) (catalog w')"
proof (cases op)
  case (OpGet i)
  with assms(2) have "vault_step parse op out (catalog w) (catalog w)" if "r = Ok out" for out
    using that GetSealed_Ok [of c i _ w w']
    by (auto simp: exec_op_def call_ret_map map_result_Ok intro: vault_step.got)
  with OpGet show ?thesis by (intro exec_read_refines [OF _ assms(2)]) auto
next
  case (OpList u)
  with assms(2) have "vault_step parse op out (catalog w) (catalog w)" if "r = Ok out" for out
    using that List_exact [of c u w _ w']
    by (auto simp: exec_op_def call_ret_map map_result_Ok intro: vault_step.listed)
  with OpList show ?thesis by (intro exec_read_refines [OF _ assms(2)]) auto
next
  case (OpSync u mode)
  with assms(2) have "vault_step parse op out (catalog w) (catalog w)" if "r = Ok out" for out
    using that Sync_sends [of c u mode T w w']
    by (auto simp: exec_op_def call_ret_map map_result_Ok intro: vault_step.synced)
  with OpSync show ?thesis by (intro exec_read_refines [OF _ assms(2)]) auto
qed (use assms exec_add_refines exec_delete_refines in auto)

lemma service_run_refines:
  "service_run T service tr w w' \<Longrightarrow> wf_world w \<Longrightarrow> vault_run parse tr (catalog w) (catalog w')"
proof (induction rule: service_run.induct)
  case (called c op w r w1 tr w2)
  then show ?case
    using keepsD' [OF exec_op_wf] by (blast intro: vault_run.stepped exec_op_refines)
next
  case (paused v w tr w2)
  then show ?case using meta.catalog_db [OF paused(1)] by (simp add: wf_world_def)
qed (rule vault_run.idle)

end

section \<open>Properties\<close>

text \<open>The service of the server refines the abstract vault: every run of calls, whatever
  each of them returns (also an error, a panic or nothing at all) and whatever happens to the
  network and outside the database between them, has a run of the vault over the catalogs of its
  databases with the same operations and outcomes.\<close>

theorem service_refines_vault:
  assumes "service_run T (server_service U) tr w w'" and "wf_world w"
  shows "vault_run (uuid_Parse U) tr (catalog_of U (db w)) (catalog_of U (db w'))"
  by (rule server_keeper.service_run_refines [OF assms])

text \<open>Users are isolated from each other as far as identifiers are kept secret: a run of
  calls that adds nothing in the name of an owner and deletes none of the ids of the owner's
  objects leaves the objects of the owner in the catalog exactly as they were.\<close>

theorem users_are_isolated:
  assumes "service_run T (server_service U) tr w w'" and "wf_world w"
    and "\<forall>(op, out) \<in> set tr. \<not> concerns (uuid_Parse U) (catalog_of U (db w)) k op"
  shows "entries_of k (catalog_of U (db w')) = entries_of k (catalog_of U (db w))"
  using server_keeper.service_run_refines [OF assms(1,2)] assms(3) by (rule vault_run_isolated)

lemma demo_delete_run:
  obtains out w' where "service_run demo_timestamp (server_service demo_uuid) [(OpDelete ''1'', out)] demo_object_world w'"
proof -
  obtain r w' where "exec_op demo_timestamp (server_service demo_uuid) context_Background (OpDelete ''1'') demo_object_world
      = (r, w')" by force
  then have "service_run demo_timestamp (server_service demo_uuid) [(OpDelete ''1'', outcome_of r)] demo_object_world w'"
    by (rule service_run.called) (rule service_run.start)
  then show thesis by (rule that)
qed

theorem service_refines_vault_witness:
  "\<exists>out w'. service_run demo_timestamp (server_service demo_uuid) [(OpDelete ''1'', out)] demo_object_world w' \<and>
     vault_run (uuid_Parse demo_uuid) [(OpDelete ''1'', out)] (catalog_of demo_uuid (db demo_object_world))
       (catalog_of demo_uuid (db w'))"
proof (rule demo_delete_run)
  fix out w'
  assume run: "service_run demo_timestamp (server_service demo_uuid) [(OpDelete ''1'', out)] demo_object_world w'"
  from service_refines_vault [OF run wf_demo_object_world] run show ?thesis by blast
qed

theorem users_are_isolated_witness:
  "\<exists>out w'. service_run demo_timestamp (server_service demo_uuid) [(OpDelete ''1'', out)] demo_object_world w' \<and>
     entries_of 2 (catalog_of demo_uuid (db w')) = entries_of 2 (catalog_of demo_uuid (db demo_object_world))"
proof (rule demo_delete_run)
  fix out w'
  assume run: "service_run demo_timestamp (server_service demo_uuid) [(OpDelete ''1'', out)] demo_object_world w'"
  have "\<not> concerns (uuid_Parse demo_uuid) (catalog_of demo_uuid (db demo_object_world)) 2 (OpDelete ''1'')"
    by (simp add: catalog_of_def demo_object_world_def demo_user_world_def demo_world_def migrated_def map_filter_simps
      row_entry_def join_type_def data_type_name_def row_MetaLoc_def)
  then have "\<forall>(op, out) \<in> set [(OpDelete ''1'', out)].
      \<not> concerns (uuid_Parse demo_uuid) (catalog_of demo_uuid (db demo_object_world)) 2 op" by simp
  from users_are_isolated [OF run wf_demo_object_world this] run show ?thesis by blast
qed


section \<open>The content of other users' objects\<close>

text \<open>The catalogs are isolated; the contents are not.  \<open>AddSealed\<close> passes the id the client sent to
  the object repository, which files the chunks under it without asking whose object it is.\<close>

definition chunk_tables :: "world \<Rightarrow> blob_row list \<times> manifest_row list" where
  "chunk_tables w = (secret_blobs (db w), chunk_manifest (db w))"

lemma chunks_of_cong: "chunk_tables v = chunk_tables w \<Longrightarrow> chunks_of (db v) k = chunks_of (db w) k"
  by (simp add: chunk_tables_def chunks_of_def)

lemma metadata_put_chunks: "frames chunk_tables (mdr_Put (NewMetadataRepository U) c m loc)"
  unfolding NewMetadataRepository_def MetadataRepo.select_convs MetadataRepository_Put_def call_fail_ret chunk_tables_def
  by (intro WithRetry_frames frames_rules pool_exec_db) (simp_all add: sql_PutMetadata_def split: option.split)

lemma undo_put_chunks: "frames chunk_tables (undo_put (server_service U) c loc e)"
  unfolding undo_put_def NewService_def router_repo_def
  by (intro frames_rules) (simp add: frames_def keeps_def StoreRouter_Delete_New)

lemma server_put_storable:
  assumes "storable_type (MetaDataType m)"
  shows "or_Put (router_repo (router_New (reposByType (NewObjectRepository U)))) c m r sz sha =
    call (SealedRepo_Put U c m r sz sha) (wrapping ''storage Put'') ret"
  using assms data_types_distinct
  by (intro ext) (auto simp: router_repo_def StoreRouter_Put_def pickByType_def router_New_def reposByType_def storable_type_def
      invoke_def NewObjectRepository_def call_def [of "pure_call _"] comp_simps)

lemma server_add_chunks:
  assumes "reliable c w" and "u \<noteq> ''''" and "bs \<noteq> []" "length bs < 2 ^ 31" and "storable_type (MetaDataType m)"
    and "uuid_Parse U (ID m) = Some k" and "ready_for k (uuid_src w (Suc (uuid_pos w))) (db w)"
  shows "chunks_of (db (snd (AddSealed (server_service U) c u (Some m) bs w))) k = [(bs, int (length bs))]"
proof -
  let ?c1 = "context_WithTimeout c RepoOperationTO (now w)" and ?m = "m\<lparr>MetaUserID := u\<rparr>"
  let ?w1 = "w\<lparr>readers := (readers w)(next_reader w := bs), next_reader := Suc (next_reader w)\<rparr>"
  let ?rest = "\<lambda>loc. with_timeout c (\<lambda>ctx2. call (mdr_Put (NewMetadataRepository U) ctx2 ?m loc)
      (undo_put (server_service U) ctx2 loc) ret)"
  have "reliable ?c1 ?w1" using reliable_timeout [OF assms(1)] by (simp add: reliable_def)
  then obtain w2 where put: "putLogic U ?c1 ?m (next_reader w) (int (length bs)) (GenerateSHA256 bs) ?w1 = (Ok (uuid_String U k), w2)"
    and w2: "db w2 = with_chunk k (uuid_src w (Suc (uuid_pos w))) bs (db w)"
    by (rule putLogic_one_chunk [where r = "next_reader w" and bs = bs and U = U and meta = ?m and k = k])
       (use assms in simp_all)
  have eq: "AddSealed (server_service U) c u (Some m) bs w = ?rest (''pg://'' @ uuid_String U k) w2"
    using put assms
    by (simp add: server_keeper.AddSealed_valid server_put_storable with_timeout_def bytes_NewReader_def
        SealedRepo_Put_def WithRetry_Ok int32_id GenerateSHA256_def call_def comp_simps)
  have rest: "frames chunk_tables (?rest loc)" for loc
    by (intro frames_with_timeout frames_rules metadata_put_chunks undo_put_chunks)
  have "chunk_tables (snd (AddSealed (server_service U) c u (Some m) bs w)) = chunk_tables w2"
    unfolding eq by (rule framesD [OF rest])
  from chunks_of_cong [OF this] with_chunk_chunks [OF assms(7), of bs] show ?thesis by (simp add: w2)
qed

text \<open>C6: Any user can write the content of any object that has none yet: when the id in the metadata of
  \<open>AddSealed\<close> is that of an object in the catalog, the data sent becomes the content of that object,
  whoever owns it and whatever the call returns, while the catalog still names the owner.\<close>

theorem add_writes_foreign_object:
  assumes "wf_world w" and "reliable c w" and "x \<in> set (catalog_of U (db w))" and "uuid_Parse U (ID m) = Some (e_id x)"
    and "ready_for (e_id x) (uuid_src w (Suc (uuid_pos w))) (db w)"
    and "u \<noteq> ''''" and "bs \<noteq> []" "length bs < 2 ^ 31" and "storable_type (MetaDataType m)"
    and "AddSealed (server_service U) c u (Some m) bs w = (r, w')"
  shows "chunks_of (db w) (e_id x) = [] \<and> chunks_of (db w') (e_id x) = [(bs, int (length bs))] \<and> x \<in> set (catalog_of U (db w'))"
proof -
  have "chunks_of (db w) (e_id x) = []"
    using ready_manifest(1) [OF assms(5)] by (auto simp: chunks_of_def filter_empty_conv)
  moreover have "chunks_of (db w') (e_id x) = [(bs, int (length bs))]"
    using server_add_chunks [OF assms(2,6-9,4,5)] assms(10) by simp
  moreover have "x \<in> set (catalog_of U (db w'))"
    using server_keeper.AddSealed_any [OF assms(1,10)] assms(3) by auto
  ultimately show ?thesis by blast
qed

theorem add_writes_foreign_object_witness:
  "\<exists>x r w'. x \<in> set (catalog_of demo_uuid (db demo_object_world)) \<and> e_owner x = 1 \<and>
     AddSealed (server_service demo_uuid) context_Background ''2'' (Some (demo_card\<lparr>ID := ''1''\<rparr>)) [1, 2] demo_object_world = (r, w') \<and>
     chunks_of (db w') 1 = [([1, 2], 2)]"
proof -
  obtain x where x: "x \<in> set (catalog_of demo_uuid (db demo_object_world))" "e_id x = 1" "e_owner x = 1"
    by (simp add: catalog_of_def demo_object_world_def demo_user_world_def demo_world_def migrated_def map_filter_simps
      row_entry_def join_type_def data_type_name_def row_MetaLoc_def)
  obtain r w' where run: "AddSealed (server_service demo_uuid) context_Background ''2'' (Some (demo_card\<lparr>ID := ''1''\<rparr>)) [1, 2]
      demo_object_world = (r, w')" by force
  have w: "reliable context_Background demo_object_world" "uuid_pos demo_object_world = 5" "uuid_src demo_object_world = of_nat"
    by (simp_all add: reliable_def demo_object_world_def demo_catalog_world_def demo_user_world_def demo_world_def)
  have m: "uuid_Parse demo_uuid (ID (demo_card\<lparr>ID := ''1''\<rparr>)) = Some (e_id x)" "storable_type (MetaDataType (demo_card\<lparr>ID := ''1''\<rparr>))"
    by (simp_all add: demo_uuid_1 x(2) demo_card_def storable_type_def)
  have "chunks_of (db w') (e_id x) = [([1, 2], int (length [1, 2 :: byte]))]"
    using add_writes_foreign_object [OF wf_demo_object_world w(1) x(1) m(1) _ _ _ _ m(2) run] demo_ready
    by (simp add: w x(2))
  with x run show ?thesis by auto
qed


section \<open>A stream of additions\<close>

text \<open>The operation a request of the stream asks for, once it is converted.\<close>

definition add_op :: "timestamp_lib \<Rightarrow> UserID \<Rightarrow> AddRequest \<Rightarrow> vault_op" where
  "add_op T u req =
     (case FromProtoMetadata T (AddRequest_GetMetadata (Some req)) of
        Ok m \<Rightarrow> OpAdd u (Some m) (or_zero [] (Payload_GetSealedData (AddRequest_GetPayload (Some req))))
      | _ \<Rightarrow> OpAdd u None [])"

fun is_Added :: "outcome \<Rightarrow> bool" where
  "is_Added (Added _) = True"
| "is_Added _ = False"

text \<open>A run that adds the first requests of a list, all but the last of them successfully.\<close>

definition adds_prefix :: "timestamp_lib \<Rightarrow> UserID \<Rightarrow> AddRequest list \<Rightarrow> bool \<Rightarrow> (vault_op \<times> outcome) list \<Rightarrow> bool" where
  "adds_prefix T u reqs complete tr \<longleftrightarrow>
     (\<exists>n \<le> length reqs. map fst tr = map (add_op T u) (take n reqs) \<and> list_all (is_Added \<circ> snd) (butlast tr) \<and>
        (complete \<longrightarrow> n = length reqs \<and> list_all (is_Added \<circ> snd) tr))"

lemma adds_prefix_Nil: "adds_prefix T u reqs False []"
  unfolding adds_prefix_def by (intro exI [of _ 0]) simp

lemma adds_prefix_last: "adds_prefix T u (req # reqs) False [(add_op T u req, out)]"
  unfolding adds_prefix_def by (intro exI [of _ 1]) simp

lemma adds_prefix_Cons:
  assumes "adds_prefix T u reqs complete tr" and "is_Added out"
  shows "adds_prefix T u (req # reqs) complete ((add_op T u req, out) # tr)"
proof -
  from assms(1) obtain n where "n \<le> length reqs" "map fst tr = map (add_op T u) (take n reqs)"
    "list_all (is_Added \<circ> snd) (butlast tr)" "complete \<Longrightarrow> n = length reqs \<and> list_all (is_Added \<circ> snd) tr"
    by (auto simp: adds_prefix_def)
  then show ?thesis
    unfolding adds_prefix_def using assms(2) by (intro exI [of _ "Suc n"]) (auto split: list.splits)
qed

lemma add_each_run:
  "add_each T (service_iface s) c u reqs w = (r, w') \<Longrightarrow>
     \<exists>tr. service_run T s tr w w' \<and> adds_prefix T u reqs (is_Ok r) tr"
proof (induction reqs arbitrary: w)
  case Nil
  then show ?case
    by (intro exI [of _ "[]"]) (auto simp: comp_simps adds_prefix_def intro: service_run.start)
next
  case (Cons req reqs)
  have stop: ?case if "\<not> is_Ok r" "w' = w"
    using that adds_prefix_Nil [of T u] service_run.start [of T s w] by auto
  show ?case
  proof (cases "\<exists>m bs. FromProtoMetadata T (AddRequest_GetMetadata (Some req)) = Ok m \<and>
      Payload_GetSealedData (AddRequest_GetPayload (Some req)) = Some bs")
    case False
    with Cons.prems show ?thesis
      by (intro stop) (auto simp: comp_simps call_def Payload_GetSealedData_def split: option.splits result.splits)
  next
    case True
    then obtain m bs where m: "FromProtoMetadata T (AddRequest_GetMetadata (Some req)) = Ok m"
      "Payload_GetSealedData (AddRequest_GetPayload (Some req)) = Some bs" by blast
    obtain r0 w1 where add: "AddSealed s c u (Some m) bs w = (r0, w1)" by force
    have op: "add_op T u req = OpAdd u (Some m) bs" by (simp add: add_op_def m)
    have run: "service_run T s ((add_op T u req, outcome_of (map_result Added r0)) # tr) w w2" if "service_run T s tr w1 w2" for tr w2
      by (rule service_run.called [OF _ that, where c = c]) (simp add: op exec_op_def call_ret_map add)
    have eq: "add_each T (service_iface s) c u (req # reqs) w =
        call (AddSealed s c u (Some m) bs) (status Internal ''add failed'') (\<lambda>_. add_each T (service_iface s) c u reqs) w"
      using m by (auto simp: service_iface_def call_def [of "pure_call _"] comp_simps FromProtoMetadata_def Payload_GetSealedData_def
          split: option.splits)
    show ?thesis
    proof (cases r0)
      case (Ok i)
      with Cons.prems eq add have "add_each T (service_iface s) c u reqs w1 = (r, w')" by (simp add: call_def)
      from Cons.IH [OF this] obtain tr where "service_run T s tr w1 w'" "adds_prefix T u reqs (is_Ok r) tr" by blast
      with run Ok adds_prefix_Cons [of T u reqs _ tr "Added i" req] show ?thesis by fastforce
    qed (use Cons.prems eq add run [OF service_run.start] adds_prefix_last [of T u req reqs] in
        \<open>fastforce simp: call_def comp_simps\<close>)+
  qed
qed



definition demo_request :: AddRequest where
  "demo_request = \<lparr>add_Metadata = ToProtoMetadata demo_timestamp (Some (demo_card\<lparr>ID := ''1''\<rparr>)),
     add_Payload = Some \<lparr>SealedData = Some [1, 2]\<rparr>\<rparr>"

lemma demo_stream:
  obtains e w' where "KeeperGRPC_Add (\<lambda>_. '''') demo_timestamp (service_iface (server_service demo_uuid))
      (context_WithValue_UserID context_Background ''1'') [Inr demo_request, Inr (demo_request\<lparr>add_Payload := None\<rparr>), Inl (Sentinel Io_EOF)]
      None demo_object_world = (Err e, w')"
    and "length (catalog_of demo_uuid (db w')) > length (catalog_of demo_uuid (db demo_object_world))"
proof -
  let ?c = "context_WithValue_UserID context_Background ''1''"
  let ?m = "demo_card\<lparr>ID := ''1'', MetaUserID := ''''\<rparr>"
  have "AddSealed s c u (Some ?m) bs = AddSealed s c u (Some (demo_card\<lparr>ID := ''1''\<rparr>)) bs" for s c u bs
    by (simp add: AddSealed_def)
  then obtain i w' where add: "AddSealed (server_service demo_uuid) ?c ''1'' (Some ?m) [1, 2] demo_object_world = (Ok i, w')"
    using demo_add_as by metis
  have m: "FromProtoMetadata demo_timestamp (add_Metadata demo_request) = Ok ?m"
    by (simp add: demo_request_def FromProtoMetadata_def ToProtoMetadata_def metadata_getters pb_data_type_defs demo_card_def
        data_types_distinct demo_timestamp_def)
  then obtain md where md: "add_Metadata demo_request = Some md" by (auto simp: demo_request_def ToProtoMetadata_def Let_def)
  note m = m [unfolded md]
  have bytes: "add_Payload demo_request = Some \<lparr>SealedData = Some [1, 2]\<rparr>" by (simp add: demo_request_def)
  have run: "KeeperGRPC_Add (\<lambda>_. '''') demo_timestamp (service_iface (server_service demo_uuid)) ?c
      [Inr demo_request, Inr (demo_request\<lparr>add_Payload := None\<rparr>), Inl (Sentinel Io_EOF)] None demo_object_world =
      (Err (StatusErr InvalidArgument MsgAgentWrong), w')"
    using add m md bytes
    by (simp add: KeeperGRPC_Add_def with_user_def service_iface_def AddRequest_GetMetadata_def AddRequest_GetPayload_def
        Payload_GetSealedData_def call_def comp_simps)
  from that [OF run] server_keeper.AddSealed_catalog [OF wf_demo_object_world add] show thesis by auto
qed


end
