(* ===== verification/Dbmanager.thy ===== *)
theory Dbmanager
  imports Db_Common
begin

text \<open>
  Package \<open>dbmanager\<close> (\<open>src/internal/service/server/dbmanager/dbmanager.go\<close>) and
  \<open>dbConnect\<close> of \<open>src/cmd/server/main.go\<close>: opening the pool, applying the migrations
  and the fluent chain that start-up runs.  The packages \<open>pgxpool\<close> and
  \<open>golang-migrate\<close> are third-party: the records \<open>pgx_lib\<close> and
  \<open>migrate_lib\<close>.  A pool is represented by the configuration it was opened with and the mark
  that it has been closed, after which it refuses every request.
\<close>

section \<open>The packages\<close>

record pool_config =
  pc_dsn :: string
  MinConns :: int
  MaxConns :: int
  pc_closed :: bool

record pgx_lib =
  pgx_ParseConfig :: "string \<Rightarrow> pool_config result"
  pgx_NewWithConfig :: "ctx \<Rightarrow> pool_config \<Rightarrow> (world, pool_config) comp"

record upCloser =
  mig_Up :: "(world, unit) comp"
  mig_Close :: "world \<Rightarrow> (goerr option \<times> goerr option) \<times> world"

record ('fs, 'src) migrate_lib =
  iofs_New :: "'fs \<Rightarrow> string \<Rightarrow> 'src result"
  migrate_NewWithSourceInstance :: "string \<Rightarrow> 'src \<Rightarrow> string \<Rightarrow> (world, upCloser) comp"

text \<open>A ping is a round trip with an empty statement.\<close>

definition sql_Ping :: "unit stmt" where
  "sql_Ping fresh at t = (Ok (), t)"

definition pool_Ping :: "ctx \<Rightarrow> (world, unit) comp" where
  "pool_Ping c = pool_exec c sql_Ping"

text \<open>\<open>pgxpool.Pool.Close\<close>, of which only the effect on later requests is modelled: it also waits for
  the connections in use.\<close>

definition pool_Close :: "pool_config \<Rightarrow> pool_config" where
  "pool_Close p = p\<lparr>pc_closed := True\<rparr>"

section \<open>The manager\<close>

record 'fs DBManager =
  migrationsFS :: 'fs
  pool :: "pool_config option"
  dsn :: string

definition DBManager_New :: "string \<Rightarrow> 'fs \<Rightarrow> 'fs DBManager" where
  "DBManager_New d fs = \<lparr>migrationsFS = fs, pool = None, dsn = d\<rparr>"

definition newMigrator :: "('fs, 'src) migrate_lib \<Rightarrow> 'src \<Rightarrow> string \<Rightarrow> (world, upCloser) comp" where
  "newMigrator L src d =
     call (migrate_NewWithSourceInstance L ''iofs'' src d) (wrapping ''failed to get a new migrate instance'') ret"

text \<open>The deferred function of \<open>ApplyMigrations\<close>, on the named result \<open>err\<close>.\<close>

definition close_migrations :: "upCloser \<Rightarrow> goerr option \<Rightarrow> (world, unit) comp" where
  "close_migrations mig err w =
     (case mig_Close mig w of
        ((sourceErr, dbErr), w') \<Rightarrow>
          let err1 = (if sourceErr \<noteq> None
                      then errors_Join [err, Some (ErrNew ''failed to close migrations source'')] else err);
              err2 = (if dbErr \<noteq> None
                      then errors_Join [err1, Some (ErrNew ''failed to close DB connection used by migrate'')] else err1)
          in (case err2 of None \<Rightarrow> (Ok (), w') | Some e \<Rightarrow> (Err e, w')))"

definition run_migrations :: "upCloser \<Rightarrow> (world, unit) comp" where
  "run_migrations mig w =
     (case mig_Up mig w of
        (Ok _, w1) \<Rightarrow> close_migrations mig None w1
      | (Err e, w1) \<Rightarrow>
          if errors_Is e Migrate_ErrNoChange then close_migrations mig None w1
          else close_migrations mig (Some (Wrap ''failed to apply migrations to the DB'' e)) w1
      | (Panic p, w1) \<Rightarrow> (Panic p, snd (mig_Close mig w1))
      | (Hang, w1) \<Rightarrow> (Hang, w1))"

definition ApplyMigrations :: "('fs, 'src) migrate_lib \<Rightarrow> 'fs DBManager \<Rightarrow> (world, unit) comp" where
  "ApplyMigrations L m =
     call (pure_call (iofs_New L (migrationsFS m) ''.'')) (wrapping ''failed to return an iofs driver'') (\<lambda>srcDrv.
     call (newMigrator L srcDrv (dsn m)) (wrapping ''failed to start migrate'') run_migrations)"

text \<open>\<open>Connect\<close> writes the pool of its receiver; the receiver is returned with the error.\<close>

definition Connect :: "pgx_lib \<Rightarrow> ctx \<Rightarrow> 'fs DBManager \<Rightarrow> (world, 'fs DBManager \<times> goerr option) comp" where
  "Connect P c m =
     (if dsn m = '''' then ret (m, Some (ErrNew ''failed to connect: dsn is empty''))
      else
        call (pure_call (pgx_ParseConfig P (dsn m))) (\<lambda>e. ret (m, Some (Wrap ''failed to parse DSN'' e))) (\<lambda>conf.
        call (pgx_NewWithConfig P c (conf\<lparr>MinConns := 1, MaxConns := 10\<rparr>))
          (\<lambda>e. ret (m\<lparr>pool := None\<rparr>, Some (Wrap ''failed to parse DSN'' e)))
          (\<lambda>p. ret (m\<lparr>pool := Some p\<rparr>, None))))"

definition GetPool :: "'fs DBManager \<Rightarrow> pool_config result" where
  "GetPool m = (case pool m of None \<Rightarrow> Err (ErrNew ''pool is nil'') | Some p \<Rightarrow> Ok p)"

definition DBManager_Close :: "'fs DBManager \<Rightarrow> 'fs DBManager" where
  "DBManager_Close m = (case pool m of None \<Rightarrow> m | Some p \<Rightarrow> m\<lparr>pool := Some (pool_Close p)\<rparr>)"

definition DBManager_Ping :: "ctx \<Rightarrow> 'fs DBManager \<Rightarrow> (world, unit) comp" where
  "DBManager_Ping c m =
     (case pool m of
        None \<Rightarrow> fail (ErrNew ''pool is nil'')
      | Some p \<Rightarrow> call (if pc_closed p then fail (ErrLib ''closed pool'') else pool_Ping c)
          (wrapping ''failed to ping the DB'') ret)"

section \<open>The fluent chain\<close>

record 'fs Fluent =
  f_m :: "'fs DBManager"
  f_err :: "goerr option"

definition FluentNew :: "string \<Rightarrow> 'fs \<Rightarrow> 'fs Fluent" where
  "FluentNew d fs = \<lparr>f_m = DBManager_New d fs, f_err = None\<rparr>"

definition Fluent_Connect :: "pgx_lib \<Rightarrow> ctx \<Rightarrow> 'fs Fluent \<Rightarrow> (world, 'fs Fluent) comp" where
  "Fluent_Connect P c f =
     (if f_err f = None then call (Connect P c (f_m f)) fail (\<lambda>(m, err). ret \<lparr>f_m = m, f_err = err\<rparr>)
      else ret f)"

definition Fluent_ApplyMigrations :: "('fs, 'src) migrate_lib \<Rightarrow> 'fs Fluent \<Rightarrow> (world, 'fs Fluent) comp" where
  "Fluent_ApplyMigrations L f =
     (if f_err f = None
      then call (ApplyMigrations L (f_m f)) (\<lambda>e. ret (f\<lparr>f_err := Some e\<rparr>)) (\<lambda>_. ret f)
      else ret f)"

definition Fluent_Ping :: "ctx \<Rightarrow> 'fs Fluent \<Rightarrow> (world, 'fs Fluent) comp" where
  "Fluent_Ping c f =
     (if f_err f = None
      then call (DBManager_Ping c (f_m f)) (\<lambda>e. ret (f\<lparr>f_err := Some e\<rparr>)) (\<lambda>_. ret f)
      else ret f)"

definition Fluent_Result :: "'fs Fluent \<Rightarrow> 'fs DBManager \<times> goerr option" where
  "Fluent_Result f = (f_m f, f_err f)"

definition dbConnect ::
  "pgx_lib \<Rightarrow> ('fs, 'src) migrate_lib \<Rightarrow> ctx \<Rightarrow> string \<Rightarrow> 'fs \<Rightarrow> (world, 'fs DBManager) comp" where
  "dbConnect P L c d fs =
     with_timeout c (\<lambda>ctxTO.
     call (Fluent_Connect P ctxTO (FluentNew d fs)) fail (\<lambda>f1.
     call (Fluent_ApplyMigrations L f1) fail (\<lambda>f2.
     call (Fluent_Ping ctxTO f2) fail (\<lambda>f3.
     case Fluent_Result f3 of
       (m, None) \<Rightarrow> ret m
     | (m, Some e) \<Rightarrow> fail (Wrap ''DBManager init'' e)))))"

section \<open>Lemmas\<close>

lemma Connect_Ok_iff:
  "Connect P c m w = (Ok (m', None), w') \<longleftrightarrow>
     (\<exists>conf p. dsn m \<noteq> '''' \<and> pgx_ParseConfig P (dsn m) = Ok conf \<and>
        pgx_NewWithConfig P c (conf\<lparr>MinConns := 1, MaxConns := 10\<rparr>) w = (Ok p, w') \<and> m' = m\<lparr>pool := Some p\<rparr>)"
  by (auto simp: Connect_def call_def comp_simps split: result.splits prod.splits)

text \<open>The migrations count as applied when \<open>Up\<close> succeeds or has nothing to do, and both
  halves close.\<close>

definition migrates :: "upCloser \<Rightarrow> world \<Rightarrow> world \<Rightarrow> bool" where
  "migrates mig w w' \<longleftrightarrow>
     (case mig_Up mig w of
        (Ok _, w1) \<Rightarrow> mig_Close mig w1 = ((None, None), w')
      | (Err e, w1) \<Rightarrow> errors_Is e Migrate_ErrNoChange \<and> mig_Close mig w1 = ((None, None), w')
      | _ \<Rightarrow> False)"

lemma close_migrations_Ok:
  "close_migrations mig err w = (Ok (), w') \<longleftrightarrow> err = None \<and> mig_Close mig w = ((None, None), w')"
  by (auto simp: close_migrations_def Let_def errors_Join_def map_filter_simps split: prod.splits option.splits if_splits)

lemma run_migrations_Ok: "run_migrations mig w = (Ok (), w') \<longleftrightarrow> migrates mig w w'"
  by (auto simp: run_migrations_def migrates_def close_migrations_Ok split: prod.splits result.splits)

lemma ApplyMigrations_Ok_iff:
  "ApplyMigrations L m w = (Ok (), w') \<longleftrightarrow>
     (\<exists>src mig w1. iofs_New L (migrationsFS m) ''.'' = Ok src \<and>
        migrate_NewWithSourceInstance L ''iofs'' src (dsn m) w = (Ok mig, w1) \<and> migrates mig w1 w')"
  by (auto simp: ApplyMigrations_def newMigrator_def call_def comp_simps run_migrations_Ok split: result.splits prod.splits)

lemma DBManager_Ping_Ok_iff:
  "DBManager_Ping c m w = (Ok (), w') \<longleftrightarrow> (\<exists>p. pool m = Some p \<and> \<not> pc_closed p) \<and> pool_Ping c w = (Ok (), w')"
  by (auto simp: DBManager_Ping_def call_def comp_simps split: option.splits result.splits prod.splits)

text \<open>After \<open>Close\<close> the manager still hands out its pool, which then answers nothing: a ping fails without
  reaching the database.\<close>

lemma closed_manager:
  "DBManager_Close (DBManager_Close m) = DBManager_Close m"
  "GetPool (DBManager_Close m) = rcall (GetPool m) Err (\<lambda>p. Ok (pool_Close p))"
  "\<exists>e. DBManager_Ping c (DBManager_Close m) w = (Err e, w)"
  by (simp_all add: DBManager_Close_def pool_Close_def GetPool_def DBManager_Ping_def call_def comp_simps split: option.split)

text \<open>A successful start runs every link of the chain.\<close>

lemma dbConnect_chain:
  "dbConnect P L c d fs w = (Ok m, w') \<longleftrightarrow>
     (\<exists>w1 w2. Connect P (context_WithTimeout c RepoOperationTO (now w)) (DBManager_New d fs) w = (Ok (m, None), w1) \<and>
        ApplyMigrations L m w1 = (Ok (), w2) \<and>
        DBManager_Ping (context_WithTimeout c RepoOperationTO (now w)) m w2 = (Ok (), w'))"
  by (auto simp: dbConnect_def with_timeout_def Fluent_Connect_def Fluent_ApplyMigrations_def Fluent_Ping_def Fluent_Result_def
      FluentNew_def call_def comp_simps split: result.splits prod.splits option.splits if_splits)

lemma pool_Ping_in_time: "pool_Ping c w = (Ok (), w') \<Longrightarrow> ctx_Err c (now w) = None"
  by (auto simp: pool_Ping_def pool_exec_def split: option.splits)

section \<open>Properties\<close>

text \<open>C36: Start-up connects exactly when the DSN is not empty and parses, the pool opens with
  one to ten connections, the migrations are applied or already in place and close without
  error, and the database answers a ping; the manager returned holds that open pool.  All of it has
  to happen within the two seconds of one context: the ping is sent only before they are
  over.\<close>

theorem dbConnect_Ok_iff:
  "dbConnect P L c d fs w = (Ok m, w') \<longleftrightarrow>
     (\<exists>conf p src mig w1 w2 w3. d \<noteq> '''' \<and> pgx_ParseConfig P d = Ok conf \<and>
        pgx_NewWithConfig P (context_WithTimeout c RepoOperationTO (now w)) (conf\<lparr>MinConns := 1, MaxConns := 10\<rparr>) w
          = (Ok p, w1) \<and>
        iofs_New L fs ''.'' = Ok src \<and> migrate_NewWithSourceInstance L ''iofs'' src d w1 = (Ok mig, w2) \<and>
        migrates mig w2 w3 \<and> now w3 < now w + RepoOperationTO \<and>
        pool_Ping (context_WithTimeout c RepoOperationTO (now w)) w3 = (Ok (), w') \<and>
        \<not> pc_closed p \<and> m = \<lparr>migrationsFS = fs, pool = Some p, dsn = d\<rparr>)"
proof -
  have "now w3 < now w + RepoOperationTO"
    if "pool_Ping (context_WithTimeout c RepoOperationTO (now w)) w3 = (Ok (), w')" for w3
    using pool_Ping_in_time [OF that] ctx_Err_expired [of "now w" RepoOperationTO "now w3" c] by fastforce
  then show ?thesis
    unfolding dbConnect_chain Connect_Ok_iff ApplyMigrations_Ok_iff DBManager_Ping_Ok_iff DBManager_New_def by fastforce
qed

end
