(* ===== verification/Config.thy ===== *)
theory Config
  imports Go_Strings
begin

text \<open>
  Package \<open>config\<close> (\<open>src/pkg/config/config.go\<close>): the builder that reads the settings
  from the environment and then from the command line.  The package that fills a structure from
  environment variables is third-party and an argument; \<open>flag.Parse\<close> is the standard
  library's algorithm for flags that take a value.
\<close>

record Config =
  RunAddr :: string
  DatabaseURI :: string
  SecretKey :: string
  LogLevel :: string
  CertsDir :: string

record Builder =
  cfg :: Config

definition NewBuilder :: Builder where
  "NewBuilder = \<lparr>cfg = \<lparr>RunAddr = '''', DatabaseURI = '''', SecretKey = '''', LogLevel = '''', CertsDir = ''''\<rparr>\<rparr>"

text \<open>\<open>env.Parse\<close> writes through the pointer and may fail half way; the error is logged.\<close>

definition FromEnv :: "(Config \<Rightarrow> Config \<times> goerr option) \<Rightarrow> Builder \<Rightarrow> Builder" where
  "FromEnv env_Parse b = b\<lparr>cfg := fst (env_Parse (cfg b))\<rparr>"

section \<open>The command line\<close>

text \<open>The five flags and the field each writes (\<open>flag.StringVar\<close>).\<close>

definition flag_names :: "string list" where
  "flag_names = [''a'', ''d'', ''k'', ''l'', ''c'']"

definition set_flag :: "string \<Rightarrow> string \<Rightarrow> Config \<Rightarrow> Config" where
  "set_flag name v x =
     (if name = ''a'' then x\<lparr>RunAddr := v\<rparr>
      else if name = ''d'' then x\<lparr>DatabaseURI := v\<rparr>
      else if name = ''k'' then x\<lparr>SecretKey := v\<rparr>
      else if name = ''l'' then x\<lparr>LogLevel := v\<rparr>
      else if name = ''c'' then x\<lparr>CertsDir := v\<rparr>
      else x)"

definition get_flag :: "string \<Rightarrow> Config \<Rightarrow> string" where
  "get_flag name x =
     (if name = ''a'' then RunAddr x
      else if name = ''d'' then DatabaseURI x
      else if name = ''k'' then SecretKey x
      else if name = ''l'' then LogLevel x
      else if name = ''c'' then CertsDir x
      else '''')"

text \<open>
  One argument of the command line, as \<open>flag\<close> reads it: the end of the flags, a syntax
  error, or a name with the value after the first \<open>=\<close> that is not its first character.
\<close>

datatype arg = Positional | Terminator | Malformed | Flag string "string option"

definition flag_arg :: "string \<Rightarrow> arg" where
  "flag_arg name =
     (if name = '''' \<or> hd name = CHR ''-'' \<or> hd name = CHR ''='' then Malformed
      else (case dropWhile (\<lambda>ch. ch \<noteq> CHR ''='') (tl name) of
              [] \<Rightarrow> Flag name None
            | _ # v \<Rightarrow> Flag (hd name # takeWhile (\<lambda>ch. ch \<noteq> CHR ''='') (tl name)) (Some v)))"

definition read_arg :: "string \<Rightarrow> arg" where
  "read_arg s =
     (if length s < 2 \<or> hd s \<noteq> CHR ''-'' then Positional
      else if s = ''--'' then Terminator
      else if s ! 1 = CHR ''-'' then flag_arg (drop 2 s)
      else flag_arg (drop 1 s))"

text \<open>The outcome: the settings and the arguments left, or the exit status of the process.\<close>

datatype parsed = Parsed Config "string list" | Exit nat

fun flag_Parse :: "string list \<Rightarrow> Config \<Rightarrow> parsed" where
  "flag_Parse [] x = Parsed x []"
| "flag_Parse (s # args) x =
     (case read_arg s of
        Positional \<Rightarrow> Parsed x (s # args)
      | Terminator \<Rightarrow> Parsed x args
      | Malformed \<Rightarrow> Exit 2
      | Flag name value \<Rightarrow>
          if name \<notin> set flag_names then (if name = ''help'' \<or> name = ''h'' then Exit 0 else Exit 2)
          else (case value of
                  Some v \<Rightarrow> flag_Parse args (set_flag name v x)
                | None \<Rightarrow> (case args of
                    [] \<Rightarrow> Exit 2
                  | v # args' \<Rightarrow> flag_Parse args' (set_flag name v x))))"

definition FromFlags :: "string list \<Rightarrow> Builder \<Rightarrow> Builder + nat" where
  "FromFlags args b =
     (case flag_Parse args (cfg b) of Parsed x _ \<Rightarrow> Inl (b\<lparr>cfg := x\<rparr>) | Exit n \<Rightarrow> Inr n)"

definition GetConfig :: "Builder \<Rightarrow> Config" where
  "GetConfig b = cfg b"

section \<open>Lemmas\<close>

lemma get_set_flag:
  "name \<in> set flag_names \<Longrightarrow> get_flag n (set_flag name v x) = (if n = name then v else get_flag n x)"
  by (auto simp: flag_names_def get_flag_def set_flag_def)

text \<open>The two ways of writing a flag.\<close>

datatype spelling = Two | Equals

fun spell :: "spelling \<times> string \<times> string \<Rightarrow> string list" where
  "spell (Two, name, v) = [CHR ''-'' # name, v]"
| "spell (Equals, name, v) = [CHR ''-'' # name @ CHR ''='' # v]"

lemma flag_Parse_spell:
  assumes "name \<in> set flag_names"
  shows "flag_Parse (spell (sp, name, v) @ args) x = flag_Parse args (set_flag name v x)"
  using assms by (cases sp) (auto simp: flag_names_def read_arg_def flag_arg_def)

lemma flag_Parse_spelled:
  assumes "\<forall>(sp, name, v) \<in> set fs. name \<in> set flag_names"
  shows "flag_Parse (concat (map spell fs)) x = Parsed (fold (\<lambda>(sp, name, v). set_flag name v) fs x) []"
  using assms by (induction fs arbitrary: x) (auto simp: flag_Parse_spell)

lemma get_fold_flags:
  assumes "\<forall>(sp, name, v) \<in> set fs. name \<in> set flag_names"
  shows "get_flag n (fold (\<lambda>(sp, name, v). set_flag name v) fs x) =
    (case map_of (rev (map snd fs)) n of Some v \<Rightarrow> v | None \<Rightarrow> get_flag n x)"
  using assms
  by (induction fs arbitrary: x) (auto simp: get_set_flag map_add_def split: option.split)

section \<open>Properties\<close>

text \<open>C37: Whatever way the flags are written (\<open>-a v\<close> or \<open>-a=v\<close>), a setting has the last
  value given for its flag on the command line, and without one the value from the
  environment.\<close>

theorem flags_override_environment:
  assumes "\<forall>(sp, name, v) \<in> set fs. name \<in> set flag_names"
  shows "\<exists>b. FromFlags (concat (map spell fs)) (FromEnv env_Parse NewBuilder) = Inl b \<and>
    (\<forall>n. get_flag n (GetConfig b) =
      (case map_of (rev (map snd fs)) n of Some v \<Rightarrow> v
       | None \<Rightarrow> get_flag n (GetConfig (FromEnv env_Parse NewBuilder))))"
  using get_fold_flags [OF assms] flag_Parse_spelled [OF assms]
  by (auto simp: FromFlags_def GetConfig_def split: option.split)

theorem flags_override_environment_witness:
  "\<exists>b. FromFlags [''-d'', ''x'', ''-a=y'', ''-d=z''] (FromEnv (\<lambda>x. (x\<lparr>LogLevel := ''info''\<rparr>, None)) NewBuilder) = Inl b \<and>
     DatabaseURI (GetConfig b) = ''z'' \<and> RunAddr (GetConfig b) = ''y'' \<and> LogLevel (GetConfig b) = ''info''"
proof -
  let ?fs = "[(Two, ''d'', ''x''), (Equals, ''a'', ''y''), (Equals, ''d'', ''z'')]"
  have "\<forall>(sp, name, v) \<in> set ?fs. name \<in> set flag_names" by (simp add: flag_names_def)
  from flags_override_environment [OF this, of "\<lambda>x. (x\<lparr>LogLevel := ''info''\<rparr>, None)"]
  obtain b where "FromFlags (concat (map spell ?fs)) (FromEnv (\<lambda>x. (x\<lparr>LogLevel := ''info''\<rparr>, None)) NewBuilder) = Inl b"
    and "\<And>n. get_flag n (GetConfig b) = (case map_of (rev (map snd ?fs)) n of Some v \<Rightarrow> v
       | None \<Rightarrow> get_flag n (GetConfig (FromEnv (\<lambda>x. (x\<lparr>LogLevel := ''info''\<rparr>, None)) NewBuilder)))"
    by blast
  from this(1) this(2) [of "''d''"] this(2) [of "''a''"] this(2) [of "''l''"] show ?thesis
    by (intro exI [of _ b]) (simp add: get_flag_def GetConfig_def FromEnv_def)
qed

end
