(* ===== verification/Api.thy ===== *)
theory Api
  imports Status_Codes Vault Dbmanager Config
begin

text \<open>
  \<open>src/internal/api/api.go\<close>: the interceptor that authenticates unary calls, the wiring of
  the repositories and services, and the server.  gRPC itself is third-party: a call arrives
  with its metadata (what \<open>md.Get\<close> returns for a key, if there is any metadata) and its
  context, in which nobody but the interceptor has set a value under the program's own key.
\<close>

section \<open>The interceptor\<close>

type_synonym md = "string \<Rightarrow> string list"

record AuthInterceptor =
  ai_sessionManager :: SessionManager

definition NewAuthInterceptor :: "SessionManager \<Rightarrow> AuthInterceptor" where
  "NewAuthInterceptor manager = \<lparr>ai_sessionManager = manager\<rparr>"

definition Interceptor ::
  "AuthInterceptor \<Rightarrow> md option \<Rightarrow> ctx \<Rightarrow> (ctx \<Rightarrow> (world, 'a) comp) \<Rightarrow> (world, 'a) comp" where
  "Interceptor i md c handler =
     (case md of
        None \<Rightarrow> fail (StatusErr Unauthenticated ''authentication error'')
      | Some md_Get \<Rightarrow>
          call (pure_call (index (md_Get MDKeyAuthorisation) 0)) fail (\<lambda>token.
          call (sm_ValidateAccessToken (ai_sessionManager i) context_Background (strings_TrimPrefix token AuthTokenPrefix))
            (status Unauthenticated ''authentication error'') (\<lambda>userID.
          handler (context_WithValue_UserID c userID))))"

section \<open>Credentials\<close>

text \<open>\<open>path.Join\<close>: the non-empty elements joined by slashes and cleaned.\<close>

fun clean_parts :: "bool \<Rightarrow> string list \<Rightarrow> string list \<Rightarrow> string list" where
  "clean_parts rooted out [] = rev out"
| "clean_parts rooted out (p # ps) =
     (if p = '''' \<or> p = ''.'' then clean_parts rooted out ps
      else if p = ''..'' then
        (case out of
           [] \<Rightarrow> clean_parts rooted (if rooted then [] else [''..'']) ps
         | q # out' \<Rightarrow> if q = ''..'' then clean_parts rooted (''..'' # out) ps else clean_parts rooted out' ps)
      else clean_parts rooted (p # out) ps)"

definition join_slash :: "string list \<Rightarrow> string" where
  "join_slash ps = (case ps of [] \<Rightarrow> '''' | p # qs \<Rightarrow> p @ concat (map (\<lambda>q. CHR ''/'' # q) qs))"

definition path_Clean :: "string \<Rightarrow> string" where
  "path_Clean s =
     (let rooted = strings_HasPrefix s ''/'';
          body = join_slash (clean_parts rooted [] (strings_Split s (CHR ''/'')))
      in if rooted then CHR ''/'' # body else if body = '''' then ''.'' else body)"

definition path_Join :: "string list \<Rightarrow> string" where
  "path_Join es =
     (case filter (\<lambda>e. e \<noteq> '''') es of [] \<Rightarrow> '''' | es' \<Rightarrow> path_Clean (join_slash es'))"

definition VersionTLS13 :: nat where
  "VersionTLS13 = 772"

record 'cert tls_Config =
  Certificates :: "'cert list"
  MinVersion :: nat

definition loadCredentials :: "(string \<Rightarrow> string \<Rightarrow> 'cert result) \<Rightarrow> string \<Rightarrow> 'cert tls_Config result" where
  "loadCredentials LoadX509KeyPair certsDir =
     (let serverCrtPath = path_Join [certsDir, ''server.crt''];
          serverKeyPath = path_Join [certsDir, ''server.key'']
      in rcall (LoadX509KeyPair serverCrtPath serverKeyPath) (\<lambda>e. Err (Wrap ''failed to load X509 Key Pair'' e)) (\<lambda>cert.
         Ok \<lparr>Certificates = [cert], MinVersion = VersionTLS13\<rparr>))"

section \<open>The server\<close>

text \<open>What is registered with the gRPC server.\<close>

record 'cert grpc_Server =
  gs_creds :: "'cert tls_Config"
  gs_unary :: AuthInterceptor
  gs_health :: "ctx \<Rightarrow> (world, unit) comp"
  gs_auth :: AuthService
  gs_keeper :: KeeperUseCase

record ('fs, 'cert) Server =
  srv_cfg :: Config
  dbManager :: "'fs DBManager"
  grpcServer :: "'cert grpc_Server option"

definition NewServer :: "Config \<Rightarrow> 'fs DBManager \<Rightarrow> ('fs, 'cert) Server" where
  "NewServer conf m = \<lparr>srv_cfg = conf, dbManager = m, grpcServer = None\<rparr>"

text \<open>The repositories all work on the pool, that is, on the database of the world.\<close>

definition setupRepos :: "uuid_lib \<Rightarrow> UserRepository \<times> RefreshTokenStorage \<times> KeeperUseCase" where
  "setupRepos U =
     (let userRepo = NewUserRepository U;
          tokenRepo = NewTokenRepository U;
          metadataRepo = NewMetadataRepository U;
          objectsStorage = NewObjectRepository U;
          objectsRouter = router_New (reposByType objectsStorage);
          useCase = NewService (router_repo objectsRouter) metadataRepo
      in (userRepo, tokenRepo, service_iface useCase))"

definition Setup ::
  "jwt_lib \<Rightarrow> uuid_lib \<Rightarrow> (string \<Rightarrow> string \<Rightarrow> 'cert result) \<Rightarrow> ('fs, 'cert) Server \<Rightarrow> ('fs, 'cert) Server result" where
  "Setup J U LoadX509KeyPair s =
     rcall (GetPool (dbManager s)) (\<lambda>e. Err (Wrap ''get pgxpool.Pool'' e)) (\<lambda>p.
     (case setupRepos U of
        (userRepo, tokenRepo, keeperRepo) \<Rightarrow>
          let sessionManager = manager_iface J (NewManager tokenRepo (NewGenerator (go_bytes (SecretKey (srv_cfg s)))))
          in rcall (loadCredentials LoadX509KeyPair (CertsDir (srv_cfg s)))
               (\<lambda>e. Err (Wrap ''failed to load TLS credentials'' e)) (\<lambda>creds.
             Ok (s\<lparr>grpcServer := Some \<lparr>gs_creds = creds, gs_unary = NewAuthInterceptor sessionManager,
               gs_health = pool_Ping, gs_auth = NewAuthService userRepo sessionManager, gs_keeper = keeperRepo\<rparr>\<rparr>))))"

definition Serve :: "(string \<Rightarrow> 'l result) \<Rightarrow> ('l \<Rightarrow> unit result) \<Rightarrow> ('fs, 'cert) Server \<Rightarrow> unit result" where
  "Serve Listen grpc_Serve s =
     rcall (Listen (RunAddr (srv_cfg s)))
       (\<lambda>e. Err (Wrap (''failed to start listening on address '' @ RunAddr (srv_cfg s)) e)) (\<lambda>listener.
     case grpcServer s of None \<Rightarrow> Panic nil_deref | Some _ \<Rightarrow> grpc_Serve listener)"

section \<open>Calls\<close>

text \<open>
  The calls of the three services.  The unary ones pass the interceptor, the streams do not: the
  server is created with \<open>ChainUnaryInterceptor\<close> only.
\<close>

datatype rpc =
    RpcPing
  | RpcLogin "LoginRequest option"
  | RpcLogout "LogoutRequest option"
  | RpcRegister "RegisterRequest option"
  | RpcDelete "DeleteRequest option"
  | RpcList
  | RpcAdd "(goerr + AddRequest) list" "goerr option"
  | RpcGet "GetRequest option"
  | RpcSync "SyncRequest option"

datatype reply = RepEmpty | RepLogin LoginResponse | RepRegister RegisterResponse | RepList ListResponse

fun streaming :: "rpc \<Rightarrow> bool" where
  "streaming (RpcAdd _ _) = True"
| "streaming (RpcGet _) = True"
| "streaming (RpcSync _) = True"
| "streaming _ = False"

definition replying :: "('a \<Rightarrow> reply) \<Rightarrow> (world, 'a) comp \<Rightarrow> (world, reply) comp" where
  "replying f m = call m fail (\<lambda>x. ret (f x))"

fun serve_rpc ::
  "argon2_lib \<Rightarrow> (goerr \<Rightarrow> string) \<Rightarrow> timestamp_lib \<Rightarrow> 'cert grpc_Server \<Rightarrow> rpc \<Rightarrow> ctx \<Rightarrow> (world, reply) comp" where
  "serve_rpc A text_of T g RpcPing c = replying (\<lambda>_. RepEmpty) (HealthService_Ping (gs_health g) c)"
| "serve_rpc A text_of T g (RpcLogin r) c = replying RepLogin (Login A (gs_auth g) c r)"
| "serve_rpc A text_of T g (RpcLogout r) c = replying (\<lambda>_. RepEmpty) (Logout (gs_auth g) c r)"
| "serve_rpc A text_of T g (RpcRegister r) c = replying RepRegister (Register A (gs_auth g) c r)"
| "serve_rpc A text_of T g (RpcDelete r) c = replying (\<lambda>_. RepEmpty) (KeeperGRPC_Delete (gs_keeper g) c r)"
| "serve_rpc A text_of T g RpcList c = replying RepList (KeeperGRPC_List T (gs_keeper g) c)"
| "serve_rpc A text_of T g (RpcAdd recvs close) c =
     replying (\<lambda>_. RepEmpty) (KeeperGRPC_Add text_of T (gs_keeper g) c recvs close)"
| "serve_rpc A text_of T g (RpcGet r) c = replying (\<lambda>_. RepEmpty) (KeeperGRPC_Get T (gs_keeper g) c r)"
| "serve_rpc A text_of T g (RpcSync r) c = replying (\<lambda>_. RepEmpty) (KeeperGRPC_Sync T (gs_keeper g) c r)"

definition handle_rpc ::
  "argon2_lib \<Rightarrow> (goerr \<Rightarrow> string) \<Rightarrow> timestamp_lib \<Rightarrow> 'cert grpc_Server \<Rightarrow> md option \<Rightarrow> ctx \<Rightarrow> rpc \<Rightarrow> (world, reply) comp" where
  "handle_rpc A text_of T g md c rq =
     (if streaming rq then serve_rpc A text_of T g rq c
      else Interceptor (gs_unary g) md c (serve_rpc A text_of T g rq))"

section \<open>The running server\<close>

text \<open>
  The process serves calls one after the other; a panic in a handler ends it, for no interceptor
  recovers.  Between calls time passes and everything outside the database may change.
\<close>

datatype process = Running world | Crashed world

fun world_of :: "process \<Rightarrow> world" where
  "world_of (Running w) = w"
| "world_of (Crashed w) = w"

inductive server_step ::
  "argon2_lib \<Rightarrow> (goerr \<Rightarrow> string) \<Rightarrow> timestamp_lib \<Rightarrow> 'cert grpc_Server \<Rightarrow> process \<Rightarrow> process \<Rightarrow> bool"
  for A text_of T g where
  served: "user_value c = None \<Longrightarrow> handle_rpc A text_of T g md c rq w = (r, w') \<Longrightarrow> \<not> is_Panic r \<Longrightarrow>
    server_step A text_of T g (Running w) (Running w')"
| crashed: "user_value c = None \<Longrightarrow> handle_rpc A text_of T g md c rq w = (Panic p, w') \<Longrightarrow>
    server_step A text_of T g (Running w) (Crashed w')"
| elapsed: "db v = db w \<Longrightarrow> open_tx v = open_tx w \<Longrightarrow> now w \<le> now v \<Longrightarrow>
    server_step A text_of T g (Running w) (Running v)"

inductive_simps server_step_Crashed: "server_step A text_of T g (Crashed w) p"

section \<open>Invariants of the server\<close>

lemma frames_replying: "frames f m \<Longrightarrow> frames f (replying k m)"
  unfolding replying_def by (intro frames_rules)

lemma keeps_replying [keeps_rules]: "keeps I m \<Longrightarrow> keeps I (replying k m)"
  unfolding replying_def by (intro keeps_rules)

text \<open>The interceptor adds nothing to what the handler does.\<close>

lemma keeps_Interceptor:
  assumes "\<And>c tok w. snd (sm_ValidateAccessToken (ai_sessionManager i) c tok w) = w" and "\<And>c. keeps I (h c)"
  shows "keeps I (Interceptor i md c h)"
proof -
  have "keeps I (sm_ValidateAccessToken (ai_sessionManager i) c tok)" for c tok
    using assms(1) by (simp add: keeps_def)
  then show ?thesis
    unfolding Interceptor_def using assms(2) by (intro keeps_rules)
qed

text \<open>An invariant that no call and no pause breaks holds in every state the server reaches.\<close>

lemma server_invariant_rule:
  assumes "\<And>md c rq. user_value c = None \<Longrightarrow> keeps I (handle_rpc A text_of T g md c rq)"
    and "\<And>v w :: world. db v = db w \<Longrightarrow> open_tx v = open_tx w \<Longrightarrow> I w \<Longrightarrow> I v"
    and "(server_step A text_of T g)\<^sup>*\<^sup>* (Running w) p" and "I w"
  shows "I (world_of p)"
  using assms(3,4)
proof (induction rule: rtranclp_induct)
  case (step p p')
  from step.hyps(2) show ?case
  proof (cases rule: server_step.cases)
    case (served c md rq v r v')
    then show ?thesis using keepsD [OF assms(1)] step by (metis snd_conv world_of.simps(1))
  next
    case (crashed c md rq v q v')
    then show ?thesis using keepsD [OF assms(1)] step by (metis snd_conv world_of.simps)
  next
    case (elapsed v v')
    then show ?thesis using assms(2) step by (metis world_of.simps(1))
  qed
qed simp

text \<open>The server that \<open>Setup\<close> builds.\<close>

abbreviation server_manager :: "jwt_lib \<Rightarrow> uuid_lib \<Rightarrow> string \<Rightarrow> SessionManager" where
  "server_manager J U key \<equiv> manager_iface J (pg_manager U (NewGenerator (go_bytes key)))"

lemma Setup_Ok:
  assumes "Setup J U load s = Ok s'" and "grpcServer s' = Some g"
  shows "gs_unary g = NewAuthInterceptor (server_manager J U (SecretKey (srv_cfg s)))"
    and "gs_health g = pool_Ping"
    and "gs_auth g = server_auth J U (NewGenerator (go_bytes (SecretKey (srv_cfg s))))"
    and "gs_keeper g = service_iface (server_service U)"
    and "pool (dbManager s) \<noteq> None"
  using assms by (auto simp: Setup_def rcall_Ok_iff setupRepos_def GetPool_def Let_def split: option.splits)

definition is_server :: "jwt_lib \<Rightarrow> uuid_lib \<Rightarrow> string \<Rightarrow> 'cert grpc_Server \<Rightarrow> bool" where
  "is_server J U key g \<longleftrightarrow>
     gs_unary g = NewAuthInterceptor (server_manager J U key) \<and> gs_health g = pool_Ping \<and>
     gs_auth g = server_auth J U (NewGenerator (go_bytes key)) \<and> gs_keeper g = service_iface (server_service U)"

lemma is_server_Setup:
  "Setup J U load s = Ok s' \<Longrightarrow> grpcServer s' = Some g \<Longrightarrow> is_server J U (SecretKey (srv_cfg s)) g"
  using Setup_Ok [of J U load s s' g] by (simp add: is_server_def)

lemma keeps_Ping: "keeps wf_world (HealthService_Ping pool_Ping c)" "frames db (HealthService_Ping pool_Ping c)"
proof -
  have "stmt_preserves wf_tables sql_Ping" by (simp add: stmt_preserves_def sql_Ping_def)
  then show "keeps wf_world (HealthService_Ping pool_Ping c)"
    unfolding HealthService_Ping_def pool_Ping_def by (intro keeps_rules)
  show "frames db (HealthService_Ping pool_Ping c)"
    unfolding HealthService_Ping_def pool_Ping_def
    by (intro frames_rules frames_with_timeout frames_status pool_exec_db [where f = "\<lambda>t. t"]) (simp add: sql_Ping_def)
qed

lemma serve_rpc_keeps: "is_server J U key g \<Longrightarrow> keeps wf_world (serve_rpc A text_of T g rq c)"
  by (cases rq)
     (simp_all add: is_server_def keeps_replying keeps_Ping pg_auth.Login_keeps pg_auth.Register_keeps pg_auth.Logout_keeps
       server_keeper.use_case.Delete_handler_keeps server_keeper.use_case.List_handler_keeps
       server_keeper.use_case.Add_keeps server_keeper.use_case.Get_handler_keeps server_keeper.use_case.Sync_handler_keeps)

lemma handle_rpc_keeps:
  assumes "is_server J U key g" and "\<And>c. keeps I (serve_rpc A text_of T g rq c)"
  shows "keeps I (handle_rpc A text_of T g md c rq)"
proof -
  have "keeps I (Interceptor (gs_unary g) md c (serve_rpc A text_of T g rq))"
    using assms(1)
    by (intro keeps_Interceptor assms(2))
       (simp add: is_server_def NewAuthInterceptor_def manager_iface_def ValidateAccessToken_def CheckAccessToken_state)
  then show ?thesis using assms(2) by (simp add: handle_rpc_def)
qed

text \<open>The users and the data types: what a server without registration never changes.\<close>

definition fixed_tables :: "tables \<Rightarrow> user_row list \<times> data_type_row list" where
  "fixed_tables t = (users t, data_types t)"

lemma fixed_tables_simps [simp]:
  "fixed_tables (delete_objects P t) = fixed_tables t"
  by (simp add: fixed_tables_def delete_objects_def Let_def)

lemma metadata_delete_fixed: "frames (\<lambda>w. fixed_tables (db w)) (mdr_Delete (NewMetadataRepository U) c i)"
  unfolding NewMetadataRepository_def MetadataRepo.select_convs MetadataRepository_Delete_def call_fail_ret
  by (intro WithRetry_frames frames_rules pool_exec_db) (simp_all add: sql_DeleteMetadata_def split: option.split)

lemma router_delete_fixed: "frames (\<lambda>w. fixed_tables (db w)) (or_Delete (router_repo (router_New bt)) c loc)"
  by (rule framesI) (simp add: router_repo_def StoreRouter_Delete_New)

lemma Delete_fixed: "frames (\<lambda>w. fixed_tables (db w)) (Service_Delete (server_service U) c i)"
  unfolding Service_Delete_def
  by (intro frames_rules frames_with_timeout) (simp_all add: NewService_def metadata_delete_fixed router_delete_fixed)

lemma Delete_handler_fixed:
  "frames (\<lambda>w. fixed_tables (db w)) (KeeperGRPC_Delete (service_iface (server_service U)) c req)"
  using Delete_fixed unfolding KeeperGRPC_Delete_def with_user_def service_iface_def
  by (auto intro!: frames_rules frames_status frames_simple split: option.split)

lemma List_handler_frames: "frames db (KeeperGRPC_List T (service_iface (server_service U)) c)"
  using server_keeper.Service_List_frames unfolding KeeperGRPC_List_def service_iface_def
  by (auto intro!: frames_rules frames_with_timeout frames_status frames_simple split: option.split)

lemma Logout_fixed: "frames (\<lambda>w. fixed_tables (db w)) (Logout (server_auth J U g) c r)"
proof -
  have "frames (\<lambda>w. fixed_tables (db w)) (sm_RevokeSession (manager_iface J (pg_manager U g)) c s)" for c s
    using frames_weaken [OF pg_tokens.sessions.revoke_frames, where g = fixed_tables]
    by (simp add: fixed_tables_def other_than_tokens_def)
  then show ?thesis
    unfolding Logout_def by (auto intro!: frames_rules frames_status frames_simple split: option.split)
qed

text \<open>The streaming handlers never see a user.\<close>

lemma stream_rpc_refused:
  assumes "streaming rq" and "user_value c = None"
  shows "\<exists>cd msg. handle_rpc A text_of T g md c rq w = (Err (StatusErr cd msg), w)"
proof -
  have "ctx_UserID c = None" using assms(2) by (simp add: ctx_UserID_def)
  then show ?thesis
    using assms(1)
    by (cases rq)
       (auto simp: handle_rpc_def replying_def KeeperGRPC_Add_def KeeperGRPC_Get_def KeeperGRPC_Sync_def with_user_none
         call_def comp_simps)
qed

lemma unary_rpc_fixed:
  assumes "is_server J U key g" and "\<not> streaming rq"
  shows "frames (\<lambda>w. fixed_tables (db w)) (serve_rpc A text_of T g rq c)"
proof -
  have 1: "frames db (Login A (server_auth J U h) c r)" for h r
    by (rule framesI) (use server_Login_fails [where A = A and J = J and U = U and g = h and c = c and r = r] in \<open>metis snd_conv\<close>)
  have 2: "frames db (Register A (server_auth J U h) c r)" for h r
    by (rule framesI) (use server_Register_fails [where A = A and J = J and U = U and g = h and c = c and r = r] in \<open>metis snd_conv\<close>)
  show ?thesis
    using assms
    by (cases rq)
       (auto simp: is_server_def intro!: frames_replying Delete_handler_fixed Logout_fixed
         frames_weaken [OF 1] frames_weaken [OF 2] frames_weaken [OF List_handler_frames] frames_weaken [OF keeps_Ping(2)])
qed

lemma empty_tables:
  assumes "wf_tables t" and "fixed_tables t = fixed_tables migrated"
  shows "t = migrated"
proof -
  from assms(2) have "users t = []" "data_types t = data_types migrated"
    by (simp_all add: fixed_tables_def migrated_def)
  moreover from this(1) assms(1) have "refresh_tokens t = []" "objects t = []" by (simp_all add: wf_defs)
  moreover from this(2) assms(1) have "secret_blobs t = []" by (simp add: wf_defs)
  moreover from this assms(1) have "chunk_manifest t = []" by (simp add: wf_defs)
  ultimately show ?thesis by (simp add: migrated_def)
qed

section \<open>Properties\<close>

text \<open>Whatever calls arrive, in whatever order, and however the network fails, every state
  the server reaches has an intact database: unique keys, no dangling reference and valid
  chunks, also in a transaction that a call left open.\<close>

theorem server_keeps_integrity:
  assumes "Setup J U load s = Ok s'" and "grpcServer s' = Some g" and "wf_world w"
    and "(server_step A text_of T g)\<^sup>*\<^sup>* (Running w) p"
  shows "wf_world (world_of p)"
proof (rule server_invariant_rule [where I = wf_world, OF _ _ assms(4,3)])
  show "keeps wf_world (handle_rpc A text_of T g md c rq)" for md c rq
    using is_server_Setup [OF assms(1,2)] by (intro handle_rpc_keeps serve_rpc_keeps)
qed (simp add: wf_world_def)

text \<open>The database of a freshly migrated server stays as the migrations left it for ever:
  no sequence of calls stores a user, a session or an object, because nobody can register or
  log in.\<close>

theorem fresh_server_stays_empty:
  assumes "Setup J U load s = Ok s'" and "grpcServer s' = Some g" and "db w = migrated" and "open_tx w = None"
    and "(server_step A text_of T g)\<^sup>*\<^sup>* (Running w) p"
  shows "db (world_of p) = migrated"
proof -
  note srv = is_server_Setup [OF assms(1,2)]
  let ?I = "\<lambda>w :: world. wf_world w \<and> fixed_tables (db w) = fixed_tables migrated"
  have "?I (world_of p)"
  proof (rule server_invariant_rule [OF _ _ assms(5)])
    show "keeps ?I (handle_rpc A text_of T g md c rq)" if "user_value c = None" for md c rq
    proof (cases "streaming rq")
      case True
      then show ?thesis using stream_rpc_refused [OF _ that] by (metis (no_types, lifting) keepsI snd_conv)
    next
      case False
      have "keeps ?I (serve_rpc A text_of T g rq c)" for c
        by (intro keeps_conj serve_rpc_keeps [OF srv] frames_keeps unary_rpc_fixed [OF srv False])
      then show ?thesis by (rule handle_rpc_keeps [OF srv])
    qed
    show "?I w" using assms(3,4) by (simp add: wf_world_def wf_migrated)
  qed (simp add: wf_world_def)
  then show ?thesis by (intro empty_tables) (simp_all add: wf_world_def)
qed

text \<open>C20: A call of a stream, \<open>Add\<close>, \<open>Get\<close> or \<open>Sync\<close>, is answered with an
  error status and has no effect, whatever credentials it carries: the interceptor that would
  identify the user is installed for unary calls only.\<close>

theorem streams_always_refused:
  assumes "streaming rq" and "user_value c = None"
  shows "\<exists>cd msg. handle_rpc A text_of T g md c rq w = (Err (StatusErr cd msg), w)"
  by (rule stream_rpc_refused [OF assms])

text \<open>C18: Any unary call that carries metadata but no authorization header makes the
  interceptor index an empty slice: the process panics and serves nothing more.  \<open>Login\<close>
  and \<open>Register\<close> are such calls, made by a client that has no token yet.\<close>

theorem missing_header_crashes:
  assumes "\<not> streaming rq" and "md MDKeyAuthorisation = []" and "user_value c = None"
  shows "handle_rpc A text_of T g (Some md) c rq w = (Panic ''index out of range'', w) \<and>
    server_step A text_of T g (Running w) (Crashed w) \<and> (\<forall>p. \<not> server_step A text_of T g (Crashed w) p)"
proof -
  have "handle_rpc A text_of T g (Some md) c rq w = (Panic ''index out of range'', w)"
    using assms(1,2) by (simp add: handle_rpc_def Interceptor_def index_def call_def comp_simps)
  then show ?thesis
    using server_step.crashed [OF assms(3)] by (auto simp: server_step_Crashed)
qed

text \<open>The interceptor lets a call with the access token of a user through as that user
  until the token expires, fifteen minutes after its issue cut to whole seconds and ten seconds
  of leeway later; from then on the call is refused with \<open>Unauthenticated\<close> before its handler
  runs.\<close>

lemma Interceptor_of_generated:
  assumes "jwt_verifies J" and "GenerateAccessToken J g u v = (Ok tok, v')"
    and "md MDKeyAuthorisation = (AuthTokenPrefix @ tok) # rest"
  shows "Interceptor (NewAuthInterceptor (manager_iface J (NewManager st g))) (Some md) c handler w =
    (if now w < numeric_date (now v + AccessTokenExpire) + jwtLeeway
     then handler (context_WithValue_UserID c u) w
     else (Err (StatusErr Unauthenticated ''authentication error''), w))"
  using CheckAccessToken_of_generated [OF assms(1,2), of w] assms(3)
  by (simp add: Interceptor_def NewAuthInterceptor_def manager_iface_def ValidateAccessToken_def NewManager_def index_def
      call_def comp_simps)

text \<open>The only error a handler passes on as it is comes from closing the stream of \<open>Add\<close>, which
  gRPC reports as a status.\<close>

fun close_reports_status :: "rpc \<Rightarrow> bool" where
  "close_reports_status (RpcAdd _ (Some e)) = is_status e"
| "close_reports_status _ = True"

lemma replying_status: "status_only m \<Longrightarrow> status_only (replying f m)"
  unfolding replying_def by (rule status_only_pass) (simp_all add: status_only_simple)

lemma serve_rpc_status:
  assumes "close_reports_status rq"
  shows "status_only (serve_rpc A text_of T g rq c)"
proof (cases rq)
  case (RpcAdd recvs close)
  with assms have "\<And>e. close = Some e \<Longrightarrow> is_status e" by (cases close) simp_all
  then have "status_only (KeeperGRPC_Add text_of T uc c recvs close)" for uc by (rule Add_status)
  with RpcAdd show ?thesis by (simp add: replying_status)
qed (simp_all add: replying_status Login_status Logout_status Register_status keeper_status Ping_status)

text \<open>C19: Every error the server answers a call with is a gRPC status with one of its codes: no raw
  error of a repository, the driver or a conversion ever reaches a client, whatever services are
  registered.\<close>

theorem errors_are_statuses:
  assumes "close_reports_status rq" and "handle_rpc A text_of T g md c rq w = (Err e, w')"
  shows "\<exists>cd msg. e = StatusErr cd msg"
proof -
  have "status_only (Interceptor i md c (serve_rpc A text_of T g rq))" for i
    unfolding Interceptor_def
    by (intro status_rules status_only_pass serve_rpc_status [OF assms(1)]) (simp add: index_def)
  then have "status_only (handle_rpc A text_of T g md c rq)"
    using serve_rpc_status [OF assms(1), of A text_of T g c] by (simp add: handle_rpc_def)
  from status_onlyD [OF this assms(2)] show ?thesis .
qed

text \<open>A server for the witnesses.\<close>

definition demo_server :: "(unit, unit) Server" where
  "demo_server = NewServer (GetConfig NewBuilder)
     \<lparr>migrationsFS = (), pool = Some \<lparr>pc_dsn = ''d'', MinConns = 1, MaxConns = 10, pc_closed = False\<rparr>, dsn = ''d''\<rparr>"

lemma demo_setup:
  obtains s' g where "Setup demo_jwt demo_uuid (\<lambda>_ _. Ok ()) demo_server = Ok s'" and "grpcServer s' = Some g"
  by (simp add: Setup_def demo_server_def NewServer_def GetPool_def setupRepos_def loadCredentials_def Let_def)

lemma demo_elapsed:
  "(server_step A text_of T g)\<^sup>*\<^sup>* (Running (demo_world [])) (Running ((demo_world [])\<lparr>now := 5\<rparr>))"
  by (intro r_into_rtranclp server_step.elapsed) (simp_all add: demo_world_def)

theorem server_keeps_integrity_witness:
  "\<exists>s' g. Setup demo_jwt demo_uuid (\<lambda>_ _. Ok ()) demo_server = Ok s' \<and> grpcServer s' = Some g \<and>
     (\<forall>A text_of T. (server_step A text_of T g)\<^sup>*\<^sup>* (Running (demo_world [])) (Running ((demo_world [])\<lparr>now := 5\<rparr>)) \<and>
        wf_world (world_of (Running ((demo_world [])\<lparr>now := 5\<rparr>))))"
proof (rule demo_setup)
  fix s' and g :: "unit grpc_Server"
  assume s: "Setup demo_jwt demo_uuid (\<lambda>_ _. Ok ()) demo_server = Ok s'" "grpcServer s' = Some g"
  have "wf_world (demo_world [])" by (simp add: wf_world_def demo_world_def wf_migrated)
  from s server_keeps_integrity [OF s this demo_elapsed] demo_elapsed show ?thesis by blast
qed

theorem fresh_server_stays_empty_witness:
  "\<exists>s' g. Setup demo_jwt demo_uuid (\<lambda>_ _. Ok ()) demo_server = Ok s' \<and> grpcServer s' = Some g \<and>
     (\<forall>A text_of T. (server_step A text_of T g)\<^sup>*\<^sup>* (Running (demo_world [])) (Running ((demo_world [])\<lparr>now := 5\<rparr>)) \<and>
        db (world_of (Running ((demo_world [])\<lparr>now := 5\<rparr>))) = migrated)"
proof (rule demo_setup)
  fix s' and g :: "unit grpc_Server"
  assume s: "Setup demo_jwt demo_uuid (\<lambda>_ _. Ok ()) demo_server = Ok s'" "grpcServer s' = Some g"
  have "db (demo_world []) = migrated" "open_tx (demo_world []) = None" by (simp_all add: demo_world_def)
  from s fresh_server_stays_empty [OF s this demo_elapsed] demo_elapsed show ?thesis by blast
qed

theorem streams_always_refused_witness:
  "\<exists>s' g cd msg. Setup demo_jwt demo_uuid (\<lambda>_ _. Ok ()) demo_server = Ok s' \<and> grpcServer s' = Some g \<and>
     handle_rpc \<lparr>argon2_Version = 19, argon2_IDKey = (\<lambda>_ _ _ _ _ _. Ok [])\<rparr> (\<lambda>_. '''') demo_timestamp g
       (Some (\<lambda>_. [''Bearer x''])) context_Background (RpcGet None) (demo_world []) = (Err (StatusErr cd msg), demo_world [])"
proof (rule demo_setup)
  fix s' and g :: "unit grpc_Server"
  assume s: "Setup demo_jwt demo_uuid (\<lambda>_ _. Ok ()) demo_server = Ok s'" "grpcServer s' = Some g"
  have "streaming (RpcGet None)" "user_value context_Background = None" by (simp_all add: context_Background_def)
  from s streams_always_refused [OF this] show ?thesis by blast
qed

theorem missing_header_crashes_witness:
  "\<exists>s' g. Setup demo_jwt demo_uuid (\<lambda>_ _. Ok ()) demo_server = Ok s' \<and> grpcServer s' = Some g \<and>
     (\<forall>A text_of T. server_step A text_of T g (Running (demo_world [])) (Crashed (demo_world [])))"
proof (rule demo_setup)
  fix s' and g :: "unit grpc_Server"
  assume s: "Setup demo_jwt demo_uuid (\<lambda>_ _. Ok ()) demo_server = Ok s'" "grpcServer s' = Some g"
  have "\<not> streaming RpcPing" "(\<lambda>_. []) MDKeyAuthorisation = ([] :: string list)" "user_value context_Background = None"
    by (simp_all add: context_Background_def)
  from s missing_header_crashes [OF this] show ?thesis by blast
qed

theorem errors_are_statuses_witness:
  "\<exists>s' g e w'. Setup demo_jwt demo_uuid (\<lambda>_ _. Ok ()) demo_server = Ok s' \<and> grpcServer s' = Some g \<and>
     handle_rpc \<lparr>argon2_Version = 19, argon2_IDKey = (\<lambda>_ _ _ _ _ _. Ok [])\<rparr> (\<lambda>_. '''') demo_timestamp g
       None context_Background RpcPing (demo_world []) = (Err e, w') \<and> (\<exists>cd msg. e = StatusErr cd msg)"
proof (rule demo_setup)
  fix s' and g :: "unit grpc_Server"
  assume s: "Setup demo_jwt demo_uuid (\<lambda>_ _. Ok ()) demo_server = Ok s'" "grpcServer s' = Some g"
  obtain e w' where run: "handle_rpc \<lparr>argon2_Version = 19, argon2_IDKey = (\<lambda>_ _ _ _ _ _. Ok [])\<rparr> (\<lambda>_. '''')
      demo_timestamp g None context_Background RpcPing (demo_world []) = (Err e, w')"
    by (simp add: handle_rpc_def Interceptor_def comp_simps)
  have "close_reports_status RpcPing" by simp
  from s run errors_are_statuses [OF this run] show ?thesis by blast
qed

section \<open>Stopping\<close>

text \<open>
  \<open>Stop\<close> and its goroutine.  The goroutine calls \<open>GracefulStop\<close>, which returns when all
  calls have ended, sends on the channel \<open>done\<close>, which is unbuffered, and closes it; the caller
  waits for that send or for its context.
\<close>

datatype stopper = Stopping | Sending | Stopped

datatype caller = Waiting | Returned "goerr option"

record stop_state =
  stopper :: stopper
  caller :: caller
  clock :: time

inductive stop_step :: "ctx \<Rightarrow> stop_state \<Rightarrow> stop_state \<Rightarrow> bool" for c where
  drained: "stopper s = Stopping \<Longrightarrow> stop_step c s (s\<lparr>stopper := Sending\<rparr>)"
| handover: "stopper s = Sending \<Longrightarrow> caller s = Waiting \<Longrightarrow>
    stop_step c s (s\<lparr>stopper := Stopped, caller := Returned None\<rparr>)"
| gave_up: "caller s = Waiting \<Longrightarrow> ctx_Err c (clock s) = Some e \<Longrightarrow>
    stop_step c s (s\<lparr>caller := Returned (Some (Wrap ''context closed'' e))\<rparr>)"
| ticked: "clock s \<le> t \<Longrightarrow> stop_step c s (s\<lparr>clock := t\<rparr>)"

text \<open>The call has begun.\<close>

definition Stop :: "time \<Rightarrow> stop_state" where
  "Stop t = \<lparr>stopper = Stopping, caller = Waiting, clock = t\<rparr>"

definition stop_inv :: "ctx \<Rightarrow> stop_state \<Rightarrow> bool" where
  "stop_inv c s \<longleftrightarrow> (stopper s = Stopped \<longleftrightarrow> caller s = Returned None) \<and>
     (\<forall>e. caller s = Returned (Some e) \<longrightarrow> ctx_Err c (clock s) \<noteq> None)"

lemma stop_step_inv: "stop_step c s s' \<Longrightarrow> stop_inv c s \<Longrightarrow> stop_inv c s'"
proof (induction rule: stop_step.induct)
  case (ticked s t)
  then show ?case using ctx_Err_mono [OF _ ticked(1), of c] by (simp add: stop_inv_def)
qed (auto simp: stop_inv_def)

lemma stop_steps_inv: "(stop_step c)\<^sup>*\<^sup>* s s' \<Longrightarrow> stop_inv c s \<Longrightarrow> stop_inv c s'"
  by (induction rule: rtranclp_induct) (auto intro: stop_step_inv)

lemma stop_step_Returned: "stop_step c s s' \<Longrightarrow> caller s = Returned r \<Longrightarrow> caller s' = Returned r"
  by (induction rule: stop_step.induct) auto

lemma stop_steps_Returned: "(stop_step c)\<^sup>*\<^sup>* s s' \<Longrightarrow> caller s = Returned r \<Longrightarrow> caller s' = Returned r"
  by (induction rule: rtranclp_induct) (auto intro: stop_step_Returned)




section \<open>From a login to the calls of its session\<close>



definition demo_users :: UserRepository where
  "demo_users = \<lparr>ur_Create = (\<lambda>_ _. ret ''1''),
     ur_FindByLogin = (\<lambda>_ l. ret (''1'', \<lparr>PasswordPHC = GeneratePHC [5] [6] 19 1 2 3, LoginHash = l\<rparr>)),
     ur_Delete = (\<lambda>_ _. ret ())\<rparr>"

definition demo_argon :: argon2_lib where
  "demo_argon = \<lparr>argon2_Version = 19, argon2_IDKey = (\<lambda>_ _ _ _ _ _. Ok [5])\<rparr>"

abbreviation demo_login :: "LoginRequest option" where
  "demo_login \<equiv> Some \<lparr>login_AuthData = Some \<lparr>ad_Login = Some [1], ad_Password = Some [2]\<rparr>\<rparr>"

lemma demo_login_Ok:
  obtains resp w' where "Login demo_argon (NewAuthService demo_users (manager_iface demo_jwt
      (pg_manager demo_uuid (NewGenerator [1])))) context_Background demo_login demo_user_world = (Ok resp, w')"
    and "net w' = []" and "now w' = 0"
proof (rule demo_session)
  fix a h w'
  assume s: "CreateSession demo_jwt (pg_manager demo_uuid (NewGenerator [1])) context_Background ''1'' demo_user_world
      = (Ok (a, Some h), w')" "net w' = []" "now w' = 0"
  have "CompareHashAndPassword demo_argon (GeneratePHC [5] [6] 19 1 2 3) [2] = Ok ()"
    using Compare_GeneratePHC_lemma [of demo_argon "[5]" "[6]" 1 2 3 "[2]"]
    by (simp add: demo_argon_def AlgVersion_def)
  with s show thesis
    by (intro that [of "\<lparr>loginresp_Tokens = Some (mk_Tokens a (Some h))\<rparr>" w'])
       (simp_all add: login_succeeds_iff NewAuthService_def manager_iface_def demo_users_def credentials_def
         LoginRequest_GetAuthData_def comp_simps)
qed


end
