(* ===== verification/Server_Main.thy ===== *)
theory Server_Main
  imports Api
begin

text \<open>
  \<open>src/cmd/server/main.go\<close>: \<open>run\<close> reads the settings, connects to the database, sets the
  server up, serves until a signal arrives and then stops the server with five seconds of grace.
\<close>

section \<open>Start-up\<close>

text \<open>How the first half of \<open>run\<close> ends: the process exits while parsing its flags, \<open>run\<close>
  logs a message and returns, it panics or hangs, or a server is ready.  A return after the database
  was connected runs the deferred \<open>Close\<close>; the manager it leaves is part of the result.\<close>

datatype ('fs, 'cert) start =
    FlagExit nat
  | GaveUp string goerr "'fs DBManager option"
  | Aborted string
  | Stuck
  | Started "('fs, 'cert) Server"

definition run_start ::
  "(Config \<Rightarrow> Config \<times> goerr option) \<Rightarrow> string list \<Rightarrow> pgx_lib \<Rightarrow> ('fs, 'src) migrate_lib \<Rightarrow> 'fs \<Rightarrow> jwt_lib \<Rightarrow> uuid_lib \<Rightarrow>
     (string \<Rightarrow> string \<Rightarrow> 'cert result) \<Rightarrow> world \<Rightarrow> ('fs, 'cert) start \<times> world" where
  "run_start env_Parse args P L fs J U LoadX509KeyPair w =
     (case FromFlags args (FromEnv env_Parse NewBuilder) of
        Inr n \<Rightarrow> (FlagExit n, w)
      | Inl b \<Rightarrow>
          (case dbConnect P L context_Background (DatabaseURI (GetConfig b)) fs w of
             (Err e, w1) \<Rightarrow> (GaveUp ''failed to connect to DB'' e None, w1)
           | (Panic p, w1) \<Rightarrow> (Aborted p, w1)
           | (Hang, w1) \<Rightarrow> (Stuck, w1)
           | (Ok m, w1) \<Rightarrow>
               (case Setup J U LoadX509KeyPair (NewServer (GetConfig b) m) of
                  Err e \<Rightarrow> (GaveUp ''server setup failed: %w'' e (Some (DBManager_Close m)), w1)
                | Panic p \<Rightarrow> (Aborted p, w1)
                | Hang \<Rightarrow> (Stuck, w1)
                | Ok s \<Rightarrow> (Started s, w1))))"

text \<open>A start that is given up leaves no open pool behind.\<close>

lemma given_up_closed:
  assumes "run_start env_Parse args P L fs J U load w = (GaveUp msg e (Some m), w')" and "GetPool m = Ok p"
  shows "pc_closed p"
  using assms
  by (auto simp: run_start_def DBManager_Close_def pool_Close_def GetPool_def split: sum.splits prod.splits result.splits option.splits)

section \<open>Shutdown\<close>

definition stopTO :: int where
  "stopTO = 5 * second"

text \<open>
  The second half of \<open>run\<close>, with the flag whether the goroutine of \<open>Serve\<close> is still
  serving and the time of the last event of \<open>run\<close> itself.  When \<open>Serve\<close> fails, its
  goroutine logs the error and ends; \<open>run\<close> keeps waiting for the signal.
\<close>

datatype phase = AwaitingSignal | InStop stop_state | Ended stop_state "goerr option"

record run_state =
  phase :: phase
  serving :: bool
  since :: time

definition stop_ctx :: "time \<Rightarrow> ctx" where
  "stop_ctx t = context_WithTimeout context_Background stopTO t"

inductive run_step :: "run_state \<Rightarrow> run_state \<Rightarrow> bool" where
  serve_failed: "serving r \<Longrightarrow> run_step r (r\<lparr>serving := False\<rparr>)"
| waited: "phase r = AwaitingSignal \<Longrightarrow> since r \<le> t \<Longrightarrow> run_step r (r\<lparr>since := t\<rparr>)"
| signalled: "phase r = AwaitingSignal \<Longrightarrow> run_step r (r\<lparr>phase := InStop (Stop (since r))\<rparr>)"
| stopping: "phase r = InStop s \<Longrightarrow> stop_step (stop_ctx (since r)) s s' \<Longrightarrow> run_step r (r\<lparr>phase := InStop s'\<rparr>)"
| ended: "phase r = InStop s \<Longrightarrow> caller s = Returned e \<Longrightarrow> run_step r (r\<lparr>phase := Ended s e\<rparr>)"

definition run_wait :: "time \<Rightarrow> run_state" where
  "run_wait t = \<lparr>phase = AwaitingSignal, serving = True, since = t\<rparr>"

definition run_inv :: "run_state \<Rightarrow> bool" where
  "run_inv r \<longleftrightarrow>
     (case phase r of
        AwaitingSignal \<Rightarrow> True
      | InStop s \<Rightarrow> stop_inv (stop_ctx (since r)) s
      | Ended s e \<Rightarrow> stop_inv (stop_ctx (since r)) s \<and> caller s = Returned e)"

lemma run_step_inv: "run_step r r' \<Longrightarrow> run_inv r \<Longrightarrow> run_inv r'"
  by (induction rule: run_step.induct)
     (auto simp: run_inv_def stop_inv_def Stop_def split: phase.splits dest: stop_step_inv [unfolded stop_inv_def])

lemma run_steps_inv: "run_step\<^sup>*\<^sup>* r r' \<Longrightarrow> run_inv r \<Longrightarrow> run_inv r'"
  by (induction rule: rtranclp_induct) (auto intro: run_step_inv)

lemma stop_ctx_Err: "ctx_Err (stop_ctx t) t' \<noteq> None \<longleftrightarrow> t + stopTO \<le> t'"
  by (simp add: stop_ctx_def ctx_Err_def context_WithTimeout_def context_Background_def reached_def)

section \<open>Properties\<close>

text \<open>The server starts exactly when the flags parse, the database connects under the
  configured DSN and the server can be set up; it then has that configuration and that
  manager.\<close>

theorem run_starts_iff:
  "run_start env_Parse args P L fs J U load w = (Started s, w') \<longleftrightarrow>
     (\<exists>b m. FromFlags args (FromEnv env_Parse NewBuilder) = Inl b \<and>
        dbConnect P L context_Background (DatabaseURI (GetConfig b)) fs w = (Ok m, w') \<and>
        Setup J U load (NewServer (GetConfig b) m) = Ok s \<and>
        srv_cfg s = GetConfig b \<and> dbManager s = m \<and> grpcServer s \<noteq> None)"
proof -
  have ready: "srv_cfg s = conf \<and> dbManager s = m \<and> grpcServer s \<noteq> None"
    if "Setup J U load (NewServer conf m) = Ok s" for conf m
    using that by (auto simp: Setup_def NewServer_def rcall_Ok_iff setupRepos_def Let_def)
  have "run_start env_Parse args P L fs J U load w = (Started s, w') \<longleftrightarrow>
     (\<exists>b m. FromFlags args (FromEnv env_Parse NewBuilder) = Inl b \<and>
        dbConnect P L context_Background (DatabaseURI (GetConfig b)) fs w = (Ok m, w') \<and>
        Setup J U load (NewServer (GetConfig b) m) = Ok s)"
    by (auto simp: run_start_def split: sum.splits prod.splits result.splits)
  with ready show ?thesis by blast
qed



end
