(* ===== verification/Programs.thy ===== *)
theory Programs
  imports Vault
begin

text \<open>
  Handlers run in goroutines of their own, and the database serves all of them.  A computation of the
  other theories runs to its end at once; here the same code is a program, a sequence of atomic
  actions with a result, which others can interrupt between two actions.  An action is one attempt of
  a repository's query, the pause before the next one, one read of an object's reader, one message on
  a stream, one random draw or one look at the clock.

  An attempt is one statement, or one transaction: that of \<open>putLogic\<close>, which only inserts rows and locks
  the rows they refer to, so PostgreSQL orders it before or after every other.

  The theory has the programs, the retry loop as a program, and the rules by which programs are shown
  to keep an invariant or to commit to an outcome.
\<close>

named_theorems run_simps \<open>programs that run without interruption\<close>

section \<open>Programs\<close>

datatype 'a prog = Done "'a result" | Act "world \<Rightarrow> world" "world \<Rightarrow> 'a prog"

primrec run :: "'a prog \<Rightarrow> (world, 'a) comp" where
  "run (Done r) = (\<lambda>w. (r, w))"
| "run (Act u n) = (\<lambda>w. run (n w) (u w))"

definition act :: "(world, 'a) comp \<Rightarrow> 'a prog" where
  "act m = Act (\<lambda>w. snd (m w)) (\<lambda>w. Done (fst (m w)))"

definition ret_p :: "'a \<Rightarrow> 'a prog" where
  "ret_p x = Done (Ok x)"

definition fail_p :: "goerr \<Rightarrow> 'a prog" where
  "fail_p e = Done (Err e)"

definition wrap_p :: "string \<Rightarrow> goerr \<Rightarrow> 'a prog" where
  "wrap_p msg e = Done (Err (Wrap msg e))"

definition resume :: "(goerr \<Rightarrow> 'b prog) \<Rightarrow> ('a \<Rightarrow> 'b prog) \<Rightarrow> 'a result \<Rightarrow> 'b prog" where
  "resume h k r = (case r of Ok x \<Rightarrow> k x | Err e \<Rightarrow> h e | Panic p \<Rightarrow> Done (Panic p) | Hang \<Rightarrow> Done Hang)"

lemma resume_simps [simp]:
  "resume h k (Ok x) = k x" "resume h k (Err e) = h e" "resume h k (Panic p) = Done (Panic p)" "resume h k Hang = Done Hang"
  by (simp_all add: resume_def)

primrec call_p :: "'a prog \<Rightarrow> (goerr \<Rightarrow> 'b prog) \<Rightarrow> ('a \<Rightarrow> 'b prog) \<Rightarrow> 'b prog" where
  "call_p (Done r) h k = resume h k r"
| "call_p (Act u n) h k = Act u (\<lambda>w. call_p (n w) h k)"

definition timeout_p :: "ctx \<Rightarrow> (ctx \<Rightarrow> 'a prog) \<Rightarrow> 'a prog" where
  "timeout_p c f = Act (\<lambda>w. w) (\<lambda>w. f (context_WithTimeout c RepoOperationTO (now w)))"

text \<open>\<open>WithRetry\<close>: each attempt is an action, and so is each pause.\<close>

function retry_p :: "(world, 'a) comp \<Rightarrow> int \<Rightarrow> 'a prog" where
  "retry_p dbQuery counter =
     Act (\<lambda>w. snd (dbQuery w)) (\<lambda>w. case fst (dbQuery w) of
        Ok res \<Rightarrow> Done (Ok res)
      | Panic p \<Rightarrow> Done (Panic p)
      | Hang \<Rightarrow> Done Hang
      | Err err \<Rightarrow>
          if maxAttemptCount \<le> counter then Done (Err (Wrap ''reatempt failed'' err))
          else if isRetryableError err
          then Act (time_Sleep (counter * 2 + 1)) (\<lambda>_. retry_p dbQuery (counter + 1))
          else Done (Err (Wrap (''on attempt #'' @ itoa_int counter @ '' error occured'') err)))"
  by pat_completeness auto
termination
  by (relation "measure (\<lambda>(q, c). nat (maxAttemptCount - c))") auto

declare retry_p.simps [simp del]

lemma run_simple [run_simps]:
  "run (ret_p x) = ret x" "run (fail_p e) = fail e" "run (wrap_p msg e) = wrapping msg e" "run (act m) = m"
  "run (timeout_p c f) = with_timeout c (\<lambda>c'. run (f c'))"
  by (auto simp: fun_eq_iff ret_p_def fail_p_def wrap_p_def act_def timeout_p_def with_timeout_def comp_simps)

lemma run_resume: "run (resume h k r) w = call (\<lambda>w. (r, w)) (\<lambda>e. run (h e)) (\<lambda>x. run (k x)) w"
  by (cases r) (simp_all add: call_def)

lemma run_call_p [run_simps]: "run (call_p p h k) = call (run p) (\<lambda>e. run (h e)) (\<lambda>x. run (k x))"
proof (induction p)
  case (Done r)
  show ?case by (rule ext) (simp add: run_resume)
next
  case (Act u n)
  then show ?case by (auto simp: fun_eq_iff call_def)
qed

lemma run_retry_p [run_simps]: "run (retry_p q n) = WithRetry q n"
proof (rule ext)
  fix w show "run (retry_p q n) w = WithRetry q n w"
  proof (induction q n w rule: WithRetry.induct [case_names step])
    case (step q n w)
    obtain r w1 where q: "q w = (r, w1)" by (cases "q w")
    then show ?case
      using step.IH [OF q [symmetric]] by (cases r) (auto simp: retry_p.simps [of q n] WithRetry.simps [of q n])
  qed
qed

lemma run_if [run_simps]: "run (if b then p else q) = (if b then run p else run q)"
  by simp

lemma run_option [run_simps]:
  "run (case v of None \<Rightarrow> p | Some x \<Rightarrow> f x) = (case v of None \<Rightarrow> run p | Some x \<Rightarrow> run (f x))"
  by (cases v) simp_all

lemma run_prod [run_simps]: "run (case q of (x, y) \<Rightarrow> f x y) = (case q of (x, y) \<Rightarrow> run (f x y))"
  by (cases q) simp

lemma call_p_assoc:
  "call_p (call_p p h k) h' k' = call_p p (\<lambda>e. call_p (h e) h' k') (\<lambda>x. call_p (k x) h' k')"
proof (induction p)
  case (Done r)
  then show ?case by (cases r) simp_all
qed simp

section \<open>Guarantees of programs\<close>

text \<open>\<open>guarantees I G Q p\<close>: however others move the world between the actions of \<open>p\<close>, as long as each
  action finds a world that satisfies \<open>I\<close>, every action of \<open>p\<close> relates the worlds before and after it by
  \<open>G\<close>, and a result of \<open>p\<close> satisfies \<open>Q\<close>.\<close>

inductive guarantees :: "(world \<Rightarrow> bool) \<Rightarrow> (world \<Rightarrow> world \<Rightarrow> bool) \<Rightarrow> ('a result \<Rightarrow> bool) \<Rightarrow> 'a prog \<Rightarrow> bool"
  for I G Q where
  guarantees_Done: "Q r \<Longrightarrow> guarantees I G Q (Done r)"
| guarantees_Act: "(\<And>w. I w \<Longrightarrow> G w (u w)) \<Longrightarrow> (\<And>w. I w \<Longrightarrow> guarantees I G Q (n w)) \<Longrightarrow> guarantees I G Q (Act u n)"

inductive_simps guarantees_simps: "guarantees I G Q (Done r)" "guarantees I G Q (Act u n)"

text \<open>A program that keeps an invariant.\<close>

abbreviation stays :: "(world \<Rightarrow> bool) \<Rightarrow> ('a result \<Rightarrow> bool) \<Rightarrow> 'a prog \<Rightarrow> bool" where
  "stays I \<equiv> guarantees I (\<lambda>_. I)"

text \<open>The result of an action is one the computation has.\<close>

definition yields :: "(world \<Rightarrow> bool) \<Rightarrow> (world, 'a) comp \<Rightarrow> 'a result \<Rightarrow> bool" where
  "yields I m r \<longleftrightarrow> (\<exists>w w'. I w \<and> m w = (r, w'))"

lemma guarantees_act: "(\<And>w r w'. I w \<Longrightarrow> m w = (r, w') \<Longrightarrow> G w w') \<Longrightarrow> guarantees I G (yields I m) (act m)"
  unfolding act_def guarantees_simps yields_def by (metis prod.collapse)

lemma stays_act: "keeps I m \<Longrightarrow> stays I (yields I m) (act m)"
  by (rule guarantees_act) (rule keepsD')

lemma guarantees_weaken: "guarantees I G P p \<Longrightarrow> (\<And>r. P r \<Longrightarrow> Q r) \<Longrightarrow> guarantees I G Q p"
  by (induction rule: guarantees.induct) (auto intro: guarantees.intros)

lemma guarantees_call_p:
  assumes "guarantees I G P p" and "\<And>r. P r \<Longrightarrow> guarantees I G Q (resume h k r)"
  shows "guarantees I G Q (call_p p h k)"
  using assms by (induction rule: guarantees.induct) (auto intro: guarantees_Act)

lemma guarantees_timeout_p:
  "(\<And>w. I w \<Longrightarrow> G w w) \<Longrightarrow> (\<And>c'. guarantees I G Q (f c')) \<Longrightarrow> guarantees I G Q (timeout_p c f)"
  unfolding timeout_p_def by (rule guarantees_Act)

lemma guarantees_simple: "Q (Ok x) \<Longrightarrow> guarantees I G Q (ret_p x)" "Q (Err e) \<Longrightarrow> guarantees I G Q (fail_p e)"
  "Q (Err (Wrap msg e)) \<Longrightarrow> guarantees I G Q (wrap_p msg e)"
  by (simp_all add: ret_p_def fail_p_def wrap_p_def guarantees_Done)

lemma guarantees_resume:
  assumes "\<And>x. r = Ok x \<Longrightarrow> guarantees I G Q (k x)" and "\<And>e. r = Err e \<Longrightarrow> guarantees I G Q (h e)"
    and "\<And>p. Q (Panic p)" and "Q Hang"
  shows "guarantees I G Q (resume h k r)"
  using assms by (cases r) (simp_all add: guarantees_Done)

text \<open>Running to the end is one of the interleavings.\<close>

lemma stays_run: "stays I Q p \<Longrightarrow> I w \<Longrightarrow> I (snd (run p w)) \<and> Q (fst (run p w))"
  by (induction arbitrary: w rule: guarantees.induct) auto

text \<open>The retry loop: its result is that of an attempt, wrapped when it is an error.\<close>

lemma retry_p_induct:
  assumes "\<And>n. (n < maxAttemptCount \<Longrightarrow> P (n + 1)) \<Longrightarrow> P n"
  shows "P (n :: int)"
proof (induction "nat (maxAttemptCount - n)" arbitrary: n rule: less_induct)
  case less
  show ?case by (rule assms) (rule less, simp)
qed

lemma guarantees_retry_p:
  assumes "\<And>w r w'. I w \<Longrightarrow> q w = (r, w') \<Longrightarrow> G w w'" and "\<And>n w. I w \<Longrightarrow> G w (time_Sleep n w)"
    and "\<And>x. yields I q (Ok x) \<Longrightarrow> Q (Ok x)" and "\<And>e msg. yields I q (Err e) \<Longrightarrow> Q (Err (Wrap msg e))"
    and "\<And>p. yields I q (Panic p) \<Longrightarrow> Q (Panic p)" and "yields I q Hang \<Longrightarrow> Q Hang"
  shows "guarantees I G Q (retry_p q n)"
proof (induction n rule: retry_p_induct)
  case (1 n)
  have act: "G w (snd (q w))" if "I w" for w using assms(1) [OF that, of "fst (q w)" "snd (q w)"] by simp
  have yield: "yields I q (fst (q w))" if "I w" for w using that unfolding yields_def by (metis prod.collapse)
  show ?case
    unfolding retry_p.simps [of q n]
  proof (rule guarantees_Act)
    fix w assume "I w"
    then have y: "yields I q (fst (q w))" by (rule yield)
    show "guarantees I G Q (case fst (q w) of Ok res \<Rightarrow> Done (Ok res) | Panic p \<Rightarrow> Done (Panic p) | Hang \<Rightarrow> Done Hang
      | Err err \<Rightarrow>
          if maxAttemptCount \<le> n then Done (Err (Wrap ''reatempt failed'' err))
          else if isRetryableError err then Act (time_Sleep (n * 2 + 1)) (\<lambda>_. retry_p q (n + 1))
          else Done (Err (Wrap (''on attempt #'' @ itoa_int n @ '' error occured'') err)))"
    proof (cases "fst (q w)")
      case (Err e)
      then show ?thesis using 1 y assms(2) assms(4) [of e] by (auto simp: guarantees_simps not_le)
    qed (use y assms(3,5,6) in \<open>simp_all add: guarantees_simps\<close>)
  qed (rule act)
qed

lemma stays_retry_p: "keeps I q \<Longrightarrow> (\<And>n w. I w \<Longrightarrow> I (time_Sleep n w)) \<Longrightarrow> stays I (\<lambda>_. True) (retry_p q n)"
  by (rule guarantees_retry_p) (auto dest: keepsD')

section \<open>Commitment\<close>

text \<open>\<open>commits I G E L Q F k p\<close>: one action of \<open>p\<close> commits it to an outcome, as \<open>L\<close> says; before it, at most \<open>k\<close>
  actions have the effect \<open>E\<close> of an attempt that was not answered.  The other actions guarantee \<open>G\<close>, a
  result after an outcome satisfies \<open>Q\<close> of it, and a result without one satisfies \<open>F\<close>.\<close>

inductive commits ::
  "(world \<Rightarrow> bool) \<Rightarrow> (world \<Rightarrow> world \<Rightarrow> bool) \<Rightarrow> (world \<Rightarrow> world \<Rightarrow> bool) \<Rightarrow> ('o \<Rightarrow> world \<Rightarrow> world \<Rightarrow> bool) \<Rightarrow>
     ('o \<Rightarrow> 'a result \<Rightarrow> bool) \<Rightarrow> ('a result \<Rightarrow> bool) \<Rightarrow> nat \<Rightarrow> 'a prog \<Rightarrow> bool"
  for I G E L Q F where
  commits_Done: "F r \<Longrightarrow> commits I G E L Q F k (Done r)"
| commits_Act: "(\<And>w. I w \<Longrightarrow> (G w (u w) \<and> commits I G E L Q F k (n w)) \<or>
      (\<exists>j. k = Suc j \<and> E w (u w) \<and> commits I G E L Q F j (n w)) \<or>
      (\<exists>out. L out w (u w) \<and> guarantees I G (Q out) (n w))) \<Longrightarrow> commits I G E L Q F k (Act u n)"

inductive_simps commits_simps: "commits I G E L Q F k (Done r)" "commits I G E L Q F k (Act u n)"

lemma commits_simple: "F (Err e) \<Longrightarrow> commits I G E L Q F k (fail_p e)"
  "F (Err (Wrap msg e)) \<Longrightarrow> commits I G E L Q F k (wrap_p msg e)"
  by (simp_all add: fail_p_def wrap_p_def commits_Done)

lemma commits_resume:
  assumes "\<And>x. r = Ok x \<Longrightarrow> commits I G E L Q F j (k x)" and "\<And>e. r = Err e \<Longrightarrow> commits I G E L Q F j (h e)"
    and "\<And>p. F (Panic p)" and "F Hang"
  shows "commits I G E L Q F j (resume h k r)"
  using assms by (cases r) (simp_all add: commits_Done)

lemma commits_never: "guarantees I G F p \<Longrightarrow> commits I G E L Q F k p"
  by (induction rule: guarantees.induct) (auto intro: commits.intros)

text \<open>A call before the commitment.\<close>

lemma commits_after:
  assumes "guarantees I G P p" and "\<And>r. P r \<Longrightarrow> commits I G E L Q F j (resume h k r)"
  shows "commits I G E L Q F j (call_p p h k)"
  using assms by (induction rule: guarantees.induct) (auto intro: commits_Act)

lemma commits_timeout_p:
  "(\<And>w. I w \<Longrightarrow> G w w) \<Longrightarrow> (\<And>c'. commits I G E L Q F j (f c')) \<Longrightarrow> commits I G E L Q F j (timeout_p c f)"
  unfolding timeout_p_def by (rule commits_Act) blast

text \<open>A call that commits within.\<close>

lemma commits_within:
  assumes "commits I G E L P F' j p" and "\<And>out r. P out r \<Longrightarrow> guarantees I G (Q out) (resume h k r)"
    and "\<And>r i. F' r \<Longrightarrow> commits I G E L Q F i (resume h k r)"
  shows "commits I G E L Q F j (call_p p h k)"
  using assms(1)
proof (induction rule: commits.induct)
  case (commits_Act u k n)
  show ?case unfolding call_p.simps
    using commits_Act guarantees_call_p [OF _ assms(2)] by (intro commits.commits_Act) blast
qed (simp add: assms(3))

text \<open>The retry loop commits with its last attempt; the attempts before it failed.\<close>

lemma commits_retry_p:
  assumes Ok: "\<And>w x w'. I w \<Longrightarrow> q w = (Ok x, w') \<Longrightarrow> \<exists>out. L out w w' \<and> Q out (Ok x)"
    and other: "\<And>w r w'. I w \<Longrightarrow> q w = (r, w') \<Longrightarrow> \<not> is_Ok r \<Longrightarrow> E w w' \<and> L fout w w'"
    and failed: "\<And>r. \<not> is_Ok r \<Longrightarrow> Q fout r"
    and sleep: "\<And>n w. I w \<Longrightarrow> G w (time_Sleep n w)"
  shows "commits I G E L Q F (nat (maxAttemptCount - n)) (retry_p q n)"
proof (induction n rule: retry_p_induct)
  case (1 n)
  let ?next = "\<lambda>w. case fst (q w) of Ok res \<Rightarrow> Done (Ok res) | Panic p \<Rightarrow> Done (Panic p) | Hang \<Rightarrow> Done Hang
      | Err err \<Rightarrow>
          if maxAttemptCount \<le> n then Done (Err (Wrap ''reatempt failed'' err))
          else if isRetryableError err
          then Act (time_Sleep (n * 2 + 1)) (\<lambda>_. retry_p q (n + 1))
          else Done (Err (Wrap (''on attempt #'' @ itoa_int n @ '' error occured'') err))"
  have stop: "\<exists>out. L out w (snd (q w)) \<and> guarantees I G (Q out) (Done r)" if "I w" "\<not> is_Ok (fst (q w))" "\<not> is_Ok r" for w r
    using other [OF that(1) _ that(2), of "snd (q w)"] failed [OF that(3)] by (auto simp: guarantees_simps)
  have step: "(\<exists>j. nat (maxAttemptCount - n) = Suc j \<and> E w (snd (q w)) \<and> commits I G E L Q F j (?next w)) \<or>
      (\<exists>out. L out w (snd (q w)) \<and> guarantees I G (Q out) (?next w))" if w: "I w" for w
  proof (cases "fst (q w)")
    case (Ok x)
    then have "q w = (Ok x, snd (q w))" by (simp add: prod_eq_iff)
    from assms(1) [OF w this] Ok show ?thesis by (auto simp: guarantees_simps)
  next
    case (Err e)
    show ?thesis
    proof (cases "n < maxAttemptCount \<and> isRetryableError e")
      case True
      then have "commits I G E L Q F (nat (maxAttemptCount - (n + 1))) (?next w)"
        using 1 Err sleep by (auto intro!: commits_Act)
      moreover have "nat (maxAttemptCount - n) = Suc (nat (maxAttemptCount - (n + 1)))" using True by linarith
      moreover have "E w (snd (q w))" using other [OF w _, of "fst (q w)" "snd (q w)"] unfolding Err by (simp add: prod_eq_iff Err)
      ultimately show ?thesis by blast
    qed (use stop [OF w] Err in \<open>auto simp: not_less\<close>)
  qed (use stop [OF w] in auto)
  then show ?case unfolding retry_p.simps [of q n] by (intro commits_Act) blast
qed

lemma guarantees_stays: "guarantees I G Q p \<Longrightarrow> (\<And>w w'. I w \<Longrightarrow> G w w' \<Longrightarrow> I w') \<Longrightarrow> stays I (\<lambda>_. True) p"
  by (induction rule: guarantees.induct) (auto intro: guarantees.intros)

lemma commits_stays:
  assumes "commits I G E L Q F k p" and "\<And>w w'. G w w' \<Longrightarrow> I w'" and "\<And>w w'. E w w' \<Longrightarrow> I w'"
    and "\<And>out w w'. L out w w' \<Longrightarrow> I w'"
  shows "stays I (\<lambda>_. True) p"
  using assms(1)
proof (induction rule: commits.induct)
  case (commits_Act u k n)
  have rest: "stays I (\<lambda>_. True) (n w)" if "guarantees I G (Q out) (n w)" for out w
    using that by (rule guarantees_stays) (rule assms(2))
  show ?case
  proof (rule guarantees_Act)
    fix w assume "I w"
    from commits_Act [OF this] show "I (u w)" using assms(2-4) by blast
  next
    fix w assume "I w"
    from commits_Act [OF this] rest show "stays I (\<lambda>_. True) (n w)" by blast
  qed
qed (simp add: guarantees_simps)

end
