(* ===== verification/Repo_Programs.thy ===== *)
theory Repo_Programs
  imports Programs
begin

text \<open>
  The repositories, the router and the keeper as programs (\<open>metadata_repo.go\<close>, \<open>sealed_repo.go\<close>,
  \<open>router.go\<close>, \<open>keeper.go\<close>).  Every definition has the text of its original with programs for
  computations, and run without interruption it is its original.
\<close>

section \<open>Repositories\<close>

record ObjectRepoP =
  op_Put :: "ctx \<Rightarrow> Metadata \<Rightarrow> nat \<Rightarrow> int \<Rightarrow> bytes \<Rightarrow> ObjectLocator prog"
  op_Get :: "ctx \<Rightarrow> ObjectLocator \<Rightarrow> ReadCloser prog"
  op_Delete :: "ctx \<Rightarrow> ObjectLocator \<Rightarrow> unit prog"

record MetadataRepoP =
  mp_Put :: "ctx \<Rightarrow> Metadata \<Rightarrow> ObjectLocator \<Rightarrow> DataID prog"
  mp_Get :: "ctx \<Rightarrow> DataID \<Rightarrow> (Metadata \<times> ObjectLocator) prog"
  mp_ListByUser :: "ctx \<Rightarrow> UserID \<Rightarrow> MetaLoc list prog"
  mp_Delete :: "ctx \<Rightarrow> DataID \<Rightarrow> ObjectLocator prog"

abbreviation get_attempt :: "uuid_lib \<Rightarrow> ctx \<Rightarrow> DataID \<Rightarrow> (world, metadata_row) comp" where
  "get_attempt U c i \<equiv>
     call (pure_call (ToPgUUID U i)) (wrapping ''wrong dataID format'') (\<lambda>dataUUID.
     call (pool_exec c (sql_GetMetadata dataUUID)) (wrapping ''queries.GetMetadata failed'') ret)"

abbreviation list_attempt :: "uuid_lib \<Rightarrow> ctx \<Rightarrow> UserID \<Rightarrow> (world, metadata_row list) comp" where
  "list_attempt U c userID \<equiv>
     call (pure_call (ToPgUUID U userID)) (wrapping msgWrongUserID) (\<lambda>userUUID.
     call (pool_exec c (sql_ListByUser userUUID)) (wrapping ''queries.ListByUser failed'') ret)"

definition MetadataRepository_Put_p :: "uuid_lib \<Rightarrow> ctx \<Rightarrow> Metadata \<Rightarrow> ObjectLocator \<Rightarrow> DataID prog" where
  "MetadataRepository_Put_p U c meta loc = call_p (retry_p (put_attempt U c meta loc) 0) fail_p ret_p"

definition MetadataRepository_Get_p :: "uuid_lib \<Rightarrow> ctx \<Rightarrow> DataID \<Rightarrow> (Metadata \<times> ObjectLocator) prog" where
  "MetadataRepository_Get_p U c i =
     call_p (retry_p (get_attempt U c i) 0) fail_p (\<lambda>row. ret_p (row_Metadata U row, mr_StorageLocator row))"

definition MetadataRepository_ListByUser_p :: "uuid_lib \<Rightarrow> ctx \<Rightarrow> UserID \<Rightarrow> MetaLoc list prog" where
  "MetadataRepository_ListByUser_p U c userID =
     call_p (retry_p (list_attempt U c userID) 0) fail_p (\<lambda>rows. ret_p (map (row_MetaLoc U) rows))"

definition MetadataRepository_Delete_p :: "uuid_lib \<Rightarrow> ctx \<Rightarrow> DataID \<Rightarrow> ObjectLocator prog" where
  "MetadataRepository_Delete_p U c i = call_p (retry_p (delete_attempt U c i) 0) fail_p ret_p"

definition NewMetadataRepository_p :: "uuid_lib \<Rightarrow> MetadataRepoP" where
  "NewMetadataRepository_p U = \<lparr>mp_Put = MetadataRepository_Put_p U, mp_Get = MetadataRepository_Get_p U,
     mp_ListByUser = MetadataRepository_ListByUser_p U, mp_Delete = MetadataRepository_Delete_p U\<rparr>"

lemmas metadata_p_defs = NewMetadataRepository_p_def MetadataRepoP.select_convs MetadataRepository_Put_p_def
  MetadataRepository_Get_p_def MetadataRepository_ListByUser_p_def MetadataRepository_Delete_p_def

definition SealedRepo_Put_p :: "uuid_lib \<Rightarrow> ctx \<Rightarrow> Metadata \<Rightarrow> nat \<Rightarrow> int \<Rightarrow> bytes \<Rightarrow> ObjectLocator prog" where
  "SealedRepo_Put_p U c meta r sz sha =
     call_p (retry_p (putLogic U c meta r sz sha) 0) fail_p (\<lambda>uuid. ret_p (''pg://'' @ uuid))"

definition SealedRepo_Get_p :: "ctx \<Rightarrow> ObjectLocator \<Rightarrow> ReadCloser prog" where
  "SealedRepo_Get_p c loc = call_p (retry_p (ret (get_pipe c loc)) 0) fail_p ret_p"

definition SealedRepo_Delete_p :: "ctx \<Rightarrow> ObjectLocator \<Rightarrow> unit prog" where
  "SealedRepo_Delete_p c loc =
     call_p (retry_p
       (call (pool_exec c (sql_DeleteObject loc)) (wrapping ''queries.DeleteObject'') ret) 0) fail_p ret_p"

definition NewObjectRepository_p :: "uuid_lib \<Rightarrow> ObjectRepoP" where
  "NewObjectRepository_p U = \<lparr>op_Put = SealedRepo_Put_p U, op_Get = SealedRepo_Get_p, op_Delete = SealedRepo_Delete_p\<rparr>"

lemmas object_p_defs = NewObjectRepository_p_def ObjectRepoP.select_convs SealedRepo_Put_p_def SealedRepo_Get_p_def
  SealedRepo_Delete_p_def

definition invoke_p :: "'i option \<Rightarrow> ('i \<Rightarrow> 'a prog) \<Rightarrow> 'a prog" where
  "invoke_p i f = (case i of None \<Rightarrow> Done (Panic nil_deref) | Some s \<Rightarrow> f s)"

definition StoreRouter_Put_p ::
  "ObjectRepoP StoreRouter \<Rightarrow> ctx \<Rightarrow> Metadata \<Rightarrow> nat \<Rightarrow> int \<Rightarrow> bytes \<Rightarrow> ObjectLocator prog" where
  "StoreRouter_Put_p r c meta rd sz sha =
     call_p (Done (pickByType r (MetaDataType meta))) fail_p (\<lambda>storage.
     call_p (invoke_p storage (\<lambda>s. op_Put s c meta rd sz sha)) (wrap_p ''storage Put'') ret_p)"

definition StoreRouter_Get_p :: "ObjectRepoP StoreRouter \<Rightarrow> ctx \<Rightarrow> ObjectLocator \<Rightarrow> ReadCloser prog" where
  "StoreRouter_Get_p r c loc =
     call_p (Done (pickByLocator r loc)) fail_p (\<lambda>storage.
     call_p (invoke_p storage (\<lambda>s. op_Get s c loc)) (wrap_p ''storage Get'') ret_p)"

definition StoreRouter_Delete_p :: "ObjectRepoP StoreRouter \<Rightarrow> ctx \<Rightarrow> ObjectLocator \<Rightarrow> unit prog" where
  "StoreRouter_Delete_p r c loc =
     call_p (Done (pickByLocator r loc)) fail_p (\<lambda>storage.
     call_p (invoke_p storage (\<lambda>s. op_Delete s c loc)) (wrap_p ''storage Delete'') ret_p)"

definition router_repo_p :: "ObjectRepoP StoreRouter \<Rightarrow> ObjectRepoP" where
  "router_repo_p r = \<lparr>op_Put = StoreRouter_Put_p r, op_Get = StoreRouter_Get_p r, op_Delete = StoreRouter_Delete_p r\<rparr>"

lemmas router_p_defs = router_repo_p_def ObjectRepoP.select_convs StoreRouter_Put_p_def StoreRouter_Get_p_def
  StoreRouter_Delete_p_def

section \<open>The keeper\<close>

record ServiceP =
  objectRepo_p :: ObjectRepoP
  metadataRepo_p :: MetadataRepoP

definition NewService_p :: "ObjectRepoP \<Rightarrow> MetadataRepoP \<Rightarrow> ServiceP" where
  "NewService_p obr mdr = \<lparr>objectRepo_p = obr, metadataRepo_p = mdr\<rparr>"

definition undo_put_p :: "ServiceP \<Rightarrow> ctx \<Rightarrow> ObjectLocator \<Rightarrow> goerr \<Rightarrow> DataID prog" where
  "undo_put_p s ctx2 loc err =
     call_p (op_Delete (objectRepo_p s) ctx2 loc)
       (\<lambda>errDelete. wrap_p ''failed to put metadata to meta repo'' (ErrJoin [err, errDelete]))
       (\<lambda>_. wrap_p ''failed to put metadata to meta repo'' err)"

definition AddSealed_p :: "ServiceP \<Rightarrow> ctx \<Rightarrow> UserID \<Rightarrow> Metadata option \<Rightarrow> bytes \<Rightarrow> DataID prog" where
  "AddSealed_p s c userID metaPtr sealed =
     (if userID = '''' then fail_p (ErrNew MsgEmptyUserID)
      else (case metaPtr of
         None \<Rightarrow> fail_p (ErrNew ''nil metadata'')
       | Some meta0 \<Rightarrow>
           if sealed = [] then fail_p (ErrNew ''empty sealed_data'')
           else if MetaDataType meta0 \<notin> {DataTypeAuthenticationCredentials, DataTypeCard, DataTypeBinary}
           then fail_p (ErrNew (''unsupported data type: '' @ MetaDataType meta0))
           else
             let meta = meta0\<lparr>MetaUserID := userID\<rparr> in
             call_p (timeout_p c (\<lambda>ctx1.
                 call_p (act (bytes_NewReader sealed)) fail_p (\<lambda>r.
                 op_Put (objectRepo_p s) ctx1 meta r (int32 (int (length sealed))) (sha256_Sum256 sealed))))
               (wrap_p ''failed to put sealed data to object repo'') (\<lambda>loc.
             timeout_p c (\<lambda>ctx2.
               call_p (mp_Put (metadataRepo_p s) ctx2 meta loc) (undo_put_p s ctx2 loc) ret_p))))"

definition getSealedHelper_p :: "ServiceP \<Rightarrow> ctx \<Rightarrow> ObjectLocator \<Rightarrow> bytes prog" where
  "getSealedHelper_p s c loc =
     timeout_p c (\<lambda>ctxTO.
     call_p (op_Get (objectRepo_p s) ctxTO loc) (wrap_p ''objectRepo.Get method failed'') (\<lambda>rc.
     call_p (act (rc_ReadAll rc))
       (\<lambda>e. act (ret_join [] [Some (Wrap ''failed to read object'' e), rc_Close rc]))
       (\<lambda>sealed. act (ret_join sealed [None, rc_Close rc]))))"

definition GetSealed_p :: "ServiceP \<Rightarrow> ctx \<Rightarrow> DataID \<Rightarrow> StreamCallback \<Rightarrow> unit prog" where
  "GetSealed_p s c i cb =
     (if i = '''' then fail_p (ErrNew ''empty id'')
      else
        call_p (timeout_p c (\<lambda>ctx1. mp_Get (metadataRepo_p s) ctx1 i))
          (wrap_p ''failed to get metadata from repo'') (\<lambda>(meta, loc).
        call_p (getSealedHelper_p s c loc) fail_p (\<lambda>sealed.
        call_p (act (cb meta sealed)) (wrap_p ''callback failed'') ret_p)))"

definition Service_List_p :: "ServiceP \<Rightarrow> ctx \<Rightarrow> UserID \<Rightarrow> MetaLoc list prog" where
  "Service_List_p s c userID =
     (if userID = '''' then fail_p (ErrNew MsgEmptyUserID)
      else call_p (timeout_p c (\<lambda>ctxTO. mp_ListByUser (metadataRepo_p s) ctxTO userID))
        (wrap_p ''failed to list metadata from repo'') ret_p)"

definition Service_Delete_p :: "ServiceP \<Rightarrow> ctx \<Rightarrow> DataID \<Rightarrow> unit prog" where
  "Service_Delete_p s c i =
     (if i = '''' then fail_p (ErrNew ''empty id'')
      else
        call_p (timeout_p c (\<lambda>ctx1. mp_Delete (metadataRepo_p s) ctx1 i))
          (wrap_p ''failed to delete metadata'') (\<lambda>loc.
        call_p (timeout_p c (\<lambda>ctx2. op_Delete (objectRepo_p s) ctx2 loc))
          (wrap_p ''failed to delete data'') ret_p))"

fun sync_loop_p :: "ServiceP \<Rightarrow> ctx \<Rightarrow> SyncMode \<Rightarrow> StreamCallback \<Rightarrow> MetaLoc list \<Rightarrow> unit prog" where
  "sync_loop_p s c mode cb [] = ret_p ()"
| "sync_loop_p s c mode cb (ml # mls) =
     Act (\<lambda>w. w) (\<lambda>w. case ctx_Err c (now w) of
        Some e \<Rightarrow> wrap_p ''metadata run through failed'' e
      | None \<Rightarrow>
          if mode = SyncModeShort then
            call_p (getSealedHelper_p s c (Locator ml)) fail_p (\<lambda>sealed.
            call_p (act (cb (Meta ml) sealed))
              (wrap_p ''metadata and data grpc stream write callback failed'') (\<lambda>_.
            sync_loop_p s c mode cb mls))
          else if mode = SyncModeFull then fail_p (ErrNew ''full sync mode isn't implemented yet'')
          else fail_p (ErrNew ''unknown sync mode''))"

definition Service_Sync_p :: "ServiceP \<Rightarrow> ctx \<Rightarrow> UserID \<Rightarrow> SyncMode \<Rightarrow> StreamCallback \<Rightarrow> unit prog" where
  "Service_Sync_p s c userID mode cb =
     (if userID = '''' then fail_p (ErrNew MsgEmptyUserID)
      else
        call_p (timeout_p c (\<lambda>ctx1. mp_ListByUser (metadataRepo_p s) ctx1 userID))
          (wrap_p ''repo.ListMetadata method failed'') (\<lambda>metaLocs.
        sync_loop_p s c mode cb metaLocs))"

definition op_p :: "timestamp_lib \<Rightarrow> ServiceP \<Rightarrow> ctx \<Rightarrow> vault_op \<Rightarrow> outcome prog" where
  "op_p T s c op =
     (case op of
        OpAdd u mp bs \<Rightarrow> call_p (AddSealed_p s c u mp bs) fail_p (\<lambda>i. ret_p (Added i))
      | OpDelete i \<Rightarrow> call_p (Service_Delete_p s c i) fail_p (\<lambda>_. ret_p Finished)
      | OpGet i \<Rightarrow> call_p (GetSealed_p s c i (\<lambda>m bs. stream_Send (response T m bs))) fail_p (\<lambda>_. ret_p Finished)
      | OpList u \<Rightarrow> call_p (Service_List_p s c u) fail_p (\<lambda>mls. ret_p (Listed mls))
      | OpSync u mode \<Rightarrow> call_p (Service_Sync_p s c u mode (\<lambda>m bs. stream_Send (response T m bs))) fail_p (\<lambda>_. ret_p Finished))"

section \<open>Without interruption\<close>

definition runs_obj :: "ObjectRepoP \<Rightarrow> ObjectRepo" where
  "runs_obj P = \<lparr>or_Put = (\<lambda>c m r sz sha. run (op_Put P c m r sz sha)), or_Get = (\<lambda>c loc. run (op_Get P c loc)),
     or_Delete = (\<lambda>c loc. run (op_Delete P c loc))\<rparr>"

definition runs_meta :: "MetadataRepoP \<Rightarrow> MetadataRepo" where
  "runs_meta P = \<lparr>mdr_Put = (\<lambda>c m loc. run (mp_Put P c m loc)), mdr_Get = (\<lambda>c i. run (mp_Get P c i)),
     mdr_ListByUser = (\<lambda>c u. run (mp_ListByUser P c u)), mdr_Delete = (\<lambda>c i. run (mp_Delete P c i))\<rparr>"

definition runs_service :: "ServiceP \<Rightarrow> Service" where
  "runs_service s = NewService (runs_obj (objectRepo_p s)) (runs_meta (metadataRepo_p s))"

lemma run_pure [run_simps]: "run (Done r) = pure_call r"
  by (simp add: fun_eq_iff pure_call_def)

lemma runs_meta_pg: "runs_meta (NewMetadataRepository_p U) = NewMetadataRepository U"
  by (simp add: runs_meta_def metadata_p_defs NewMetadataRepository_def fun_eq_iff run_simps
      MetadataRepository_Put_def MetadataRepository_Get_def MetadataRepository_ListByUser_def MetadataRepository_Delete_def)

lemma runs_obj_pg: "runs_obj (NewObjectRepository_p U) = NewObjectRepository U"
  by (simp add: runs_obj_def object_p_defs NewObjectRepository_def fun_eq_iff run_simps
      SealedRepo_Put_def SealedRepo_Get_def SealedRepo_Delete_def)

lemma run_invoke_p [run_simps]: "run (invoke_p i f) = invoke i (\<lambda>s. run (f s))"
  by (simp add: invoke_p_def invoke_def fun_eq_iff comp_simps run_simps split: option.split)

lemma pick_reposByType: "pickByType (router_New (reposByType S)) dt =
   (if dt = DataTypeUnspecified then Err (ErrNew ''unknown data type'')
    else if storable_type dt then Ok (Some S)
    else Err (ErrNew (''failed to find storage for data type '' @ dt)))"
  by (auto simp: pickByType_def router_New_def reposByType_def storable_type_def)

lemma runs_router: "runs_obj (router_repo_p (router_New (reposByType P))) = router_repo (router_New (reposByType (runs_obj P)))"
  by (simp add: runs_obj_def router_p_defs router_repo_def StoreRouter_Put_def StoreRouter_Get_def StoreRouter_Delete_def
      fun_eq_iff run_simps pick_reposByType pickByLocator_New call_def comp_simps invoke_def)

lemma runs_parts [run_simps]:
  "run (op_Put (objectRepo_p s) c m r sz sha) = or_Put (objectRepo (runs_service s)) c m r sz sha"
  "run (op_Get (objectRepo_p s) c loc) = or_Get (objectRepo (runs_service s)) c loc"
  "run (op_Delete (objectRepo_p s) c loc) = or_Delete (objectRepo (runs_service s)) c loc"
  "run (mp_Put (metadataRepo_p s) c m loc) = mdr_Put (metadataRepo (runs_service s)) c m loc"
  "run (mp_Get (metadataRepo_p s) c i) = mdr_Get (metadataRepo (runs_service s)) c i"
  "run (mp_ListByUser (metadataRepo_p s) c u) = mdr_ListByUser (metadataRepo (runs_service s)) c u"
  "run (mp_Delete (metadataRepo_p s) c i) = mdr_Delete (metadataRepo (runs_service s)) c i"
  by (simp_all add: runs_service_def NewService_def runs_obj_def runs_meta_def)

lemma run_undo_put_p [run_simps]: "run (undo_put_p s c loc e) = undo_put (runs_service s) c loc e"
  by (simp add: undo_put_p_def undo_put_def run_simps)

lemma run_AddSealed_p [run_simps]: "run (AddSealed_p s c u mp bs) = AddSealed (runs_service s) c u mp bs"
  unfolding AddSealed_p_def AddSealed_def Let_def by (simp only: run_simps)

lemma run_getSealedHelper_p [run_simps]: "run (getSealedHelper_p s c loc) = getSealedHelper (runs_service s) c loc"
  unfolding getSealedHelper_p_def getSealedHelper_def by (simp only: run_simps)

lemma run_GetSealed_p [run_simps]: "run (GetSealed_p s c i cb) = GetSealed (runs_service s) c i cb"
  unfolding GetSealed_p_def GetSealed_def by (simp only: run_simps)

lemma run_Service_List_p [run_simps]: "run (Service_List_p s c u) = Service_List (runs_service s) c u"
  unfolding Service_List_p_def Service_List_def by (simp only: run_simps)

lemma run_Service_Delete_p [run_simps]: "run (Service_Delete_p s c i) = Service_Delete (runs_service s) c i"
  unfolding Service_Delete_p_def Service_Delete_def by (simp only: run_simps)

lemma run_sync_loop_p [run_simps]: "run (sync_loop_p s c mode cb mls) = sync_loop (runs_service s) c mode cb mls"
proof (induction mls arbitrary: mode)
  case (Cons ml mls)
  show ?case by (rule ext) (simp add: Cons run_simps comp_simps split: option.split)
qed (simp add: run_simps)

lemma run_Service_Sync_p [run_simps]: "run (Service_Sync_p s c u mode cb) = Service_Sync (runs_service s) c u mode cb"
  unfolding Service_Sync_p_def Service_Sync_def by (simp only: run_simps)

lemma run_op_p: "run (op_p T s c op) = exec_op T (runs_service s) c op"
  unfolding op_p_def exec_op_def by (cases op) (simp_all only: vault_op.case run_simps)

text \<open>The services of the model.\<close>

abbreviation pg_service_p :: "uuid_lib \<Rightarrow> ServiceP" where
  "pg_service_p U \<equiv> NewService_p (NewObjectRepository_p U) (NewMetadataRepository_p U)"

abbreviation server_service_p :: "uuid_lib \<Rightarrow> ServiceP" where
  "server_service_p U \<equiv> NewService_p (router_repo_p (router_New (reposByType (NewObjectRepository_p U)))) (NewMetadataRepository_p U)"

lemma runs_pg_service: "runs_service (pg_service_p U) = pg_service U"
  by (simp add: runs_service_def NewService_p_def runs_obj_pg runs_meta_pg)

lemma runs_server_service: "runs_service (server_service_p U) = server_service U"
  by (simp add: runs_service_def NewService_p_def runs_router runs_obj_pg runs_meta_pg)

end
