(* ===== verification/Linearizability.thy ===== *)
theory Linearizability
  imports Repo_Programs
begin

text \<open>
  The keeper under concurrent calls.  The programs of several calls take turns, action by action, on
  one database; the vault of \<open>Vault\<close> takes a call in one step somewhere between the moment it is made
  and the moment it is answered.  Every history of calls and answers the service has is a history of
  that vault, with one exception that the retry loop makes necessary: up to three attempts of a call
  whose replies were lost may have taken effect before the attempt that answers it.  What the other
  calls do between the actions of an operation can then not be told from their doing it before or after
  the whole operation.
\<close>

section \<open>The atomic vault\<close>

datatype event = Invoked nat vault_op | Answered nat outcome

text \<open>A call is pending, with the number of lost attempts it may still have, or taken.\<close>

datatype call_status = Pending vault_op nat | Took vault_op outcome

type_synonym vault_state = "(nat \<rightharpoonup> call_status) \<times> entry list"

abbreviation max_lost :: nat where
  "max_lost \<equiv> nat maxAttemptCount"

text \<open>A run has a history of calls and answers, and the operations in the order the vault took them, the
  lost attempts among them as failed operations.\<close>

inductive atomic_run ::
  "(string \<Rightarrow> uuid option) \<Rightarrow> event list \<Rightarrow> (vault_op \<times> outcome) list \<Rightarrow> vault_state \<Rightarrow> vault_state \<Rightarrow> bool"
  for parse where
  at_rest: "atomic_run parse [] [] s s"
| invoked: "pend i = None \<Longrightarrow> atomic_run parse evs tr (pend(i \<mapsto> Pending op max_lost), es) s \<Longrightarrow>
    atomic_run parse (Invoked i op # evs) tr (pend, es) s"
| lost: "pend i = Some (Pending op (Suc k)) \<Longrightarrow> vault_step parse op Failed es es' \<Longrightarrow>
    atomic_run parse evs tr (pend(i \<mapsto> Pending op k), es') s \<Longrightarrow> atomic_run parse evs ((op, Failed) # tr) (pend, es) s"
| taken: "pend i = Some (Pending op k) \<Longrightarrow> vault_step parse op out es es' \<Longrightarrow>
    atomic_run parse evs tr (pend(i \<mapsto> Took op out), es') s \<Longrightarrow> atomic_run parse evs ((op, out) # tr) (pend, es) s"
| answered: "pend i = Some (Took op out) \<Longrightarrow> atomic_run parse evs tr (pend(i := None), es) s \<Longrightarrow>
    atomic_run parse (Answered i out # evs) tr (pend, es) s"

text \<open>The operations in the order taken are a run of the sequential vault.\<close>

lemma atomic_run_vault: "atomic_run parse evs tr s s' \<Longrightarrow> vault_run parse tr (snd s) (snd s')"
  by (induction rule: atomic_run.induct) (auto intro: vault_run.intros)

section \<open>Concurrent calls\<close>

type_synonym service_state = "(nat \<rightharpoonup> outcome prog) \<times> world"

text \<open>Each client has at most one call under way.  A call is answered when its program is done with a
  value or an error: one that panicked or hangs never answers.  Between two actions everything outside
  the database may change, the clock included, which covers pauses that overlap.\<close>

inductive concurrent_run :: "timestamp_lib \<Rightarrow> ServiceP \<Rightarrow> event list \<Rightarrow> service_state \<Rightarrow> service_state \<Rightarrow> bool"
  for T s where
  all_quiet: "concurrent_run T s [] q q"
| call_made: "ps i = None \<Longrightarrow> concurrent_run T s evs (ps(i \<mapsto> op_p T s c op), w) q \<Longrightarrow>
    concurrent_run T s (Invoked i op # evs) (ps, w) q"
| acted: "ps i = Some (Act u n) \<Longrightarrow> concurrent_run T s evs (ps(i \<mapsto> n w), u w) q \<Longrightarrow>
    concurrent_run T s evs (ps, w) q"
| call_answered: "ps i = Some (Done r) \<Longrightarrow> returns r \<Longrightarrow> concurrent_run T s evs (ps(i := None), w) q \<Longrightarrow>
    concurrent_run T s (Answered i (outcome_of r) # evs) (ps, w) q"
| elsewhere: "db v = db w \<Longrightarrow> open_tx v = open_tx w \<Longrightarrow> concurrent_run T s evs (ps, v) q \<Longrightarrow>
    concurrent_run T s evs (ps, w) q"

section \<open>What the repositories promise to concurrent callers\<close>

text \<open>An operation that returns a value named by \<open>f\<close> answers with its outcome, or fails.\<close>

fun answers :: "('a \<Rightarrow> outcome) \<Rightarrow> outcome \<Rightarrow> 'a result \<Rightarrow> bool" where
  "answers f out (Ok x) = (f x \<in> {out, Failed})"
| "answers f out _ = True"

lemma answers_not_Ok: "\<not> is_Ok r \<Longrightarrow> answers f out r"
  by (cases r) simp_all

lemma answers_outcome: "answers (\<lambda>x. x) out r \<Longrightarrow> outcome_of r \<in> {out, Failed}"
  by (cases r) simp_all

lemma answers_map: "answers (\<lambda>x. f (g x)) out r \<Longrightarrow> guarantees I G (answers f out) (resume fail_p (\<lambda>x. ret_p (g x)) r)"
  by (cases r) (auto simp: guarantees_simple guarantees_Done)

lemma answers_Failed_map:
  "answers (\<lambda>x. f (g x)) Failed r \<Longrightarrow> commits I G E L Q (answers f Failed) k (resume fail_p (\<lambda>x. ret_p (g x)) r)"
  by (cases r) (auto simp: ret_p_def commits_simple commits_Done)

lemma vault_step_Failed: "vault_step parse op out es es' \<Longrightarrow> vault_step parse op Failed es es'"
  by (induction rule: vault_step.induct) (auto intro: vault_step.intros)

lemma vault_step_refused: "vault_step parse op Failed es es"
  by (cases op) (auto intro: vault_step.intros)

definition inert :: "(world \<Rightarrow> entry list) \<Rightarrow> world \<Rightarrow> world \<Rightarrow> bool" where
  "inert cat w w' \<longleftrightarrow> wf_world w' \<and> cat w' = cat w"

definition takes :: "(string \<Rightarrow> uuid option) \<Rightarrow> (world \<Rightarrow> entry list) \<Rightarrow> vault_op \<Rightarrow> outcome \<Rightarrow> world \<Rightarrow> world \<Rightarrow> bool" where
  "takes parse cat op out w w' \<longleftrightarrow> wf_world w' \<and> vault_step parse op out (cat w) (cat w')"

text \<open>A program that leaves the catalog alone, and one that is an operation of the vault.\<close>

abbreviation settled :: "(world \<Rightarrow> entry list) \<Rightarrow> ('a result \<Rightarrow> bool) \<Rightarrow> 'a prog \<Rightarrow> bool" where
  "settled cat \<equiv> guarantees wf_world (inert cat)"

abbreviation waiting ::
  "(string \<Rightarrow> uuid option) \<Rightarrow> (world \<Rightarrow> entry list) \<Rightarrow> ('a \<Rightarrow> outcome) \<Rightarrow> vault_op \<Rightarrow> nat \<Rightarrow> 'a prog \<Rightarrow> bool" where
  "waiting parse cat f op \<equiv>
     commits wf_world (inert cat) (takes parse cat op Failed) (takes parse cat op) (answers f) (answers f Failed)"

locale object_programs =
  fixes P :: ObjectRepoP and cat :: "world \<Rightarrow> entry list"
  assumes cat_db: "db v = db w \<Longrightarrow> cat v = cat w"
    and put_settled: "settled cat (\<lambda>_. True) (op_Put P c m r sz sha)"
    and get_settled: "settled cat (\<lambda>r. \<forall>rc. r = Ok rc \<longrightarrow> keeps wf_world (rc_ReadAll rc) \<and> frames db (rc_ReadAll rc)) (op_Get P c loc)"
    and delete_settled: "settled cat (\<lambda>_. True) (op_Delete P c loc)"

locale metadata_programs =
  fixes P :: MetadataRepoP and parse :: "string \<Rightarrow> uuid option" and cat :: "world \<Rightarrow> entry list"
  assumes put_waiting: "waiting parse cat Added (OpAdd u (Some m) bs) max_lost (mp_Put P c (m\<lparr>MetaUserID := u\<rparr>) loc)"
    and get_waiting: "waiting parse cat (\<lambda>_. Finished) (OpGet i) max_lost (mp_Get P c i)"
    and list_waiting: "waiting parse cat Listed (OpList u) max_lost (mp_ListByUser P c u)"
    and sync_waiting: "waiting parse cat (\<lambda>_. Finished) (OpSync u mode) max_lost (mp_ListByUser P c u)"
    and delete_waiting: "waiting parse cat (\<lambda>_. Finished) (OpDelete i) max_lost (mp_Delete P c i)"

section \<open>The repositories keep their promises\<close>

lemma inert_refl: "wf_world w \<Longrightarrow> inert cat w w"
  by (simp add: inert_def)

lemma settled_any: "settled cat Q p \<Longrightarrow> settled cat (\<lambda>_. True) p"
  by (erule guarantees_weaken) simp

lemma settled_call_any:
  "settled cat (\<lambda>_. True) p \<Longrightarrow> (\<And>e. settled cat Q (h e)) \<Longrightarrow> (\<And>x. settled cat Q (k x)) \<Longrightarrow> (\<And>p. Q (Panic p)) \<Longrightarrow> Q Hang \<Longrightarrow>
     settled cat Q (call_p p h k)"
  by (erule guarantees_call_p) (rule guarantees_resume)

lemma settled_timeout_p: "(\<And>c'. settled cat Q (f c')) \<Longrightarrow> settled cat Q (timeout_p c f)"
  by (rule guarantees_timeout_p) (rule inert_refl)

lemma settled_retry_p:
  assumes "keeps wf_world q" and "\<And>w r w'. q w = (r, w') \<Longrightarrow> cat w' = cat w" and "\<And>n w. cat (time_Sleep n w) = cat w"
  shows "settled cat (\<lambda>_. True) (retry_p q n)"
  by (rule guarantees_retry_p) (use assms(2,3) keepsD' [OF assms(1)] wf_time_Sleep in \<open>auto simp: inert_def\<close>)

lemma settled_read:
  assumes "\<And>v w :: world. db v = db w \<Longrightarrow> cat v = cat w" and "keeps wf_world m" and "frames db m"
  shows "settled cat (\<lambda>_. True) (act m)"
proof (rule guarantees_weaken [OF guarantees_act])
  fix w r w' assume "wf_world w" and "m w = (r, w')"
  with keepsD' [OF assms(2)] assms(1) [OF framesD' [OF assms(3)]] show "inert cat w w'" unfolding inert_def by blast
qed simp

lemma waiting_retry_p:
  assumes "keeps wf_world q" and "\<And>n w. cat (time_Sleep n w) = cat w"
    and Ok: "\<And>w x w'. wf_world w \<Longrightarrow> q w = (Ok x, w') \<Longrightarrow> vault_step parse op (f (g x)) (cat w) (cat w')"
    and other: "\<And>w r w'. wf_world w \<Longrightarrow> q w = (r, w') \<Longrightarrow> vault_step parse op Failed (cat w) (cat w')"
  shows "waiting parse cat f op max_lost (call_p (retry_p q 0) fail_p (\<lambda>x. ret_p (g x)))"
proof -
  have "waiting parse cat (\<lambda>x. f (g x)) op (nat (maxAttemptCount - 0)) (retry_p q 0)"
  proof (rule commits_retry_p [where fout = Failed])
    fix w x w' assume "wf_world w" and "q w = (Ok x, w')"
    with keepsD' [OF assms(1)] Ok show "\<exists>out. takes parse cat op out w w' \<and> answers (\<lambda>x. f (g x)) out (Ok x)"
      by (intro exI [of _ "f (g x)"]) (auto simp: takes_def)
  next
    fix w r w' assume "wf_world w" and "q w = (r, w')"
    with keepsD' [OF assms(1)] other show "takes parse cat op Failed w w' \<and> takes parse cat op Failed w w'"
      by (auto simp: takes_def)
  qed (use assms(2) wf_time_Sleep in \<open>auto simp: inert_def answers_not_Ok\<close>)
  then have "waiting parse cat (\<lambda>x. f (g x)) op max_lost (retry_p q 0)" by simp
  then show ?thesis by (rule commits_within) (auto intro: answers_map answers_Failed_map)
qed

lemma pg_catalog_Sleep: "pg_catalog U (time_Sleep n w) = pg_catalog U w"
  by (simp add: time_Sleep_def)

text \<open>One attempt of each query.\<close>

lemma read_attempts: "frames db (get_attempt U c i)" "frames db (list_attempt U c u)"
  by (intro frames_rules pool_exec_db [where f = "\<lambda>t. t"], simp add: sql_GetMetadata_id sql_ListByUser_id)+

lemma attempts_wf: "keeps wf_world (put_attempt U c m loc)" "keeps wf_world (get_attempt U c i)"
  "keeps wf_world (list_attempt U c u)" "keeps wf_world (delete_attempt U c i)"
  by (intro keeps_rules stmt_keeps)+

lemma put_attempt_step:
  assumes "wf_world w" and "put_attempt U c (m\<lparr>MetaUserID := u\<rparr>) loc w = (r, w')"
  shows "vault_step (uuid_Parse U) (OpAdd u (Some m) bs) Failed (pg_catalog U w) (pg_catalog U w')"
    and "r = Ok i \<Longrightarrow> vault_step (uuid_Parse U) (OpAdd u (Some m) bs) (Added i) (pg_catalog U w) (pg_catalog U w')"
proof -
  from keepsD' [OF put_attempt_grown assms(2) grown_refl [OF assms(1)]]
  show "vault_step (uuid_Parse U) (OpAdd u (Some m) bs) Failed (pg_catalog U w) (pg_catalog U w')"
    by (auto simp: grown_def intro: vault_step.add_refused vault_step.add_unanswered)
  show "vault_step (uuid_Parse U) (OpAdd u (Some m) bs) (Added i) (pg_catalog U w) (pg_catalog U w')" if "r = Ok i"
    using Put_Ok_from [OF assms(1) WithRetry_Ok [where q = "put_attempt U c (m\<lparr>MetaUserID := u\<rparr>) loc", OF assms(2) [unfolded that]]]
    by (auto intro: vault_step.added)
qed

lemma delete_attempt_step:
  assumes "wf_world w" and "delete_attempt U c i w = (r, w')"
  shows "vault_step (uuid_Parse U) (OpDelete i) Failed (pg_catalog U w) (pg_catalog U w')"
    and "r = Ok loc \<Longrightarrow> vault_step (uuid_Parse U) (OpDelete i) Finished (pg_catalog U w) (pg_catalog U w')"
proof -
  have "removed U i (pg_catalog U w) w" by (simp add: removed_def)
  from keepsD' [OF delete_attempt_removed assms(2) this]
  show "vault_step (uuid_Parse U) (OpDelete i) Failed (pg_catalog U w) (pg_catalog U w')"
    by (auto simp: removed_def intro: vault_step.delete_refused vault_step.delete_unanswered)
  assume "r = Ok loc"
  with assms(2) have "MetadataRepository_Delete U c i w = (Ok loc, w')"
    by (simp add: MetadataRepository_Delete_def WithRetry_Ok)
  from Delete_Ok [OF assms(1) this] show "vault_step (uuid_Parse U) (OpDelete i) Finished (pg_catalog U w) (pg_catalog U w')"
    by (auto intro: vault_step.deleted)
qed

lemma get_attempt_found:
  assumes "get_attempt U c i w = (Ok row, w')"
  shows "\<exists>x \<in> set (pg_catalog U w). uuid_Parse U i = Some (e_id x)"
proof -
  have "MetadataRepository_Get U c i w = (Ok (row_Metadata U row, mr_StorageLocator row), w')"
    using assms by (simp add: MetadataRepository_Get_def WithRetry_Ok call_Ok ret_simp)
  from Get_Ok [OF this] show ?thesis by blast
qed

lemma list_attempt_owned:
  assumes "list_attempt U c u w = (Ok rows, w')"
  shows "\<exists>k. uuid_Parse U u = Some k \<and> map (row_MetaLoc U) rows = owned_by (pg_catalog U w) k"
proof -
  have "MetadataRepository_ListByUser U c u w = (Ok (map (row_MetaLoc U) rows), w')"
    using assms by (simp add: MetadataRepository_ListByUser_def WithRetry_Ok call_Ok ret_simp)
  then show ?thesis by (rule List_Ok)
qed

text \<open>A read is an operation that leaves the catalog as it is.\<close>

lemma waiting_read:
  assumes "keeps wf_world q" and "frames db q"
    and "\<And>w x w'. q w = (Ok x, w') \<Longrightarrow> vault_step (uuid_Parse U) op (f (g x)) (pg_catalog U w) (pg_catalog U w)"
  shows "waiting (uuid_Parse U) (pg_catalog U) f op max_lost (call_p (retry_p q 0) fail_p (\<lambda>x. ret_p (g x)))"
proof (rule waiting_retry_p [OF assms(1) pg_catalog_Sleep])
  fix w x w' assume q: "q w = (Ok x, w')"
  from assms(3) [OF q] framesD' [OF assms(2) q] show "vault_step (uuid_Parse U) op (f (g x)) (pg_catalog U w) (pg_catalog U w')"
    by simp
next
  fix w r w' assume "q w = (r, w')"
  from framesD' [OF assms(2) this] vault_step_refused show "vault_step (uuid_Parse U) op Failed (pg_catalog U w) (pg_catalog U w')"
    by simp
qed

interpretation pg_metadata_p: metadata_programs "NewMetadataRepository_p U" "uuid_Parse U" "pg_catalog U" for U
proof (unfold_locales, unfold metadata_p_defs)
  fix u m bs c loc i mode
  show "waiting (uuid_Parse U) (pg_catalog U) Added (OpAdd u (Some m) bs) max_lost
      (call_p (retry_p (put_attempt U c (m\<lparr>MetaUserID := u\<rparr>) loc) 0) fail_p ret_p)"
    by (rule waiting_retry_p [where g = "\<lambda>x. x", OF attempts_wf(1) pg_catalog_Sleep]) (rule put_attempt_step, auto)+
  show "waiting (uuid_Parse U) (pg_catalog U) (\<lambda>_. Finished) (OpDelete i) max_lost
      (call_p (retry_p (delete_attempt U c i) 0) fail_p ret_p)"
    by (rule waiting_retry_p [where g = "\<lambda>x. x", OF attempts_wf(4) pg_catalog_Sleep]) (rule delete_attempt_step, auto)+
  show "waiting (uuid_Parse U) (pg_catalog U) (\<lambda>_. Finished) (OpGet i) max_lost
      (call_p (retry_p (get_attempt U c i) 0) fail_p (\<lambda>row. ret_p (row_Metadata U row, mr_StorageLocator row)))"
    by (rule waiting_read [OF attempts_wf(2) read_attempts(1)]) (auto dest!: get_attempt_found intro: vault_step.got)
  show "waiting (uuid_Parse U) (pg_catalog U) Listed (OpList u) max_lost
      (call_p (retry_p (list_attempt U c u) 0) fail_p (\<lambda>rows. ret_p (map (row_MetaLoc U) rows)))"
    by (rule waiting_read [OF attempts_wf(3) read_attempts(2)]) (auto dest!: list_attempt_owned intro: vault_step.listed)
  show "waiting (uuid_Parse U) (pg_catalog U) (\<lambda>_. Finished) (OpSync u mode) max_lost
      (call_p (retry_p (list_attempt U c u) 0) fail_p (\<lambda>rows. ret_p (map (row_MetaLoc U) rows)))"
    by (rule waiting_read [OF attempts_wf(3) read_attempts(2)]) (auto dest!: list_attempt_owned intro: vault_step.synced)
qed

lemma putLogic_other: "frames (\<lambda>w. other_tables (db w)) (putLogic U c m r sz sha)"
  by (rule framesI) (rule putLogic_db [where J = "\<lambda>t. other_tables t = x" for x, OF chunk_stmts_other refl])

lemma putLogic_wf: "keeps wf_world (putLogic U c m r sz sha)"
  unfolding wf_world_inv by (intro putLogic_inv chunk_stmts_wf)

interpretation pg_objects_p: object_programs "NewObjectRepository_p U" "pg_catalog U'" for U U'
proof (unfold_locales, unfold object_p_defs)
  fix c m r sz sha loc
  have "settled (pg_catalog U') (\<lambda>_. True) (retry_p (putLogic U c m r sz sha) 0)"
    by (rule settled_retry_p [OF putLogic_wf]) (rule catalog_other [OF framesD' [OF putLogic_other]], assumption, rule pg_catalog_Sleep)
  then show "settled (pg_catalog U') (\<lambda>_. True) (call_p (retry_p (putLogic U c m r sz sha) 0) fail_p (\<lambda>uuid. ret_p (''pg://'' @ uuid)))"
    by (rule settled_call_any) (simp_all add: guarantees_simple)
  let ?del = "call (pool_exec c (sql_DeleteObject loc)) (wrapping ''queries.DeleteObject'') ret"
  have "keeps wf_world ?del" by (intro keeps_rules stmt_keeps)
  moreover have "frames db ?del"
    by (intro frames_rules pool_exec_db [where f = "\<lambda>t. t"]) (simp add: sql_DeleteObject_def)
  ultimately have "settled (pg_catalog U') (\<lambda>_. True) (retry_p ?del 0)"
    by (intro settled_retry_p) (auto dest: framesD')
  then show "settled (pg_catalog U') (\<lambda>_. True) (call_p (retry_p ?del 0) fail_p ret_p)"
    by (rule settled_call_any) (simp_all add: guarantees_simple)
  have "settled (pg_catalog U') (\<lambda>r. r = Ok (get_pipe c loc)) (retry_p (ret (get_pipe c loc)) 0)"
    by (rule guarantees_retry_p) (auto simp: comp_simps inert_def yields_def wf_time_Sleep)
  then show "settled (pg_catalog U') (\<lambda>r. \<forall>rc. r = Ok rc \<longrightarrow> keeps wf_world (rc_ReadAll rc) \<and> frames db (rc_ReadAll rc))
      (call_p (retry_p (ret (get_pipe c loc)) 0) fail_p ret_p)"
    by (rule guarantees_call_p) (auto simp: guarantees_simple ReadAll_wf ReadAll_frames)
qed simp

text \<open>The router keeps the promises of the storage behind it.\<close>

context object_programs
begin

lemma routed: "object_programs (router_repo_p (router_New (reposByType P))) cat"
proof (unfold_locales, unfold router_p_defs)
  fix c m r sz sha loc
  have "settled cat (\<lambda>_. True) (call_p (op_Put P c m r sz sha) (wrap_p ''storage Put'') ret_p)"
    by (rule settled_call_any [OF put_settled]) (simp_all add: guarantees_simple)
  then show "settled cat (\<lambda>_. True) (call_p (Done (pickByType (router_New (reposByType P)) (MetaDataType m))) fail_p (\<lambda>storage.
       call_p (invoke_p storage (\<lambda>s. op_Put s c m r sz sha)) (wrap_p ''storage Put'') ret_p))"
    by (simp add: pick_reposByType invoke_p_def guarantees_simple)
qed (erule cat_db, simp_all add: pickByLocator_New invoke_p_def guarantees_simple guarantees_Done)

end

interpretation server_objects_p: object_programs "router_repo_p (router_New (reposByType (NewObjectRepository_p U)))" "pg_catalog U'" for U U'
  by (rule pg_objects_p.routed)

section \<open>The operations commit\<close>

locale keeper_programs = obj: object_programs Ob cat + meta: metadata_programs Md parse cat
  for Ob :: ObjectRepoP and Md :: MetadataRepoP and parse :: "string \<Rightarrow> uuid option" and cat :: "world \<Rightarrow> entry list"
begin

abbreviation service :: ServiceP where
  "service \<equiv> NewService_p Ob Md"

lemma service_parts: "objectRepo_p service = Ob" "metadataRepo_p service = Md"
  by (simp_all add: NewService_p_def)

lemma settled_act: "keeps wf_world m \<Longrightarrow> frames db m \<Longrightarrow> settled cat (\<lambda>_. True) (act m)"
  by (rule settled_read [OF obj.cat_db])

lemma settled_undo_put: "settled cat (answers f out) (undo_put_p service c loc e)"
  unfolding undo_put_p_def service_parts
  by (rule settled_call_any [OF obj.delete_settled]) (simp_all add: guarantees_simple)

lemma settled_getSealedHelper: "settled cat (\<lambda>_. True) (getSealedHelper_p service c loc)"
proof -
  have join: "settled cat (\<lambda>_. True) (act (ret_join x es))" for x :: bytes and es
    by (rule settled_act) (simp_all add: ret_join_def keeps_rules frames_simple split: option.split)
  have read: "settled cat (\<lambda>_. True) (call_p (act (rc_ReadAll rc))
       (\<lambda>e. act (ret_join [] [Some (Wrap ''failed to read object'' e), rc_Close rc]))
       (\<lambda>sealed. act (ret_join sealed [None, rc_Close rc])))" if "keeps wf_world (rc_ReadAll rc)" "frames db (rc_ReadAll rc)" for rc
    by (rule settled_call_any [OF settled_act [OF that]]) (simp_all add: join)
  show ?thesis
    unfolding getSealedHelper_p_def service_parts
    by (rule settled_timeout_p, rule guarantees_call_p [OF obj.get_settled])
       (rule guarantees_resume, auto simp: guarantees_simple intro: read)
qed

lemma settled_deliver:
  assumes "\<And>m bs. keeps wf_world (cb m bs)" and "\<And>m bs. frames db (cb m bs)"
    and "\<And>e. Q (Err e)" "\<And>p. Q (Panic p)" "Q Hang" and "\<And>x. settled cat Q (k x)"
  shows "settled cat Q (call_p (getSealedHelper_p service c loc) fail_p (\<lambda>sealed. call_p (act (cb m sealed)) (wrap_p msg) k))"
  by (intro settled_call_any settled_getSealedHelper settled_act assms) (simp_all add: guarantees_simple assms)

lemma settled_sync_loop:
  assumes "\<And>m bs. keeps wf_world (cb m bs)" and "\<And>m bs. frames db (cb m bs)"
  shows "settled cat (answers (\<lambda>_. out) out) (sync_loop_p service c mode cb mls)"
proof (induction mls)
  case (Cons ml mls)
  have "settled cat (answers (\<lambda>_. out) out) (call_p (getSealedHelper_p service c (Locator ml)) fail_p (\<lambda>sealed.
            call_p (act (cb (Meta ml) sealed)) (wrap_p ''metadata and data grpc stream write callback failed'') (\<lambda>_.
            sync_loop_p service c mode cb mls)))"
    by (rule settled_deliver [OF assms]) (simp_all add: Cons)
  then show ?case
    unfolding sync_loop_p.simps by (intro guarantees_Act) (auto simp: guarantees_simple inert_refl split: option.split)
qed (simp add: guarantees_simple)

text \<open>A call of the metadata repository under a timeout, and what follows it.\<close>

lemma waiting_timeout:
  assumes "\<And>c'. waiting parse cat f op k (p c')" and "\<And>out r. answers f out r \<Longrightarrow> settled cat (answers g out) (resume h q r)"
    and "\<And>r i. answers f Failed r \<Longrightarrow> waiting parse cat g op i (resume h q r)"
  shows "waiting parse cat g op k (call_p (timeout_p c p) h q)"
  by (rule commits_within [OF commits_timeout_p [OF inert_refl assms(1)]]) (use assms(2,3) in auto)

lemma waiting_AddSealed: "waiting parse cat Added (OpAdd u mp bs) max_lost (AddSealed_p service c u mp bs)"
proof (cases mp)
  case (Some m)
  let ?m = "m\<lparr>MetaUserID := u\<rparr>"
  have reader: "settled cat (\<lambda>_. True) (act (bytes_NewReader bs))"
    by (rule settled_act) (simp_all add: keeps_def frames_def bytes_NewReader_def wf_world_def)
  have put: "settled cat (\<lambda>_. True) (timeout_p c (\<lambda>ctx1. call_p (act (bytes_NewReader bs)) fail_p (\<lambda>r. op_Put Ob ctx1 ?m r sz sha)))" for sz sha
    by (intro settled_timeout_p settled_call_any reader obj.put_settled) (simp_all add: guarantees_simple)
  have meta: "waiting parse cat Added (OpAdd u (Some m) bs) max_lost (call_p (mp_Put Md c' ?m loc) (undo_put_p service c' loc) ret_p)" for c' loc
    by (rule commits_within [OF meta.put_waiting])
       (auto intro!: guarantees_resume commits_resume commits_never [OF settled_undo_put] simp: guarantees_simple settled_undo_put
         intro: commits_never)
  show ?thesis
    unfolding AddSealed_p_def service_parts Some option.case Let_def
    by (auto intro!: commits_simple commits_after [OF put] commits_timeout_p commits_resume meta inert_refl)
qed (auto simp: AddSealed_p_def intro: commits_simple)

lemma waiting_Delete: "waiting parse cat (\<lambda>_. Finished) (OpDelete i) max_lost (Service_Delete_p service c i)"
proof -
  have "settled cat (answers (\<lambda>_. Finished) out) (call_p (timeout_p c (\<lambda>ctx2. op_Delete Ob ctx2 loc)) (wrap_p ''failed to delete data'') ret_p)"
    if "out = Finished" for loc out
    by (rule settled_call_any [OF settled_timeout_p [OF obj.delete_settled]]) (simp_all add: guarantees_simple that)
  then show ?thesis
    unfolding Service_Delete_p_def service_parts
    by (auto intro!: commits_simple waiting_timeout [OF meta.delete_waiting] guarantees_resume commits_resume simp: guarantees_simple)
qed

lemma waiting_List: "waiting parse cat Listed (OpList u) max_lost (Service_List_p service c u)"
  unfolding Service_List_p_def service_parts
  by (auto intro!: commits_simple waiting_timeout [OF meta.list_waiting] guarantees_resume commits_resume simp: guarantees_simple)

lemma waiting_Get:
  assumes "\<And>m bs. keeps wf_world (cb m bs)" and "\<And>m bs. frames db (cb m bs)"
  shows "waiting parse cat (\<lambda>_. Finished) (OpGet i) max_lost (GetSealed_p service c i cb)"
proof -
  have "settled cat (answers (\<lambda>_. Finished) out) (call_p (getSealedHelper_p service c loc) fail_p (\<lambda>sealed.
        call_p (act (cb m sealed)) (wrap_p ''callback failed'') ret_p))" if "out = Finished" for m loc out
    by (intro settled_deliver assms) (simp_all add: guarantees_simple that)
  then show ?thesis
    unfolding GetSealed_p_def service_parts
    by (auto intro!: commits_simple waiting_timeout [OF meta.get_waiting] guarantees_resume commits_resume simp: guarantees_simple)
qed

lemma waiting_Sync:
  assumes "\<And>m bs. keeps wf_world (cb m bs)" and "\<And>m bs. frames db (cb m bs)"
  shows "waiting parse cat (\<lambda>_. Finished) (OpSync u mode) max_lost (Service_Sync_p service c u mode cb)"
proof -
  have "settled cat (answers (\<lambda>_. Finished) out) (sync_loop_p service c mode cb mls)" if "out = Finished" for mls out
    using settled_sync_loop [where cb = cb, OF assms] that by blast
  then show ?thesis
    unfolding Service_Sync_p_def service_parts
    by (auto intro!: commits_simple waiting_timeout [OF meta.sync_waiting] guarantees_resume commits_resume simp: guarantees_simple)
qed

lemma waiting_answer:
  "waiting parse cat f op k p \<Longrightarrow> waiting parse cat (\<lambda>x. x) op k (call_p p fail_p (\<lambda>x. ret_p (f x)))"
  by (erule commits_within) (auto intro: answers_map answers_Failed_map)

lemma send_keeps: "keeps wf_world (stream_Send msg)"
  by (auto simp: keeps_def stream_Send_def wf_world_def split: option.split)

lemma waiting_op_p: "waiting parse cat (\<lambda>x. x) op max_lost (op_p T service c op)"
  unfolding op_p_def
  by (cases op) (auto intro!: waiting_answer waiting_AddSealed waiting_Delete waiting_List waiting_Get waiting_Sync send_keeps Send_db)

end

interpretation pg_keeper_p: keeper_programs "NewObjectRepository_p U" "NewMetadataRepository_p U" "uuid_Parse U" "pg_catalog U" for U
  by unfold_locales

interpretation server_keeper_p: keeper_programs "router_repo_p (router_New (reposByType (NewObjectRepository_p U)))"
  "NewMetadataRepository_p U" "uuid_Parse U" "pg_catalog U" for U
  by unfold_locales


section \<open>Histories\<close>

text \<open>A vault that may answer a call with less than it took, a failure.\<close>

inductive lax_run :: "(string \<Rightarrow> uuid option) \<Rightarrow> event list \<Rightarrow> vault_state \<Rightarrow> vault_state \<Rightarrow> bool"
  for parse where
  lax_rest: "lax_run parse [] s s"
| lax_invoked: "pend i = None \<Longrightarrow> lax_run parse evs (pend(i \<mapsto> Pending op max_lost), es) s \<Longrightarrow>
    lax_run parse (Invoked i op # evs) (pend, es) s"
| lax_lost: "pend i = Some (Pending op (Suc k)) \<Longrightarrow> vault_step parse op Failed es es' \<Longrightarrow>
    lax_run parse evs (pend(i \<mapsto> Pending op k), es') s \<Longrightarrow> lax_run parse evs (pend, es) s"
| lax_taken: "pend i = Some (Pending op k) \<Longrightarrow> vault_step parse op out es es' \<Longrightarrow>
    lax_run parse evs (pend(i \<mapsto> Took op out), es') s \<Longrightarrow> lax_run parse evs (pend, es) s"
| lax_answered: "pend i = Some (Took op out) \<Longrightarrow> a \<in> {out, Failed} \<Longrightarrow> lax_run parse evs (pend(i := None), es) s \<Longrightarrow>
    lax_run parse (Answered i a # evs) (pend, es) s"

text \<open>A call that fails in the end could have been taken as a failure in the first place.\<close>

fun lowered :: "call_status option \<Rightarrow> call_status option \<Rightarrow> bool" where
  "lowered (Some (Took op out)) st \<longleftrightarrow> st \<in> {Some (Took op out), Some (Took op Failed)}"
| "lowered st st' \<longleftrightarrow> st' = st"

lemma lowered_refl: "lowered st st"
  by (cases "(st, st)" rule: lowered.cases) simp_all

lemma lowered_update:
  "(\<And>j. lowered ((pend(i := st)) j) (pend' j)) \<Longrightarrow> lowered st0 st' \<Longrightarrow> pend i = st0 \<Longrightarrow> lowered (pend j) ((pend'(i := st')) j)"
  by (cases "j = i") (auto dest: meta_spec [of _ j])

lemma lax_atomic:
  "lax_run parse evs s q \<Longrightarrow>
     \<exists>pend' tr q'. (\<forall>j. lowered (fst s j) (pend' j)) \<and> snd q' = snd q \<and> atomic_run parse evs tr (pend', snd s) q'"
proof (induction rule: lax_run.induct)
  case (lax_rest s)
  have "atomic_run parse [] [] (fst s, snd s) s" by (simp add: atomic_run.at_rest)
  then show ?case using lowered_refl by (intro exI [of _ "fst s"] exI [of _ "[]"] exI [of _ s]) simp
next
  case (lax_invoked pend i evs op es q)
  from lax_invoked.IH obtain pend' tr q' where IH: "\<And>j. lowered ((pend(i \<mapsto> Pending op max_lost)) j) (pend' j)"
    "snd q' = snd q" "atomic_run parse evs tr (pend', es) q'"
    unfolding fst_conv snd_conv by blast
  from IH(1) [of i] have "pend'(i := None, i \<mapsto> Pending op max_lost) = pend'" by (auto simp: fun_eq_iff)
  then have "atomic_run parse (Invoked i op # evs) tr (pend'(i := None), es) q'"
    using IH(3) by (intro atomic_run.invoked) simp_all
  moreover have "lowered (pend j) ((pend'(i := None)) j)" for j
    by (rule lowered_update [OF IH(1)]) (simp_all add: lax_invoked(1))
  ultimately show ?case unfolding fst_conv snd_conv using IH(2) by blast
next
  case (lax_lost pend i op k es es' evs q)
  from lax_lost.IH obtain pend' tr q' where IH: "\<And>j. lowered ((pend(i \<mapsto> Pending op k)) j) (pend' j)"
    "snd q' = snd q" "atomic_run parse evs tr (pend', es') q'"
    unfolding fst_conv snd_conv by blast
  from IH(1) [of i] have "pend'(i \<mapsto> Pending op (Suc k), i \<mapsto> Pending op k) = pend'" by (auto simp: fun_eq_iff)
  then have "atomic_run parse evs ((op, Failed) # tr) (pend'(i \<mapsto> Pending op (Suc k)), es) q'"
    using IH(3) lax_lost(2) by (intro atomic_run.lost [where i = i and es' = es' and k = k]) simp_all
  moreover have "lowered (pend j) ((pend'(i \<mapsto> Pending op (Suc k))) j)" for j
    by (rule lowered_update [OF IH(1)]) (simp_all add: lax_lost(1))
  ultimately show ?case unfolding fst_conv snd_conv using IH(2) by blast
next
  case (lax_taken pend i op k out es es' evs q)
  from lax_taken.IH obtain pend' tr q' where IH: "\<And>j. lowered ((pend(i \<mapsto> Took op out)) j) (pend' j)"
    "snd q' = snd q" "atomic_run parse evs tr (pend', es') q'"
    unfolding fst_conv snd_conv by blast
  from IH(1) [of i] obtain out' where out': "pend' i = Some (Took op out')" "out' \<in> {out, Failed}" by auto
  then have "pend'(i \<mapsto> Pending op k, i \<mapsto> Took op out') = pend'" by (auto simp: fun_eq_iff)
  moreover have "vault_step parse op out' es es'" using out'(2) lax_taken(2) vault_step_Failed by blast
  ultimately have "atomic_run parse evs ((op, out') # tr) (pend'(i \<mapsto> Pending op k), es) q'"
    using IH(3) by (intro atomic_run.taken [where i = i and es' = es' and k = k]) simp_all
  moreover have "lowered (pend j) ((pend'(i \<mapsto> Pending op k)) j)" for j
    by (rule lowered_update [OF IH(1)]) (simp_all add: lax_taken(1))
  ultimately show ?case unfolding fst_conv snd_conv using IH(2) by blast
next
  case (lax_answered pend i op out a evs es q)
  from lax_answered.IH obtain pend' tr q' where IH: "\<And>j. lowered ((pend(i := None)) j) (pend' j)"
    "snd q' = snd q" "atomic_run parse evs tr (pend', es) q'"
    unfolding fst_conv snd_conv by blast
  from IH(1) [of i] have "pend'(i \<mapsto> Took op a, i := None) = pend'" by (auto simp: fun_eq_iff)
  then have "atomic_run parse (Answered i a # evs) tr (pend'(i \<mapsto> Took op a), es) q'"
    using IH(3) by (intro atomic_run.answered [where op = op]) simp_all
  moreover have "lowered (pend j) ((pend'(i \<mapsto> Took op a)) j)" for j
    by (rule lowered_update [OF IH(1) _ lax_answered(1)]) (use lax_answered(2) in auto)
  ultimately show ?case unfolding fst_conv snd_conv using IH(2) by blast
qed

context keeper_programs
begin

text \<open>What the vault holds of a call and how far the program of the call has come.\<close>

fun tracks :: "call_status option \<Rightarrow> outcome prog option \<Rightarrow> bool" where
  "tracks None None = True"
| "tracks (Some (Pending op k)) (Some p) = waiting parse cat (\<lambda>x. x) op k p"
| "tracks (Some (Took op out)) (Some p) = settled cat (answers (\<lambda>x. x) out) p"
| "tracks _ _ = False"

lemma tracks_Some:
  assumes "tracks st (Some p)"
  obtains op k where "st = Some (Pending op k)" "waiting parse cat (\<lambda>x. x) op k p"
  | op out where "st = Some (Took op out)" "settled cat (answers (\<lambda>x. x) out) p"
  using assms by (cases "(st, Some p)" rule: tracks.cases) auto

lemma tracks_None: "tracks st None \<longleftrightarrow> st = None"
  by (cases "(st, None :: outcome prog option)" rule: tracks.cases) auto

lemma tracks_update: "(\<And>j. tracks (pend j) (ps j)) \<Longrightarrow> tracks st p \<Longrightarrow> tracks ((pend(i := st)) j) ((ps(i := p)) j)"
  by simp

text \<open>One action of a call: the vault rests, loses an attempt or takes the call.\<close>

lemma acted_lax:
  assumes "pend i = st" and "tracks st (Some (Act u n))" and "wf_world w"
    and rest: "\<And>st'. wf_world (u w) \<Longrightarrow> tracks st' (Some (n w)) \<Longrightarrow>
      W \<and> (\<exists>pend'. lax_run parse evs (pend(i := st'), cat (u w)) (pend', es))"
  shows "W \<and> (\<exists>pend'. lax_run parse evs (pend, cat w) (pend', es))"
  using assms(2)
proof (cases rule: tracks_Some)
  case (1 op k)
  with assms(3) have "(inert cat w (u w) \<and> waiting parse cat (\<lambda>x. x) op k (n w)) \<or>
      (\<exists>j. k = Suc j \<and> takes parse cat op Failed w (u w) \<and> waiting parse cat (\<lambda>x. x) op j (n w)) \<or>
      (\<exists>out. takes parse cat op out w (u w) \<and> settled cat (answers (\<lambda>x. x) out) (n w))"
    by (simp add: commits_simps)
  then show ?thesis
  proof (elim disjE exE conjE)
    assume a: "inert cat w (u w)" "waiting parse cat (\<lambda>x. x) op k (n w)"
    then show ?thesis using rest [of st] assms(1) 1(1) by (simp add: inert_def fun_upd_idem)
  next
    fix j assume a: "k = Suc j" "takes parse cat op Failed w (u w)" "waiting parse cat (\<lambda>x. x) op j (n w)"
    have p: "pend i = Some (Pending op (Suc j))" using assms(1) 1(1) a(1) by simp
    have v: "vault_step parse op Failed (cat w) (cat (u w))" "wf_world (u w)" using a(2) by (simp_all add: takes_def)
    from rest [OF v(2), of "Some (Pending op j)"] a(3) lax_lost [where pend = pend and i = i, OF p v(1)]
    show ?thesis unfolding tracks.simps by blast
  next
    fix out assume a: "takes parse cat op out w (u w)" "settled cat (answers (\<lambda>x. x) out) (n w)"
    have p: "pend i = Some (Pending op k)" using assms(1) 1(1) by simp
    have v: "vault_step parse op out (cat w) (cat (u w))" "wf_world (u w)" using a(1) by (simp_all add: takes_def)
    from rest [OF v(2), of "Some (Took op out)"] a(2) lax_taken [where pend = pend and i = i, OF p v(1)]
    show ?thesis unfolding tracks.simps by blast
  qed
next
  case (2 op out)
  with assms(3) have "inert cat w (u w)" "settled cat (answers (\<lambda>x. x) out) (n w)" by (simp_all add: guarantees_simps)
  then show ?thesis using rest [of st] assms(1) 2(1) by (simp add: inert_def fun_upd_idem)
qed

text \<open>An answer: one that never committed is a failure, which the vault can take at once.\<close>

lemma answered_lax:
  assumes "pend i = st" and "tracks st (Some (Done r))" and "\<exists>pend'. lax_run parse evs (pend(i := None), es) (pend', es')"
  shows "\<exists>pend'. lax_run parse (Answered i (outcome_of r) # evs) (pend, es) (pend', es')"
  using assms(2)
proof (cases rule: tracks_Some)
  case (1 op k)
  then have "outcome_of r = Failed" using answers_outcome [of Failed r] by (simp add: commits_simps)
  moreover have p: "pend i = Some (Pending op k)" using assms(1) 1(1) by simp
  moreover have "lax_run parse (Answered i Failed # evs) (pend(i \<mapsto> Took op Failed), es) s"
    if "lax_run parse evs (pend(i := None), es) s" for s
    by (rule lax_answered [where i = i and op = op and out = Failed]) (use that in simp_all)
  ultimately show ?thesis
    using lax_taken [where pend = pend and i = i, OF p vault_step_refused] assms(3) by metis
next
  case (2 op out)
  then have "outcome_of r \<in> {out, Failed}" by (intro answers_outcome) (simp add: guarantees_simps)
  moreover have p: "pend i = Some (Took op out)" using assms(1) 2(1) by simp
  ultimately show ?thesis using lax_answered [where pend = pend and i = i, OF p] assms(3) by blast
qed

lemma concurrent_lax:
  "concurrent_run T service evs q q' \<Longrightarrow> wf_world (snd q) \<Longrightarrow> (\<And>j. tracks (pend j) (fst q j)) \<Longrightarrow>
     wf_world (snd q') \<and> (\<exists>pend'. lax_run parse evs (pend, cat (snd q)) (pend', cat (snd q')))"
proof (induction arbitrary: pend rule: concurrent_run.induct)
  case (all_quiet q)
  then show ?case by (blast intro: lax_rest)
next
  case (call_made ps i evs c op w q)
  have "pend i = None" using call_made(1,5) tracks_None by (metis fst_conv)
  moreover have "wf_world (snd q) \<and> (\<exists>pend'. lax_run parse evs (pend(i \<mapsto> Pending op max_lost), cat w) (pend', cat (snd q)))"
    using call_made.IH [of "pend(i \<mapsto> Pending op max_lost)"] call_made.prems
      tracks_update [of pend ps "Some (Pending op max_lost)" "Some (op_p T service c op)" i]
    by (simp only: fst_conv snd_conv tracks.simps waiting_op_p)
  ultimately show ?case by (auto intro: lax_invoked)
next
  case (acted ps i u n evs w q)
  have tr: "tracks (pend i) (Some (Act u n))" using acted.prems(2) [of i] acted(1) by simp
  have w: "wf_world w" using acted.prems(1) by simp
  have rest: "wf_world (snd q) \<and> (\<exists>pend'. lax_run parse evs (pend(i := st), cat (u w)) (pend', cat (snd q)))"
    if "wf_world (u w)" "tracks st (Some (n w))" for st
    using acted.IH [of "pend(i := st)"] acted.prems(2) tracks_update [of pend ps st "Some (n w)" i] that
    by (simp only: fst_conv snd_conv)
  show ?case
    unfolding snd_conv by (rule acted_lax [where pend = pend and i = i and u = u and n = n and w = w, OF refl tr w rest])
next
  case (call_answered ps i r evs w q)
  have "tracks (pend i) (Some (Done r))" using call_answered.prems(2) [of i] call_answered(1) by simp
  moreover have "wf_world (snd q) \<and> (\<exists>pend'. lax_run parse evs (pend(i := None), cat w) (pend', cat (snd q)))"
    using call_answered.IH [of "pend(i := None)"] call_answered.prems tracks_update [of pend ps None None i]
    by (simp only: fst_conv snd_conv tracks.simps)
  ultimately show ?case using answered_lax [OF refl] by (simp only: snd_conv)
next
  case (elsewhere v w evs ps q)
  have "wf_world v" using elsewhere(1,2) elsewhere.prems(1) by (simp add: wf_world_def)
  with elsewhere.IH [of pend] elsewhere.prems(2) show ?case
    unfolding fst_conv snd_conv obj.cat_db [OF elsewhere(1)] by blast
qed

lemma concurrent_atomic:
  assumes "concurrent_run T service evs (\<lambda>_. None, w) (ps, w')" and "wf_world w"
  shows "wf_world w' \<and> (\<exists>tr pend. atomic_run parse evs tr (\<lambda>_. None, cat w) (pend, cat w'))"
proof -
  have lax: "wf_world w' \<and> (\<exists>pend'. lax_run parse evs (\<lambda>_. None, cat w) (pend', cat w'))"
    using concurrent_lax [OF assms(1), of "\<lambda>_. None"] assms(2) by simp
  then obtain p where "lax_run parse evs (\<lambda>_. None, cat w) (p, cat w')" by blast
  from lax_atomic [OF this] obtain pend' tr q' where q':
    "\<forall>j. lowered None (pend' j)" "snd q' = cat w'" "atomic_run parse evs tr (pend', cat w) q'"
    unfolding fst_conv snd_conv by blast
  from q'(1) have "pend' = (\<lambda>_. None)" by (simp add: fun_eq_iff)
  with q' lax show ?thesis by (cases q') auto
qed

end


section \<open>Properties\<close>

lemma atomic_run_ops:
  "atomic_run parse evs tr s s' \<Longrightarrow> (op, out) \<in> set tr \<Longrightarrow>
     (\<exists>i. Invoked i op \<in> set evs) \<or> (\<exists>i k. fst s i = Some (Pending op k))"
proof (induction rule: atomic_run.induct)
  case (invoked pend i evs tr op' es s)
  from invoked.IH [OF invoked.prems] show ?case by (auto split: if_splits)
next
  case (lost pend i op' k es es' evs tr s)
  then have "op' = op \<or> (op, out) \<in> set tr" by auto
  then show ?case
  proof
    assume "(op, out) \<in> set tr"
    from lost.IH [OF this] lost(1) show ?thesis by (auto split: if_splits)
  qed (use lost(1) in auto)
next
  case (taken pend i op' k out' es es' evs tr s)
  then have "op' = op \<or> (op, out) \<in> set tr" by auto
  then show ?case
  proof
    assume "(op, out) \<in> set tr"
    from taken.IH [OF this] show ?thesis by (auto split: if_splits)
  qed (use taken(1) in auto)
next
  case (answered pend i op' out' evs tr es s)
  from answered.IH [OF answered.prems] show ?case by (auto split: if_splits)
qed simp

lemma acted_at:
  assumes "concurrent_run T s evs (ps(i \<mapsto> n w), u w) q"
  shows "concurrent_run T s evs (ps(i \<mapsto> Act u n), w) q"
proof -
  have at: "(ps(i \<mapsto> Act u n)) i = Some (Act u n)" by simp
  from assms have "concurrent_run T s evs (ps(i \<mapsto> Act u n, i \<mapsto> n w), u w) q" by (simp only: fun_upd_upd)
  then show ?thesis by (rule concurrent_run.acted [where ps = "ps(i \<mapsto> Act u n)" and i = i and u = u and n = n, OF at])
qed

text \<open>Others may come between the actions of a program or not come at all.\<close>

lemma run_alone:
  "run p w = (r, w') \<Longrightarrow> concurrent_run T s evs (ps(i \<mapsto> Done r), w') q \<Longrightarrow> concurrent_run T s evs (ps(i \<mapsto> p), w) q"
proof (induction p arbitrary: w)
  case (Act u n)
  from Act.prems(1) have "run (n w) (u w) = (r, w')" by simp
  then have "concurrent_run T s evs (ps(i \<mapsto> n w), u w) q" by (rule Act.IH [OF rangeI _ Act.prems(2)])
  then show ?case by (rule acted_at)
qed simp

text \<open>C2: The keeper of the server is linearizable but for its retries: whatever calls several clients have
  under way at once, however their attempts interleave and the network fails, the history of calls and
  answers is one of a vault that takes every call in a single step between the call and its answer, in
  an order that is a run of the sequential vault over the catalogs of the databases; before that step at
  most three attempts of the call whose replies were lost may have taken effect.  The database stays
  intact.\<close>

theorem keeper_linearizable:
  assumes "concurrent_run T (server_service_p U) evs (\<lambda>_. None, w) (ps, w')" and "wf_world w"
  shows "wf_world w' \<and> (\<exists>tr pend. atomic_run (uuid_Parse U) evs tr (\<lambda>_. None, catalog_of U (db w)) (pend, catalog_of U (db w')) \<and>
    vault_run (uuid_Parse U) tr (catalog_of U (db w)) (catalog_of U (db w')))"
  using server_keeper_p.concurrent_atomic [OF assms] atomic_run_vault by fastforce

text \<open>C5: Users are isolated from each other, also while they call at the same time, as far as identifiers are
  kept secret: when no call adds in the name of an owner or deletes the id of one of the owner's
  objects, the catalog keeps the objects of the owner exactly as they were.\<close>

theorem concurrent_users_are_isolated:
  assumes "concurrent_run T (server_service_p U) evs (\<lambda>_. None, w) (ps, w')" and "wf_world w"
    and "\<forall>i op. Invoked i op \<in> set evs \<longrightarrow> \<not> concerns (uuid_Parse U) (catalog_of U (db w)) k op"
  shows "entries_of k (catalog_of U (db w')) = entries_of k (catalog_of U (db w))"
proof -
  from server_keeper_p.concurrent_atomic [OF assms(1,2)] obtain tr pend where
    run: "atomic_run (uuid_Parse U) evs tr (\<lambda>_. None, catalog_of U (db w)) (pend, catalog_of U (db w'))" by blast
  have "\<forall>(op, out) \<in> set tr. \<not> concerns (uuid_Parse U) (catalog_of U (db w)) k op"
    using atomic_run_ops [OF run] assms(3) by auto
  with atomic_run_vault [OF run] show ?thesis by (intro vault_run_isolated) simp_all
qed

text \<open>A client reads the clock for its addition, then another lists, then the addition goes on.\<close>

lemma demo_listing:
  obtains mls w1 where "exec_op demo_timestamp (server_service demo_uuid) context_Background (OpList ''1'') demo_object_world
      = (Ok (Listed mls), w1)" and "db w1 = db demo_object_world" and "open_tx w1 = open_tx demo_object_world"
  by (simp add: exec_op_def Service_List_def NewService_def NewMetadataRepository_def MetadataRepository_ListByUser_def
      with_timeout_def WithRetry.simps call_def comp_simps ToPgUUID_def demo_uuid_1 pool_exec_reliable ctx_Err_with_timeout
      run_stmt_def sql_ListByUser_def demo_object_world_def demo_catalog_defs)

lemma demo_addition:
  obtains i w' where "exec_op demo_timestamp (server_service demo_uuid) context_Background (OpAdd ''1'' (Some (demo_card\<lparr>ID := ''1''\<rparr>)) [1, 2])
    demo_object_world = (Ok (Added i), w')"
  by (rule demo_add) (simp add: exec_op_def call_Ok ret_simp)

lemma demo_starts_with_clock:
  obtains n where "op_p T s c (OpAdd ''1'' (Some (demo_card\<lparr>ID := ''1''\<rparr>)) [1, 2]) = Act (\<lambda>w. w) n"
  by (simp add: op_p_def AddSealed_p_def timeout_p_def demo_card_def Let_def)

lemma demo_history:
  obtains mls i ps w' where "concurrent_run demo_timestamp (server_service_p demo_uuid)
      [Invoked 1 (OpAdd ''1'' (Some (demo_card\<lparr>ID := ''1''\<rparr>)) [1, 2]), Invoked 2 (OpList ''1''),
       Answered 2 (Listed mls), Answered 1 (Added i)] (\<lambda>_. None, demo_object_world) (ps, w')"
proof -
  let ?s = "server_service_p demo_uuid" and ?srv = "server_service demo_uuid" and ?add = "OpAdd ''1'' (Some (demo_card\<lparr>ID := ''1''\<rparr>)) [1, 2]"
  let ?w = demo_object_world and ?c = context_Background and ?ps = "\<lambda>_ :: nat. None :: outcome prog option"
  obtain n where n: "op_p demo_timestamp ?s ?c ?add = Act (\<lambda>w. w) n" by (rule demo_starts_with_clock)
  obtain i w' where add: "exec_op demo_timestamp ?srv ?c ?add ?w = (Ok (Added i), w')" by (rule demo_addition)
  obtain mls w1 where listing: "exec_op demo_timestamp ?srv ?c (OpList ''1'') ?w = (Ok (Listed mls), w1)"
    and w1: "db ?w = db w1" "open_tx ?w = open_tx w1" by (rule demo_listing) simp_all
  let ?run = "concurrent_run demo_timestamp ?s"
  have "?run [Answered 1 (outcome_of (Ok (Added i)))] (?ps(1 \<mapsto> Done (Ok (Added i))), w') (?ps, w')"
    by (rule concurrent_run.call_answered) (simp_all add: concurrent_run.all_quiet)
  moreover have "run (n ?w) ?w = (Ok (Added i), w')"
    using add run_op_p [of demo_timestamp ?s ?c ?add] n by (simp add: runs_server_service fun_eq_iff)
  ultimately have "?run [Answered 1 (Added i)] (?ps(1 \<mapsto> n ?w), ?w) (?ps, w')"
    unfolding outcome_of.simps by (rule run_alone [rotated])
  then have "?run [Answered 1 (Added i)] (?ps(1 \<mapsto> n ?w), w1) (?ps, w')"
    by (rule concurrent_run.elsewhere [OF w1])
  then have "?run [Answered 2 (outcome_of (Ok (Listed mls))), Answered 1 (Added i)] (?ps(1 \<mapsto> n ?w, 2 \<mapsto> Done (Ok (Listed mls))), w1) (?ps, w')"
    by (intro concurrent_run.call_answered) (simp_all add: fun_upd_twist)
  then have "?run [Answered 2 (Listed mls), Answered 1 (Added i)] (?ps(1 \<mapsto> n ?w, 2 \<mapsto> op_p demo_timestamp ?s ?c (OpList ''1'')), ?w) (?ps, w')"
    unfolding outcome_of.simps by (rule run_alone [rotated]) (simp only: run_op_p runs_server_service listing)
  then have "?run [Invoked 2 (OpList ''1''), Answered 2 (Listed mls), Answered 1 (Added i)] (?ps(1 \<mapsto> n ?w), ?w) (?ps, w')"
    by (intro concurrent_run.call_made) simp_all
  then have "?run [Invoked 2 (OpList ''1''), Answered 2 (Listed mls), Answered 1 (Added i)]
      (?ps(1 \<mapsto> op_p demo_timestamp ?s ?c ?add), ?w) (?ps, w')"
    unfolding n by (rule acted_at [where u = "\<lambda>w. w"])
  then have "?run [Invoked 1 ?add, Invoked 2 (OpList ''1''), Answered 2 (Listed mls), Answered 1 (Added i)] (?ps, ?w) (?ps, w')"
    by (rule concurrent_run.call_made [rotated]) simp
  then show thesis by (rule that)
qed

theorem keeper_linearizable_witness:
  "\<exists>mls i (w' :: world) tr pend. atomic_run (uuid_Parse demo_uuid)
     [Invoked 1 (OpAdd ''1'' (Some (demo_card\<lparr>ID := ''1''\<rparr>)) [1, 2]), Invoked 2 (OpList ''1''),
      Answered 2 (Listed mls), Answered 1 (Added i)] tr
     (\<lambda>_. None, catalog_of demo_uuid (db demo_object_world)) (pend, catalog_of demo_uuid (db w'))"
proof (rule demo_history)
  fix mls i ps w'
  assume "concurrent_run demo_timestamp (server_service_p demo_uuid)
      [Invoked 1 (OpAdd ''1'' (Some (demo_card\<lparr>ID := ''1''\<rparr>)) [1, 2]), Invoked 2 (OpList ''1''),
       Answered 2 (Listed mls), Answered 1 (Added i)] (\<lambda>_. None, demo_object_world) (ps, w')"
  from keeper_linearizable [OF this wf_demo_object_world] show ?thesis by blast
qed

theorem concurrent_users_are_isolated_witness:
  "\<exists>mls i ps w'. concurrent_run demo_timestamp (server_service_p demo_uuid)
      [Invoked 1 (OpAdd ''1'' (Some (demo_card\<lparr>ID := ''1''\<rparr>)) [1, 2]), Invoked 2 (OpList ''1''),
       Answered 2 (Listed mls), Answered 1 (Added i)] (\<lambda>_. None, demo_object_world) (ps, w') \<and>
     entries_of 2 (catalog_of demo_uuid (db w')) = entries_of 2 (catalog_of demo_uuid (db demo_object_world))"
proof (rule demo_history)
  fix mls i ps w'
  assume run: "concurrent_run demo_timestamp (server_service_p demo_uuid)
      [Invoked 1 (OpAdd ''1'' (Some (demo_card\<lparr>ID := ''1''\<rparr>)) [1, 2]), Invoked 2 (OpList ''1''),
       Answered 2 (Listed mls), Answered 1 (Added i)] (\<lambda>_. None, demo_object_world) (ps, w')"
  have "entries_of 2 (catalog_of demo_uuid (db w')) = entries_of 2 (catalog_of demo_uuid (db demo_object_world))"
    by (rule concurrent_users_are_isolated [OF run wf_demo_object_world]) (simp add: demo_uuid_1)
  with run show ?thesis by blast
qed

end
