(* ===== verification/Concurrent_Server.thy ===== *)
theory Concurrent_Server
  imports Linearizability Api
begin

text \<open>
  The server under concurrent calls: gRPC starts a goroutine per call, so the handlers of several calls
  run at once.  Each handler is a program, which run to its end is the handler of the theory that models
  it; the server interleaves their actions, down to the attempts of a query.  A panic of one handler ends
  the process with all of them.
\<close>

section \<open>The handlers as programs\<close>

definition status_p :: "code \<Rightarrow> string \<Rightarrow> goerr \<Rightarrow> 'a prog" where
  "status_p cd msg e = fail_p (StatusErr cd msg)"

definition TokenRepository_Save_p :: "uuid_lib \<Rightarrow> ctx \<Rightarrow> slice \<Rightarrow> UserID \<Rightarrow> time \<Rightarrow> unit prog" where
  "TokenRepository_Save_p U c tokenHash userID expiresAt =
     retry_p
       (call (pure_call (ToPgUUID U userID)) (wrapping msgWrongUserID) (\<lambda>userUUID.
        call (pool_exec c (sql_Save userUUID tokenHash expiresAt)) (wrapping ''queries.Save failed'')
        ret)) 0"

definition TokenRepository_Delete_p :: "ctx \<Rightarrow> slice \<Rightarrow> unit prog" where
  "TokenRepository_Delete_p c tokenHash =
     retry_p
       (call (pool_exec c (sql_DeleteToken tokenHash)) (wrapping ''queries.Delete failed'') ret) 0"

definition UserRepository_Create_p :: "uuid_lib \<Rightarrow> ctx \<Rightarrow> User \<Rightarrow> UserID prog" where
  "UserRepository_Create_p U c u =
     call_p (retry_p
       (call (pool_exec c (sql_Create (LoginHash u) (PasswordPHC u))) (wrapping ''queries.Create failed'')
        (\<lambda>userID. ret (uuid_String U userID))) 0) fail_p ret_p"

abbreviation find_attempt :: "uuid_lib \<Rightarrow> ctx \<Rightarrow> bytes \<Rightarrow> (world, UserID \<times> User) comp" where
  "find_attempt U c loginHash \<equiv>
     call (pool_exec c (sql_FindByLogin loginHash)) (wrapping ''queries.FindByLogin failed'')
        (\<lambda>(uid, phc). ret (uuid_String U uid, \<lparr>PasswordPHC = phc, LoginHash = []\<rparr>))"

definition UserRepository_FindByLogin_p :: "uuid_lib \<Rightarrow> ctx \<Rightarrow> bytes \<Rightarrow> (UserID \<times> User) prog" where
  "UserRepository_FindByLogin_p U c loginHash = call_p (retry_p (find_attempt U c loginHash) 0) fail_p ret_p"

definition CreateSession_p :: "jwt_lib \<Rightarrow> uuid_lib \<Rightarrow> Generator \<Rightarrow> ctx \<Rightarrow> UserID \<Rightarrow> (string \<times> slice) prog" where
  "CreateSession_p J U g c userID =
     call_p (act (GenerateAccessToken J g userID)) (wrap_p ''failed to generate access token'')
       (\<lambda>accessToken.
     call_p (act (GenerateRefreshToken g)) (wrap_p ''failed to generate refresh token'')
       (\<lambda>(refreshToken, expiresAt).
     call_p (timeout_p c (\<lambda>ctxTO. TokenRepository_Save_p U ctxTO refreshToken userID expiresAt))
       (wrap_p ''failed to save refresh token'') (\<lambda>_.
     ret_p (accessToken, refreshToken))))"

definition RevokeSession_p :: "ctx \<Rightarrow> slice \<Rightarrow> unit prog" where
  "RevokeSession_p c refreshToken =
     call_p (timeout_p c (\<lambda>ctxTO. TokenRepository_Delete_p ctxTO refreshToken))
       (wrap_p ''failed to revoke refresh token'') ret_p"

text \<open>The handlers of the server, over its repositories and a generator of tokens.\<close>

definition Login_p ::
  "argon2_lib \<Rightarrow> jwt_lib \<Rightarrow> uuid_lib \<Rightarrow> Generator \<Rightarrow> ctx \<Rightarrow> LoginRequest option \<Rightarrow> LoginResponse prog" where
  "Login_p A J U g c r =
     (if r = None then fail_p (StatusErr InvalidArgument MsgAgentWrong)
      else (case LoginRequest_GetAuthData r of
         None \<Rightarrow> fail_p (StatusErr InvalidArgument MsgRequestValidationFailed)
       | Some creds \<Rightarrow>
           if ad_Login creds = None \<or> ad_Password creds = None
           then fail_p (StatusErr InvalidArgument MsgRequestValidationFailed)
           else
             let loginHash = GenerateHMAC (or_zero [] (AuthData_GetLogin (Some creds))) (as_secret (server_auth J U g)) in
             call_p (timeout_p c (\<lambda>ctx1. UserRepository_FindByLogin_p U ctx1 loginHash))
               (status_p Unauthenticated ''failed to find user'') (\<lambda>(userID, userData).
             call_p (Done (CompareHashAndPassword A (PasswordPHC userData)
                 (or_zero [] (AuthData_GetPassword (Some creds)))))
               (status_p Unauthenticated ''password format is wrong'') (\<lambda>_.
             call_p (CreateSession_p J U g c userID)
               (status_p Internal ''failed to create session'') (\<lambda>(access, refresh).
             ret_p \<lparr>loginresp_Tokens = Some (mk_Tokens access refresh)\<rparr>)))))"

definition Logout_p :: "ctx \<Rightarrow> LogoutRequest option \<Rightarrow> unit prog" where
  "Logout_p c r =
     (if r = None then fail_p (StatusErr InvalidArgument MsgAgentWrong)
      else (case LogoutRequest_GetRefreshToken r of
         None \<Rightarrow> fail_p (StatusErr InvalidArgument ''request validation failed'')
       | Some refreshToken \<Rightarrow>
           call_p (RevokeSession_p c (RefreshToken_GetRefreshToken (Some refreshToken)))
             (status_p Internal ''logout failed'') (\<lambda>_. ret_p ())))"

definition Register_p ::
  "argon2_lib \<Rightarrow> jwt_lib \<Rightarrow> uuid_lib \<Rightarrow> Generator \<Rightarrow> ctx \<Rightarrow> RegisterRequest option \<Rightarrow> RegisterResponse prog" where
  "Register_p A J U g c r =
     (if r = None then fail_p (StatusErr InvalidArgument MsgAgentWrong)
      else (case RegisterRequest_GetAuthData r of
         None \<Rightarrow> fail_p (StatusErr InvalidArgument MsgRequestValidationFailed)
       | Some creds \<Rightarrow>
           if ad_Login creds = None \<or> ad_Password creds = None
           then fail_p (StatusErr InvalidArgument MsgRequestValidationFailed)
           else
             let loginHash = GenerateHMAC (or_zero [] (AuthData_GetLogin (Some creds))) (as_secret (server_auth J U g)) in
             call_p (timeout_p c (\<lambda>ctx1. UserRepository_FindByLogin_p U ctx1 loginHash))
               (\<lambda>err. if \<not> errors_Is err Model_ErrNotFound
                      then fail_p (StatusErr Internal msgRegistrationFailed)
                      else
                        call_p (act (GenerateFromPassword A (or_zero [] (AuthData_GetPassword (Some creds)))))
                          (status_p Internal msgRegistrationFailed) (\<lambda>passwordHash.
                        call_p (timeout_p c (\<lambda>ctx2. UserRepository_Create_p U ctx2
                            \<lparr>PasswordPHC = passwordHash, LoginHash = loginHash\<rparr>))
                          (status_p Internal msgRegistrationFailed) (\<lambda>userID.
                        call_p (CreateSession_p J U g c userID)
                          (status_p Internal msgRegistrationFailed) (\<lambda>(access, refresh).
                        ret_p \<lparr>registerresp_Tokens = Some (mk_Tokens access refresh)\<rparr>))))
               (\<lambda>_. fail_p (StatusErr AlreadyExists ''the username is already taken''))))"

definition with_user_p :: "ctx \<Rightarrow> (UserID \<Rightarrow> 'a prog) \<Rightarrow> 'a prog" where
  "with_user_p c k =
     (case ctx_UserID c of
        None \<Rightarrow> fail_p (StatusErr Unauthenticated MsgUserNotAuthenticated)
      | Some userID \<Rightarrow>
          if userID = '''' then fail_p (StatusErr Unauthenticated MsgUserNotAuthenticated)
          else k userID)"

fun add_each_p :: "timestamp_lib \<Rightarrow> ServiceP \<Rightarrow> ctx \<Rightarrow> UserID \<Rightarrow> AddRequest list \<Rightarrow> unit prog" where
  "add_each_p T s c userID [] = ret_p ()"
| "add_each_p T s c userID (req # reqs) =
     (case AddRequest_GetMetadata (Some req) of
        None \<Rightarrow> fail_p (StatusErr InvalidArgument MsgAgentWrong)
      | Some metaDTO \<Rightarrow>
          (case AddRequest_GetPayload (Some req) of
             None \<Rightarrow> fail_p (StatusErr InvalidArgument MsgAgentWrong)
           | Some payload \<Rightarrow>
               call_p (Done (FromProtoMetadata T (Some metaDTO)))
                 (status_p InvalidArgument MsgAgentWrong) (\<lambda>meta.
               (case Payload_GetSealedData (Some payload) of
                  None \<Rightarrow> fail_p (StatusErr InvalidArgument ''data should be filled'')
                | Some sealedData \<Rightarrow>
                    call_p (AddSealed_p s c userID (Some meta) sealedData)
                      (status_p Internal ''add failed'') (\<lambda>_.
                    add_each_p T s c userID reqs)))))"

definition KeeperGRPC_Add_p ::
  "(goerr \<Rightarrow> string) \<Rightarrow> timestamp_lib \<Rightarrow> ServiceP \<Rightarrow> ctx \<Rightarrow> (goerr + AddRequest) list \<Rightarrow> goerr option \<Rightarrow> unit prog" where
  "KeeperGRPC_Add_p text_of T s c recvs sendAndClose =
     with_user_p c (\<lambda>userID.
     call_p (Done (recv_all text_of recvs)) fail_p (\<lambda>requests.
     call_p (add_each_p T s c userID requests) fail_p (\<lambda>_.
     case sendAndClose of None \<Rightarrow> ret_p () | Some e \<Rightarrow> fail_p e)))"

definition KeeperGRPC_Delete_p :: "ServiceP \<Rightarrow> ctx \<Rightarrow> DeleteRequest option \<Rightarrow> unit prog" where
  "KeeperGRPC_Delete_p s c req =
     (if req = None then fail_p (StatusErr InvalidArgument MsgAgentWrong)
      else with_user_p c (\<lambda>userID.
        case DeleteRequest_GetMetadata req of
          None \<Rightarrow> fail_p (StatusErr InvalidArgument MsgAgentWrong)
        | Some metaDTO \<Rightarrow>
            call_p (Service_Delete_p s c (Metadata_GetId (Some metaDTO))) (status_p Internal ''delete failed'') (\<lambda>_.
            ret_p ())))"

definition KeeperGRPC_Get_p :: "timestamp_lib \<Rightarrow> ServiceP \<Rightarrow> ctx \<Rightarrow> GetRequest option \<Rightarrow> unit prog" where
  "KeeperGRPC_Get_p T s c req =
     (if req = None then fail_p (StatusErr InvalidArgument MsgAgentWrong)
      else with_user_p c (\<lambda>userID.
        case GetRequest_GetMetadata req of
          None \<Rightarrow> fail_p (StatusErr InvalidArgument MsgAgentWrong)
        | Some metaDTO \<Rightarrow>
            call_p (GetSealed_p s c (Metadata_GetId (Some metaDTO)) (\<lambda>m sealed. stream_Send (response T m sealed)))
              (status_p Internal MsgSyncFailed) (\<lambda>_. ret_p ())))"

definition KeeperGRPC_List_p :: "timestamp_lib \<Rightarrow> ServiceP \<Rightarrow> ctx \<Rightarrow> ListResponse prog" where
  "KeeperGRPC_List_p T s c =
     (case ctx_UserID c of
        None \<Rightarrow> fail_p (StatusErr Unauthenticated MsgAgentWrong)
      | Some userID \<Rightarrow>
          call_p (timeout_p c (\<lambda>ctxTO. Service_List_p s ctxTO userID)) (status_p Internal ''server internal error'')
            (\<lambda>metaLocs. ret_p \<lparr>list_Metadata = map (\<lambda>ml. ToProtoMetadata T (Some (Meta ml))) metaLocs\<rparr>))"

definition KeeperGRPC_Sync_p :: "timestamp_lib \<Rightarrow> ServiceP \<Rightarrow> ctx \<Rightarrow> SyncRequest option \<Rightarrow> unit prog" where
  "KeeperGRPC_Sync_p T s c req =
     (if req = None then fail_p (StatusErr InvalidArgument MsgAgentWrong)
      else with_user_p c (\<lambda>userID.
        let k = (\<lambda>mode.
          call_p (Service_Sync_p s c userID mode (\<lambda>m sealed. stream_Send (response T m sealed)))
            (status_p Internal MsgSyncFailed) (\<lambda>_. ret_p ()))
        in if SyncRequest_GetSyncMode req = SYNC_MODE_SHORT then k SyncModeShort
           else if SyncRequest_GetSyncMode req = SYNC_MODE_FULL then k SyncModeFull
           else fail_p (StatusErr InvalidArgument ''unknown sync mode'')))"

definition HealthService_Ping_p :: "(ctx \<Rightarrow> (world, unit) comp) \<Rightarrow> ctx \<Rightarrow> unit prog" where
  "HealthService_Ping_p repo_Ping c =
     call_p (timeout_p c (\<lambda>ctxTO. act (repo_Ping ctxTO))) (status_p Internal ''repository disconnected'') (\<lambda>_. ret_p ())"

definition Interceptor_p :: "jwt_lib \<Rightarrow> Manager \<Rightarrow> md option \<Rightarrow> ctx \<Rightarrow> (ctx \<Rightarrow> 'a prog) \<Rightarrow> 'a prog" where
  "Interceptor_p J m md c handler =
     (case md of
        None \<Rightarrow> fail_p (StatusErr Unauthenticated ''authentication error'')
      | Some md_Get \<Rightarrow>
          call_p (Done (index (md_Get MDKeyAuthorisation) 0)) fail_p (\<lambda>token.
          call_p (act (ValidateAccessToken J m (strings_TrimPrefix token AuthTokenPrefix)))
            (status_p Unauthenticated ''authentication error'') (\<lambda>userID.
          handler (context_WithValue_UserID c userID))))"

text \<open>The calls of the server that \<open>Setup\<close> builds with a secret key.\<close>

definition replying_p :: "('a \<Rightarrow> reply) \<Rightarrow> 'a prog \<Rightarrow> reply prog" where
  "replying_p f p = call_p p fail_p (\<lambda>x. ret_p (f x))"

abbreviation key_gen :: "string \<Rightarrow> Generator" where
  "key_gen key \<equiv> NewGenerator (go_bytes key)"

fun serve_rpc_p ::
  "argon2_lib \<Rightarrow> (goerr \<Rightarrow> string) \<Rightarrow> timestamp_lib \<Rightarrow> jwt_lib \<Rightarrow> uuid_lib \<Rightarrow> string \<Rightarrow> rpc \<Rightarrow> ctx \<Rightarrow> reply prog" where
  "serve_rpc_p A text_of T J U key RpcPing c = replying_p (\<lambda>_. RepEmpty) (HealthService_Ping_p pool_Ping c)"
| "serve_rpc_p A text_of T J U key (RpcLogin r) c =
     replying_p RepLogin (Login_p A J U (key_gen key) c r)"
| "serve_rpc_p A text_of T J U key (RpcLogout r) c = replying_p (\<lambda>_. RepEmpty) (Logout_p c r)"
| "serve_rpc_p A text_of T J U key (RpcRegister r) c =
     replying_p RepRegister (Register_p A J U (key_gen key) c r)"
| "serve_rpc_p A text_of T J U key (RpcDelete r) c = replying_p (\<lambda>_. RepEmpty) (KeeperGRPC_Delete_p (server_service_p U) c r)"
| "serve_rpc_p A text_of T J U key RpcList c = replying_p RepList (KeeperGRPC_List_p T (server_service_p U) c)"
| "serve_rpc_p A text_of T J U key (RpcAdd recvs close) c =
     replying_p (\<lambda>_. RepEmpty) (KeeperGRPC_Add_p text_of T (server_service_p U) c recvs close)"
| "serve_rpc_p A text_of T J U key (RpcGet r) c = replying_p (\<lambda>_. RepEmpty) (KeeperGRPC_Get_p T (server_service_p U) c r)"
| "serve_rpc_p A text_of T J U key (RpcSync r) c = replying_p (\<lambda>_. RepEmpty) (KeeperGRPC_Sync_p T (server_service_p U) c r)"

definition handle_rpc_p ::
  "argon2_lib \<Rightarrow> (goerr \<Rightarrow> string) \<Rightarrow> timestamp_lib \<Rightarrow> jwt_lib \<Rightarrow> uuid_lib \<Rightarrow> string \<Rightarrow> md option \<Rightarrow> ctx \<Rightarrow> rpc \<Rightarrow> reply prog" where
  "handle_rpc_p A text_of T J U key md c rq =
     (if streaming rq then serve_rpc_p A text_of T J U key rq c
      else Interceptor_p J (pg_manager U (key_gen key)) md c (serve_rpc_p A text_of T J U key rq))"

text \<open>Without interruption they are the handlers.\<close>

lemma run_status_p [run_simps]: "run (status_p cd msg e) = status cd msg e"
  by (simp add: status_p_def status_def run_simps)

lemma run_repositories [run_simps]:
  "run (TokenRepository_Save_p U c tok u e) = rts_Save (NewTokenRepository U) c tok u e"
  "run (TokenRepository_Delete_p c tok) = TokenRepository_Delete c tok"
  "run (UserRepository_Create_p U c x) = ur_Create (NewUserRepository U) c x"
  "run (UserRepository_FindByLogin_p U c l) = ur_FindByLogin (NewUserRepository U) c l"
  by (simp_all only: TokenRepository_Save_p_def TokenRepository_Delete_p_def UserRepository_Create_p_def
      UserRepository_FindByLogin_p_def TokenRepository_Save_def TokenRepository_Delete_def UserRepository_Create_def
      UserRepository_FindByLogin_def NewTokenRepository_def NewUserRepository_def RefreshTokenStorage.select_convs
      UserRepository.select_convs run_simps)

lemma manager_parts: "storage (pg_manager U g) = NewTokenRepository U" "issuer (pg_manager U g) = g"
  "rts_Delete (NewTokenRepository U) = TokenRepository_Delete"
  by (simp_all add: NewManager_def NewTokenRepository_def)

lemma run_CreateSession_p [run_simps]: "run (CreateSession_p J U g c u) = CreateSession J (pg_manager U g) c u"
  unfolding CreateSession_p_def CreateSession_def manager_parts by (simp only: run_simps)

lemma run_RevokeSession_p: "run (RevokeSession_p c s) = RevokeSession (pg_manager U g) c s"
  unfolding RevokeSession_p_def RevokeSession_def manager_parts by (simp only: run_simps)

lemma manager_iface_simps: "sm_CreateSession (manager_iface J m) = CreateSession J m"
  "sm_RevokeSession (manager_iface J m) = RevokeSession m" "sm_ValidateAccessToken (manager_iface J m) c = ValidateAccessToken J m"
  by (simp_all add: manager_iface_def)

lemma run_Login_p [run_simps]: "run (Login_p A J U g c r) = Login A (server_auth J U g) c r"
  unfolding Login_p_def Login_def Let_def NewAuthService_simps by (simp only: run_simps manager_iface_simps)

lemma run_Logout_p: "run (Logout_p c r) = Logout (server_auth J U g) c r"
  unfolding Logout_p_def Logout_def NewAuthService_simps
  by (simp only: run_simps manager_iface_simps run_RevokeSession_p [where U = U and g = g])

lemma run_Register_p [run_simps]: "run (Register_p A J U g c r) = Register A (server_auth J U g) c r"
  unfolding Register_p_def Register_def Let_def NewAuthService_simps by (simp only: run_simps manager_iface_simps)

lemma run_with_user_p [run_simps]: "run (with_user_p c k) = with_user c (\<lambda>u. run (k u))"
  unfolding with_user_p_def with_user_def by (simp only: run_simps)

lemma service_iface_simps: "uc_AddSealed (service_iface s) = AddSealed s" "uc_Delete (service_iface s) = Service_Delete s"
  "uc_GetSealed (service_iface s) = GetSealed s" "uc_List (service_iface s) = Service_List s" "uc_Sync (service_iface s) = Service_Sync s"
  by (simp_all add: service_iface_def)

lemma run_add_each_p [run_simps]: "run (add_each_p T s c u reqs) = add_each T (service_iface (runs_service s)) c u reqs"
proof (induction reqs)
  case (Cons req reqs)
  then show ?case by (simp only: add_each_p.simps add_each.simps run_simps service_iface_simps)
qed (simp add: run_simps)

lemma run_keeper_p [run_simps]:
  "run (KeeperGRPC_Add_p text_of T s c recvs close) = KeeperGRPC_Add text_of T (service_iface (runs_service s)) c recvs close"
  "run (KeeperGRPC_Delete_p s c dr) = KeeperGRPC_Delete (service_iface (runs_service s)) c dr"
  "run (KeeperGRPC_Get_p T s c gr) = KeeperGRPC_Get T (service_iface (runs_service s)) c gr"
  "run (KeeperGRPC_List_p T s c) = KeeperGRPC_List T (service_iface (runs_service s)) c"
  "run (KeeperGRPC_Sync_p T s c sr) = KeeperGRPC_Sync T (service_iface (runs_service s)) c sr"
  unfolding KeeperGRPC_Add_p_def KeeperGRPC_Add_def KeeperGRPC_Delete_p_def KeeperGRPC_Delete_def KeeperGRPC_Get_p_def
    KeeperGRPC_Get_def KeeperGRPC_List_p_def KeeperGRPC_List_def KeeperGRPC_Sync_p_def KeeperGRPC_Sync_def Let_def
  by (simp_all only: run_simps service_iface_simps)

lemma run_Ping_p [run_simps]: "run (HealthService_Ping_p ping c) = HealthService_Ping ping c"
  unfolding HealthService_Ping_p_def HealthService_Ping_def by (simp only: run_simps)

lemma run_Interceptor_p [run_simps]:
  "run (Interceptor_p J m md c h) = Interceptor (NewAuthInterceptor (manager_iface J m)) md c (\<lambda>c'. run (h c'))"
  unfolding Interceptor_p_def Interceptor_def NewAuthInterceptor_def AuthInterceptor.select_convs
  by (simp only: run_simps manager_iface_simps)

lemma run_replying_p [run_simps]: "run (replying_p f p) = replying f (run p)"
  unfolding replying_p_def replying_def by (simp only: run_simps)

lemma run_serve_rpc_p: "is_server J U key g \<Longrightarrow> run (serve_rpc_p A text_of T J U key rq c) = serve_rpc A text_of T g rq c"
  by (cases rq)
     (simp_all add: is_server_def run_simps runs_server_service run_Logout_p [where J = J and U = U and g = "key_gen key"])

lemma run_handle_rpc_p:
  "is_server J U key g \<Longrightarrow> run (handle_rpc_p A text_of T J U key md c rq) = handle_rpc A text_of T g md c rq"
  using run_serve_rpc_p [of J U key g] by (simp add: handle_rpc_p_def handle_rpc_def run_simps is_server_def)

section \<open>The running server\<close>

text \<open>Between two actions everything outside the database may change, the clock included, which covers pauses
  that overlap.\<close>

datatype 'a live = Live "nat \<rightharpoonup> 'a prog" world | Dead world

fun live_world :: "'a live \<Rightarrow> world" where
  "live_world (Live hs w) = w"
| "live_world (Dead w) = w"

inductive live_step ::
  "argon2_lib \<Rightarrow> (goerr \<Rightarrow> string) \<Rightarrow> timestamp_lib \<Rightarrow> jwt_lib \<Rightarrow> uuid_lib \<Rightarrow> string \<Rightarrow> reply live \<Rightarrow> reply live \<Rightarrow> bool"
  for A text_of T J U key where
  arrived: "user_value c = None \<Longrightarrow> hs i = None \<Longrightarrow>
    live_step A text_of T J U key (Live hs w) (Live (hs(i \<mapsto> handle_rpc_p A text_of T J U key md c rq)) w)"
| progressed: "hs i = Some (Act u n) \<Longrightarrow> live_step A text_of T J U key (Live hs w) (Live (hs(i \<mapsto> n w)) (u w))"
| replied: "hs i = Some (Done r) \<Longrightarrow> \<not> is_Panic r \<Longrightarrow> live_step A text_of T J U key (Live hs w) (Live (hs(i := None)) w)"
| died: "hs i = Some (Done (Panic p)) \<Longrightarrow> live_step A text_of T J U key (Live hs w) (Dead w)"
| time_passed: "db v = db w \<Longrightarrow> open_tx v = open_tx w \<Longrightarrow>
    live_step A text_of T J U key (Live hs w) (Live hs v)"

text \<open>A program that keeps an invariant, whatever its result.\<close>

abbreviation safe :: "(world \<Rightarrow> bool) \<Rightarrow> 'a prog \<Rightarrow> bool" where
  "safe I \<equiv> stays I (\<lambda>_. True)"

fun live_inv :: "(world \<Rightarrow> bool) \<Rightarrow> 'a live \<Rightarrow> bool" where
  "live_inv I (Live hs w) \<longleftrightarrow> I w \<and> (\<forall>i p. hs i = Some p \<longrightarrow> safe I p)"
| "live_inv I (Dead w) \<longleftrightarrow> I w"

lemma live_inv_world: "live_inv I x \<Longrightarrow> I (live_world x)"
  by (cases x) simp_all

lemma live_invariant_rule:
  assumes "\<And>md c rq. user_value c = None \<Longrightarrow> safe I (handle_rpc_p A text_of T J U key md c rq)"
    and "\<And>v w :: world. db v = db w \<Longrightarrow> open_tx v = open_tx w \<Longrightarrow> I w \<Longrightarrow> I v"
    and "(live_step A text_of T J U key)\<^sup>*\<^sup>* (Live (\<lambda>_. None) w) x" and "I w"
  shows "I (live_world x)"
proof -
  have pres: "live_inv I y'" if "live_step A text_of T J U key y y'" "live_inv I y" for y y'
    using that
  proof (induction rule: live_step.induct)
    case (progressed hs i u n w)
    then have "safe I (Act u n)" by simp
    with progressed show ?case by (auto simp: guarantees_simps)
  next
    case (time_passed v w hs)
    then show ?case using assms(2) by (metis live_inv.simps(1))
  qed (use assms(1) in auto)
  from assms(3) have "live_inv I x"
    by (induction rule: rtranclp_induct) (use assms(4) pres in auto)
  then show ?thesis by (rule live_inv_world)
qed

section \<open>Safety of the handlers\<close>

named_theorems safe_rules \<open>programs that keep an invariant\<close>

lemma safe_simple [safe_rules]: "safe I (Done r)" "safe I (ret_p x)" "safe I (fail_p e)" "safe I (wrap_p msg e)"
  "safe I (status_p cd msg e)"
  by (simp_all add: guarantees_simps ret_p_def fail_p_def wrap_p_def status_p_def)

lemma safe_weaken: "stays I Q p \<Longrightarrow> safe I p"
  by (erule guarantees_weaken) simp

lemma safe_act [safe_rules]: "keeps I m \<Longrightarrow> safe I (act m)"
  by (rule safe_weaken [OF stays_act])

lemma safe_call [safe_rules]:
  assumes "safe I p" and "\<And>e. safe I (h e)" and "\<And>x. safe I (k x)"
  shows "safe I (call_p p h k)"
  by (rule guarantees_call_p [OF assms(1)]) (rule guarantees_resume, simp_all add: assms)

lemma safe_control [safe_rules]:
  "(\<And>c'. safe I (f c')) \<Longrightarrow> safe I (timeout_p c f)"
  "(b \<Longrightarrow> safe I p) \<Longrightarrow> (\<not> b \<Longrightarrow> safe I q) \<Longrightarrow> safe I (if b then p else q)"
  "safe I p \<Longrightarrow> (\<And>x. safe I (g x)) \<Longrightarrow> safe I (case v of None \<Rightarrow> p | Some x \<Rightarrow> g x)"
  "(\<And>x y. safe I (h x y)) \<Longrightarrow> safe I (case q' of (x, y) \<Rightarrow> h x y)"
  by (auto intro: guarantees_timeout_p split: option.split prod.split)

lemma safe_with_user [safe_rules]: "(\<And>u. safe I (k u)) \<Longrightarrow> safe I (with_user_p c k)"
  unfolding with_user_p_def by (intro safe_rules)

lemma safe_replying [safe_rules]: "safe I p \<Longrightarrow> safe I (replying_p f p)"
  unfolding replying_p_def by (intro safe_rules)

lemma safe_retry [safe_rules]: "keeps I q \<Longrightarrow> (\<And>n w. I w \<Longrightarrow> I (time_Sleep n w)) \<Longrightarrow> safe I (retry_p q n)"
  by (rule stays_retry_p)

context keeper_programs
begin

lemma waiting_safe: "waiting parse cat f op k p \<Longrightarrow> safe wf_world p"
  by (erule commits_stays) (simp_all add: inert_def takes_def)

lemmas keeper_safe = waiting_safe [OF waiting_AddSealed] waiting_safe [OF waiting_Delete] waiting_safe [OF waiting_List]
  waiting_safe [OF waiting_Get] waiting_safe [OF waiting_Sync]

lemma add_each_safe: "safe wf_world (add_each_p T service c u reqs)"
  by (induction reqs) (simp_all, (intro safe_rules keeper_safe | assumption)+)

lemma handlers_safe:
  "safe wf_world (KeeperGRPC_Add_p text_of T service c recvs close)" "safe wf_world (KeeperGRPC_Delete_p service c dr)"
  "safe wf_world (KeeperGRPC_Get_p T service c gr)" "safe wf_world (KeeperGRPC_List_p T service c)"
  "safe wf_world (KeeperGRPC_Sync_p T service c sr)"
  unfolding KeeperGRPC_Add_p_def KeeperGRPC_Delete_p_def KeeperGRPC_Get_p_def KeeperGRPC_List_p_def KeeperGRPC_Sync_p_def Let_def
  by (intro safe_rules keeper_safe add_each_safe send_keeps Send_db)+

end

text \<open>The repositories of users and tokens.\<close>

lemma repositories_safe:
  "safe wf_world (TokenRepository_Save_p U c tok u e)" "safe wf_world (TokenRepository_Delete_p c tok)"
  "safe wf_world (UserRepository_Create_p U c x)" "safe wf_world (UserRepository_FindByLogin_p U c l)"
  unfolding TokenRepository_Save_p_def TokenRepository_Delete_p_def UserRepository_Create_p_def UserRepository_FindByLogin_p_def
  by (intro safe_rules keeps_rules stmt_keeps wf_time_Sleep | assumption)+

lemma sessions_safe: "safe wf_world (CreateSession_p J U g c u)" "safe wf_world (RevokeSession_p c s)"
  unfolding CreateSession_p_def RevokeSession_p_def by (intro safe_rules keeps_rules repositories_safe)+

lemma auth_safe:
  "safe wf_world (Login_p A J U g c lr)" "safe wf_world (Register_p A J U g c rr)" "safe wf_world (Logout_p c lo)"
  unfolding Login_p_def Register_p_def Logout_p_def Let_def
  by (intro safe_rules keeps_rules sessions_safe repositories_safe)+

lemma Ping_safe: "(\<And>c. keeps I (pool_Ping c)) \<Longrightarrow> safe I (HealthService_Ping_p pool_Ping c)"
  unfolding HealthService_Ping_p_def by (intro safe_rules)

lemma keeps_pool_Ping: "keeps wf_world (pool_Ping c)" "frames db (pool_Ping c)"
proof -
  have "stmt_preserves wf_tables sql_Ping" by (simp add: stmt_preserves_def sql_Ping_def)
  then show "keeps wf_world (pool_Ping c)" unfolding pool_Ping_def by (intro keeps_rules)
  show "frames db (pool_Ping c)"
    unfolding pool_Ping_def
    by (intro pool_exec_db [where f = "\<lambda>t. t"]) (simp add: sql_Ping_def)
qed

lemma Interceptor_safe:
  assumes "\<And>c. safe I (h c)"
  shows "safe I (Interceptor_p J m md c h)"
proof -
  have "keeps I (ValidateAccessToken J m tok)" for tok
    by (simp add: keeps_def ValidateAccessToken_def CheckAccessToken_state)
  then show ?thesis unfolding Interceptor_p_def by (intro safe_rules assms)
qed

lemma serve_rpc_safe: "safe wf_world (serve_rpc_p A text_of T J U key rq c)"
  by (cases rq) (auto intro!: safe_replying Ping_safe keeps_pool_Ping auth_safe server_keeper_p.handlers_safe)

lemma handle_rpc_safe: "(\<And>c. safe I (serve_rpc_p A text_of T J U key rq c)) \<Longrightarrow> safe I (handle_rpc_p A text_of T J U key md c rq)"
  unfolding handle_rpc_p_def by (auto intro: Interceptor_safe)

section \<open>A fresh server\<close>

definition pristine :: "world \<Rightarrow> bool" where
  "pristine w \<longleftrightarrow> wf_world w \<and> fixed_tables (db w) = fixed_tables migrated"

lemma keeps_pristine: "keeps wf_world m \<Longrightarrow> frames (\<lambda>w. fixed_tables (db w)) m \<Longrightarrow> keeps pristine m"
  unfolding pristine_def by (intro keeps_conj frames_keeps)

lemma keeps_pristine_read: "keeps wf_world m \<Longrightarrow> frames db m \<Longrightarrow> keeps pristine m"
  by (rule keeps_pristine) (auto intro: frames_weaken)

lemma pristine_Sleep: "pristine w \<Longrightarrow> pristine (time_Sleep n w)"
  using wf_time_Sleep [of w n] by (simp add: pristine_def)

lemma safe_pristine_retry: "keeps wf_world q \<Longrightarrow> frames (\<lambda>w. fixed_tables (db w)) q \<Longrightarrow> safe pristine (retry_p q n)"
  by (intro safe_retry keeps_pristine pristine_Sleep)

text \<open>Nobody is ever found, nor ever found missing.\<close>

lemma find_attempt_refused:
  assumes "find_attempt U c l w = (r, w')"
  shows "\<exists>e. r = Err e \<and> \<not> errors_Is e Model_ErrNotFound"
proof -
  obtain r0 w0 where ex: "pool_exec c (sql_FindByLogin l) w = (r0, w0)" by force
  have "\<not> is_Ok r0" using ex by (auto simp: pool_exec_def run_stmt_def sql_FindByLogin_def split: option.splits net_event.splits)
  moreover have "returns r0" using totalD [OF pool_exec_total, of "sql_FindByLogin l" c w] ex by (simp add: total_rules)
  ultimately obtain e where e: "r0 = Err e" by (cases r0) simp_all
  have "\<not> errors_Is e Model_ErrNotFound"
    by (rule pool_exec_not_Is [OF ex [unfolded e]]) (auto simp: sql_FindByLogin_def undefined_operator_def)
  with assms ex e show ?thesis by (auto simp: call_def comp_simps)
qed

lemma find_refused:
  "stays pristine (\<lambda>r. \<exists>e. r = Err e \<and> \<not> errors_Is e Model_ErrNotFound) (timeout_p c (\<lambda>c'. UserRepository_FindByLogin_p U c' l))"
proof -
  have "keeps wf_world (find_attempt U c' l)" for c' by (intro keeps_rules stmt_keeps)
  moreover have "frames db (find_attempt U c' l)" for c'
    by (intro frames_rules frames_case_prod pool_exec_db [where f = "\<lambda>t. t"]) (auto simp: sql_FindByLogin_def)
  ultimately have kp: "keeps pristine (find_attempt U c' l)" for c' by (rule keeps_pristine_read)
  have loop: "stays pristine (\<lambda>r. \<exists>e. r = Err e \<and> \<not> errors_Is e Model_ErrNotFound) (retry_p (find_attempt U c' l) 0)" for c'
    by (rule guarantees_retry_p)
       (rule keepsD' [OF kp], assumption+, erule pristine_Sleep, auto simp: yields_def dest!: find_attempt_refused)
  show ?thesis
    unfolding UserRepository_FindByLogin_p_def
    by (intro guarantees_timeout_p guarantees_call_p [OF loop]) (auto simp: guarantees_simple)
qed

lemma auth_pristine: "safe pristine (Login_p A J U g c lr)" "safe pristine (Register_p A J U g c rr)"
proof -
  show "safe pristine (Login_p A J U g c lr)"
    unfolding Login_p_def Let_def by (intro safe_rules guarantees_call_p [OF find_refused]) (auto simp: safe_simple)
  show "safe pristine (Register_p A J U g c rr)"
    unfolding Register_p_def Let_def by (intro safe_rules guarantees_call_p [OF find_refused]) (auto simp: safe_simple)
qed

lemma metadata_pristine:
  "safe pristine (mp_Delete (NewMetadataRepository_p U) c i)" "safe pristine (mp_ListByUser (NewMetadataRepository_p U) c u)"
proof -
  have "frames (\<lambda>w. fixed_tables (db w)) (delete_attempt U c i)"
    by (intro frames_rules pool_exec_db) (simp add: sql_DeleteMetadata_def split: option.split)
  then show "safe pristine (mp_Delete (NewMetadataRepository_p U) c i)"
    unfolding metadata_p_defs
    by (intro safe_call safe_simple safe_pristine_retry attempts_wf)
  show "safe pristine (mp_ListByUser (NewMetadataRepository_p U) c u)"
    unfolding metadata_p_defs
    by (intro safe_call safe_simple safe_pristine_retry attempts_wf frames_weaken [OF read_attempts(2)])
qed

lemma router_pristine: "safe pristine (op_Delete (router_repo_p (router_New (reposByType P))) c loc)"
  by (simp add: router_p_defs pickByLocator_New invoke_p_def safe_simple)

lemma keeper_pristine:
  "safe pristine (KeeperGRPC_Delete_p (server_service_p U) c dr)" "safe pristine (KeeperGRPC_List_p T (server_service_p U) c)"
  unfolding KeeperGRPC_Delete_p_def Service_Delete_p_def KeeperGRPC_List_p_def Service_List_p_def server_keeper_p.service_parts
  by (intro safe_rules metadata_pristine router_pristine)+

lemma Logout_pristine: "safe pristine (Logout_p c r)"
proof -
  let ?q = "\<lambda>c tok. call (pool_exec c (sql_DeleteToken tok)) (wrapping ''queries.Delete failed'') ret"
  have "keeps wf_world (?q c tok)" for c tok by (intro keeps_rules stmt_keeps)
  moreover have "frames (\<lambda>w. fixed_tables (db w)) (?q c tok)" for c tok
    by (intro frames_rules pool_exec_db) (simp add: sql_DeleteToken_def fixed_tables_def)
  ultimately have "safe pristine (TokenRepository_Delete_p c tok)" for c tok
    unfolding TokenRepository_Delete_p_def by (rule safe_pristine_retry)
  then show ?thesis unfolding Logout_p_def RevokeSession_p_def by (intro safe_rules)
qed

lemma unary_pristine: "\<not> streaming rq \<Longrightarrow> safe pristine (serve_rpc_p A text_of T J U key rq c)"
  by (cases rq)
     (auto intro!: safe_replying Ping_safe keeps_pristine_read keeps_pool_Ping auth_pristine keeper_pristine Logout_pristine)

text \<open>The streaming handlers answer without an action.\<close>

lemma stream_pristine:
  assumes "streaming rq" and "user_value c = None"
  shows "safe I (handle_rpc_p A text_of T J U key md c rq)"
proof -
  have "ctx_UserID c = None" using assms(2) by (simp add: ctx_UserID_def)
  then have "with_user_p c k = fail_p (StatusErr Unauthenticated MsgUserNotAuthenticated)" for k :: "UserID \<Rightarrow> unit prog"
    by (simp add: with_user_p_def)
  then show ?thesis
    using assms(1)
    by (cases rq)
       (auto simp: handle_rpc_p_def KeeperGRPC_Add_p_def KeeperGRPC_Get_p_def KeeperGRPC_Sync_p_def intro!: safe_replying safe_simple)
qed

section \<open>Properties\<close>


text \<open>C10: The database of a freshly migrated server stays as the migrations left it for ever: no calls,
  however they interleave, store a user, a session or an object, because nobody can register or log
  in.\<close>

theorem concurrent_server_stays_empty:
  assumes "db w = migrated" and "open_tx w = None" and "(live_step A text_of T J U key)\<^sup>*\<^sup>* (Live (\<lambda>_. None) w) x"
  shows "db (live_world x) = migrated"
proof -
  have "pristine (live_world x)"
  proof (rule live_invariant_rule [where I = pristine, OF _ _ assms(3)])
    show "safe pristine (handle_rpc_p A text_of T J U key md c rq)" if "user_value c = None" for md c rq
      using that stream_pristine handle_rpc_safe [OF unary_pristine] by (cases "streaming rq") auto
    show "pristine w" using assms(1,2) by (simp add: pristine_def wf_world_def wf_migrated)
  qed (simp add: pristine_def wf_world_def)
  then show ?thesis unfolding pristine_def by (intro empty_tables) (simp_all add: wf_world_def)
qed

text \<open>A call that nobody interrupts goes through the steps of its handler.\<close>

lemma live_run:
  "run p w = (r, w') \<Longrightarrow> (live_step A text_of T J U key)\<^sup>*\<^sup>* (Live (hs(i \<mapsto> p)) w) (Live (hs(i \<mapsto> Done r)) w')"
proof (induction p arbitrary: w)
  case (Act u n)
  have at: "(hs(i \<mapsto> Act u n)) i = Some (Act u n)" by simp
  from live_step.progressed [of "hs(i \<mapsto> Act u n)" i u n, OF at]
  have "live_step A text_of T J U key (Live (hs(i \<mapsto> Act u n)) w) (Live (hs(i \<mapsto> n w)) (u w))" by (simp only: fun_upd_upd)
  moreover from Act.prems have "run (n w) (u w) = (r, w')" by simp
  ultimately show ?case using Act.IH [OF rangeI] by (blast intro: converse_rtranclp_into_rtranclp)
qed simp


text \<open>Two calls, of which the second is half way when the first has not begun to act.\<close>

abbreviation demo_md :: "md option" where
  "demo_md \<equiv> Some (\<lambda>_. [''Bearer x''])"

lemma demo_handler:
  assumes "\<not> streaming rq"
  obtains u n where "handle_rpc_p A text_of T J U key demo_md c rq = Act u n"
  using assms by (simp add: handle_rpc_p_def Interceptor_p_def act_def)

lemma demo_interleaving:
  obtains p q w' where "(live_step A text_of T J U key)\<^sup>*\<^sup>* (Live (\<lambda>_. None) (demo_world [])) (Live [1 \<mapsto> p, 2 \<mapsto> q] w')"
proof -
  let ?step = "live_step A text_of T J U key" and ?c = context_Background and ?w = "demo_world []"
  let ?p = "handle_rpc_p A text_of T J U key demo_md ?c RpcPing" and ?q = "handle_rpc_p A text_of T J U key demo_md ?c (RpcLogin None)"
  have c: "user_value ?c = None" by (simp add: context_Background_def)
  obtain u n where q: "?q = Act u n" by (rule demo_handler [of "RpcLogin None"]) simp_all
  have "?step (Live (\<lambda>_. None) ?w) (Live [1 \<mapsto> ?p] ?w)" by (rule live_step.arrived [OF c]) simp
  moreover have "?step (Live [1 \<mapsto> ?p] ?w) (Live [1 \<mapsto> ?p, 2 \<mapsto> ?q] ?w)" by (rule live_step.arrived [OF c]) simp
  moreover have "?step (Live [1 \<mapsto> ?p, 2 \<mapsto> ?q] ?w) (Live ([1 \<mapsto> ?p, 2 \<mapsto> ?q, 2 \<mapsto> n ?w]) (u ?w))"
    by (rule live_step.progressed [where u = u and n = n]) (simp add: q)
  ultimately have "?step\<^sup>*\<^sup>* (Live (\<lambda>_. None) ?w) (Live ([1 \<mapsto> ?p, 2 \<mapsto> n ?w]) (u ?w))"
    by (simp only: fun_upd_upd)
  then show thesis by (rule that)
qed


theorem concurrent_server_stays_empty_witness:
  "\<exists>p q w'. (live_step demo_argon (\<lambda>_. '''') demo_timestamp demo_jwt demo_uuid ''k'')\<^sup>*\<^sup>* (Live (\<lambda>_. None) (demo_world []))
       (Live [1 \<mapsto> p, 2 \<mapsto> q] w') \<and> db w' = migrated"
proof (rule demo_interleaving)
  fix p q w'
  assume run: "(live_step demo_argon (\<lambda>_. '''') demo_timestamp demo_jwt demo_uuid ''k'')\<^sup>*\<^sup>* (Live (\<lambda>_. None) (demo_world []))
    (Live [1 \<mapsto> p, 2 \<mapsto> q] w')"
  have "db (demo_world []) = migrated" "open_tx (demo_world []) = None" by (simp_all add: demo_world_def)
  from concurrent_server_stays_empty [OF this run] run show ?thesis by auto
qed


end
