(* ===== verification/Session_Doubles.thy ===== *)
theory Session_Doubles
  imports Session
begin

text \<open>
  \<open>src/pkg/session/mock_helpers.go\<close>: the storage double the tests of the sessions run on, and what
  the session manager does on it.

  A double starts with no expectation: calling one of its methods ends the test without returning,
  which is a panic here.  Each \<open>With\<close> function installs one method.  That the expectations are met
  when the test ends, which testify checks as well, is not modelled.
\<close>

definition unexpected_call :: "(world, 'a) comp" where
  "unexpected_call = panic ''mock: unexpected call''"

definition newStorageMock :: RefreshTokenStorage where
  "newStorageMock = \<lparr>rts_Save = (\<lambda>_ _ _ _. unexpected_call), rts_Validate = (\<lambda>_ _ _. unexpected_call),
     rts_Delete = (\<lambda>_ _. unexpected_call)\<rparr>"

definition storageMock_WithSave :: "RefreshTokenStorage \<Rightarrow> RefreshTokenStorage" where
  "storageMock_WithSave b = b\<lparr>rts_Save := (\<lambda>_ tokenHash userID expiresAt.
     if userID = ''save-fail'' then fail (ErrNew ''save error'') else ret ())\<rparr>"

definition storageMock_WithValidate :: "RefreshTokenStorage \<Rightarrow> RefreshTokenStorage" where
  "storageMock_WithValidate b = b\<lparr>rts_Validate := (\<lambda>_ _ userID.
     if userID = ''validate-fail'' then fail (ErrNew ''validate error'') else ret ())\<rparr>"

text \<open>\<open>bytes.Equal\<close>, for which a nil slice is an empty one.\<close>

definition bytes_Equal :: "slice \<Rightarrow> bytes \<Rightarrow> bool" where
  "bytes_Equal s b \<longleftrightarrow> (case s of None \<Rightarrow> [] | Some a \<Rightarrow> a) = b"

definition storageMock_WithDelete :: "RefreshTokenStorage \<Rightarrow> RefreshTokenStorage" where
  "storageMock_WithDelete b = b\<lparr>rts_Delete := (\<lambda>_ tokenHash.
     if bytes_Equal tokenHash (go_bytes ''delete-fail'') then fail (ErrNew ''delete error'') else ret ())\<rparr>"

lemmas storageMock_defs = newStorageMock_def storageMock_WithSave_def storageMock_WithValidate_def
  storageMock_WithDelete_def unexpected_call_def

lemma CreateSession_issued:
  assumes "can_issue J g u w"
  obtains a h where "length h = 32" and "GenerateAccessToken J g u w = (Ok a, w)"
    and "\<And>st c. CreateSession J (NewManager st g) c u w =
      call (with_timeout c (\<lambda>ctxTO. rts_Save st ctxTO (Some h) u (time_AddDays (now w) RefreshTokenExpireDays)))
        (wrapping ''failed to save refresh token'') (\<lambda>_. ret (a, Some h)) (w\<lparr>rnd_pos := Suc (rnd_pos w)\<rparr>)"
proof -
  from assms obtain a where a: "GenerateAccessToken J g u w = (Ok a, w)"
    by (auto simp: can_issue_def is_Ok_iff GenerateAccessToken_eq split: result.splits)
  from assms obtain f where "rnd_src w (rnd_pos w) = Inr f"
    by (cases "rnd_src w (rnd_pos w)") (auto simp: can_issue_def)
  then obtain tok e where t: "GenerateRefreshToken g w = (Ok (tok, e), w\<lparr>rnd_pos := Suc (rnd_pos w)\<rparr>)"
    by (simp add: GenerateRefreshToken_def GenerateRandom_def call_def comp_simps rand_Read_def Let_def)
  then obtain h where h: "tok = Some h" "length h = 32" "e = time_AddDays (now w) RefreshTokenExpireDays"
    by (auto elim: GenerateRefreshToken_Ok)
  show thesis
    by (rule that [OF h(2) a]) (simp add: CreateSession_def NewManager_def call_def comp_simps a t h)
qed

text \<open>The session manager on its storage doubles, for every user, token, context and world in which
  tokens can be issued: creating a session fails exactly for the user whose save fails and otherwise
  returns the signed access token with a 32-byte refresh token; a refresh fails exactly for that user
  and for the token whose deletion fails, and then nothing is saved; validation and revocation fail
  exactly where the storage does.  These are the cases of the package's tests.\<close>

theorem session_on_doubles:
  fixes g :: Generator
  assumes "can_issue J g u w"
  defines "m st \<equiv> NewManager st g"
  shows "(case fst (CreateSession J (m (storageMock_WithSave newStorageMock)) c u w) of
        Ok (a, r) \<Rightarrow> u \<noteq> ''save-fail'' \<and> GenerateAccessToken J g u w = (Ok a, w) \<and> (\<exists>h. r = Some h \<and> length h = 32)
      | Err _ \<Rightarrow> u = ''save-fail'' | _ \<Rightarrow> False) \<and>
    (case fst (RefreshSession J (m (storageMock_WithSave (storageMock_WithDelete newStorageMock))) c u old w) of
        Ok (a, r) \<Rightarrow> u \<noteq> ''save-fail'' \<and> \<not> bytes_Equal old (go_bytes ''delete-fail'') \<and> (\<exists>h. r = Some h \<and> length h = 32)
      | Err _ \<Rightarrow> u = ''save-fail'' \<or> bytes_Equal old (go_bytes ''delete-fail'') | _ \<Rightarrow> False) \<and>
    is_Panic (fst (RefreshSession J (m (storageMock_WithDelete newStorageMock)) c u old w)) =
      (\<not> bytes_Equal old (go_bytes ''delete-fail'')) \<and>
    is_Ok (fst (ValidateRefreshToken (m (storageMock_WithValidate newStorageMock)) c old u w)) = (u \<noteq> ''validate-fail'') \<and>
    is_Ok (fst (RevokeSession (m (storageMock_WithDelete newStorageMock)) c old w)) =
      (\<not> bytes_Equal old (go_bytes ''delete-fail''))"
proof -
  from assms(1) obtain a h where h: "length h = 32" and a: "GenerateAccessToken J g u w = (Ok a, w)"
    and cs: "\<And>st c. CreateSession J (NewManager st g) c u w =
      call (with_timeout c (\<lambda>ctxTO. rts_Save st ctxTO (Some h) u (time_AddDays (now w) RefreshTokenExpireDays)))
        (wrapping ''failed to save refresh token'') (\<lambda>_. ret (a, Some h)) (w\<lparr>rnd_pos := Suc (rnd_pos w)\<rparr>)"
    by (rule CreateSession_issued) blast
  have st: "storage (NewManager st g) = st" for st by (simp add: NewManager_def)
  have create: "fst (CreateSession J (NewManager (storageMock_WithSave st) g) c u w) =
      (if u = ''save-fail'' then Err (Wrap ''failed to save refresh token'' (ErrNew ''save error'')) else Ok (a, Some h))" for st
    unfolding cs by (simp add: storageMock_WithSave_def call_def comp_simps with_timeout_def)
  have refresh: "fst (RefreshSession J (NewManager st g) c u old w) =
      (if bytes_Equal old (go_bytes ''delete-fail'') then Err (Wrap ''failed to revoke old refresh token'' (ErrNew ''delete error''))
       else fst (call (CreateSession J (NewManager st g) c u) (wrapping ''failed to create new session'') ret w))"
    if "rts_Delete st = rts_Delete (storageMock_WithDelete newStorageMock)" for st
    unfolding RefreshSession_def st that by (simp add: storageMock_WithDelete_def call_def comp_simps with_timeout_def)
  have unsaved: "is_Panic (fst (CreateSession J (NewManager (storageMock_WithDelete newStorageMock) g) c u w))"
    unfolding cs by (simp add: storageMock_defs call_def comp_simps with_timeout_def)
  have pass: "fst (call (CreateSession J n c u) (wrapping s) ret w) =
      (case fst (CreateSession J n c u w) of Err e \<Rightarrow> Err (Wrap s e) | r \<Rightarrow> r)" for n s
    by (simp add: call_def comp_simps split: prod.split result.split)
  have del: "rts_Delete (storageMock_WithSave st) = rts_Delete st" for st by (simp add: storageMock_WithSave_def)
  have panics: "is_Panic (fst (RefreshSession J (NewManager (storageMock_WithDelete newStorageMock) g) c u old w)) =
      (\<not> bytes_Equal old (go_bytes ''delete-fail''))"
    using unsaved by (auto simp: refresh pass is_Panic_iff)
  have "is_Ok (fst (ValidateRefreshToken (NewManager (storageMock_WithValidate newStorageMock) g) c old u w)) =
      (u \<noteq> ''validate-fail'')"
    and "is_Ok (fst (RevokeSession (NewManager (storageMock_WithDelete newStorageMock) g) c old w)) =
      (\<not> bytes_Equal old (go_bytes ''delete-fail''))"
    by (simp_all add: ValidateRefreshToken_def RevokeSession_def st storageMock_defs call_def comp_simps with_timeout_def)
  with h a panics show ?thesis unfolding m_def by (simp add: create refresh del pass)
qed

lemma demo_can_issue: "can_issue demo_jwt (NewGenerator [1]) ''user-1'' demo_user_world"
  by (simp add: can_issue_def GenerateAccessToken_eq demo_jwt_def Let_def demo_user_world_def demo_world_def)

theorem session_on_doubles_witness:
  "is_Ok (fst (RefreshSession demo_jwt (NewManager (storageMock_WithSave (storageMock_WithDelete newStorageMock))
     (NewGenerator [1])) context_Background ''user-1'' (Some (go_bytes ''old-token'')) demo_user_world))"
  using session_on_doubles [OF demo_can_issue, where c = context_Background and old = "Some (go_bytes ''old-token'')"]
  by (auto simp: bytes_Equal_def go_bytes_def is_Ok_iff split: result.splits)

end
