(* ===== verification/Auth_Doubles.thy ===== *)
theory Auth_Doubles
  imports Auth_Service Session_Doubles
begin

text \<open>
  The doubles of the authentication tests, from \<open>src/internal/api/v1/mock_helpers.go\<close> and
  \<open>test-helpers.go\<close>, and what \<open>Login\<close>, \<open>Logout\<close> and \<open>Register\<close> answer on them.  The user repository
  double decides by comparing the keyed hash of the login with the hashes of fixed logins, in the
  order of the code; the lemmas give the answer for every login by the same comparisons.
\<close>

section \<open>Fixtures\<close>

definition keyDBFail :: string where "keyDBFail = ''db-fail''"
definition keyDummyUserID :: UserID where "keyDummyUserID = ''dummy-user-id''"
definition dummySecret :: string where "dummySecret = ''secret''"
definition keySessionFail :: string where "keySessionFail = ''session-fail''"

definition fixtureLoginDBFail :: bytes where
  "fixtureLoginDBFail = GenerateHMAC (go_bytes keyDBFail) (go_bytes dummySecret)"
definition fixtureLoginNewUser :: bytes where
  "fixtureLoginNewUser = GenerateHMAC (go_bytes ''new-user'') (go_bytes dummySecret)"
definition fixtureLoginNotFound :: bytes where
  "fixtureLoginNotFound = GenerateHMAC (go_bytes ''not-found'') (go_bytes dummySecret)"
definition fixtureLoginCreateFailed :: bytes where
  "fixtureLoginCreateFailed = GenerateHMAC (go_bytes ''create-fail'') (go_bytes dummySecret)"
definition fixtureLoginSessionFail :: bytes where
  "fixtureLoginSessionFail = GenerateHMAC (go_bytes keySessionFail) (go_bytes dummySecret)"
definition fixtureLoginSessionFailRegister :: bytes where
  "fixtureLoginSessionFailRegister = GenerateHMAC (go_bytes ''session-fail-register'') (go_bytes dummySecret)"
definition fixtureLoginAlreadyExists :: bytes where
  "fixtureLoginAlreadyExists = GenerateHMAC (go_bytes ''already-exists'') (go_bytes dummySecret)"

definition fixturePasswordHash :: "argon2_lib \<Rightarrow> bytes result" where
  "fixturePasswordHash A = argon2_IDKey A (go_bytes ''very-long-dummy-bytes'') (go_bytes ''salt'')
     TimeCost MemoryCost Threads Len"

text \<open>The string of the tests has the costs in the order \<open>GeneratePHC\<close> declares, unlike the strings
  \<open>GenerateFromPassword\<close> prints.  Its value is needed only when the hash could be computed: a panic
  there ends the test binary.\<close>

definition fixturePHC :: "argon2_lib \<Rightarrow> string" where
  "fixturePHC A = (case fixturePasswordHash A of
      Ok h \<Rightarrow> GeneratePHC h (go_bytes ''salt'') (AlgVersion A) TimeCost MemoryCost Threads
    | _ \<Rightarrow> '''')"

section \<open>The user repository double\<close>

definition newRepoMock :: UserRepository where
  "newRepoMock = \<lparr>ur_Create = (\<lambda>_ _. unexpected_call), ur_FindByLogin = (\<lambda>_ _. unexpected_call),
     ur_Delete = (\<lambda>_ _. unexpected_call)\<rparr>"

definition repoMock_WithFindByLogin :: "argon2_lib \<Rightarrow> UserRepository \<Rightarrow> UserRepository" where
  "repoMock_WithFindByLogin A b = b\<lparr>ur_FindByLogin := (\<lambda>_ loginHash.
     if loginHash = fixtureLoginDBFail then fail (ErrNew ''db error'')
     else if loginHash \<in> {fixtureLoginNewUser, fixtureLoginNotFound, fixtureLoginCreateFailed}
     then fail (Sentinel Model_ErrNotFound)
     else if loginHash = fixtureLoginAlreadyExists then ret ('''', \<lparr>PasswordPHC = '''', LoginHash = []\<rparr>)
     else if loginHash = fixtureLoginSessionFail
     then ret (keySessionFail, \<lparr>PasswordPHC = fixturePHC A, LoginHash = loginHash\<rparr>)
     else if loginHash = fixtureLoginSessionFailRegister then fail (Sentinel Model_ErrNotFound)
     else ret (keyDummyUserID, \<lparr>PasswordPHC = fixturePHC A, LoginHash = loginHash\<rparr>))\<rparr>"

text \<open>\<open>model.UserID(u.LoginHash)\<close>: the bytes as a string.\<close>

definition go_string :: "bytes \<Rightarrow> string" where
  "go_string bs = map (\<lambda>b. char_of (unat b)) bs"

definition repoMock_WithCreate :: "UserRepository \<Rightarrow> UserRepository" where
  "repoMock_WithCreate b = b\<lparr>ur_Create := (\<lambda>c u.
     if LoginHash u = fixtureLoginCreateFailed then fail (ErrNew ''user create failed'')
     else if LoginHash u = fixtureLoginSessionFailRegister then ret keySessionFail
     else ret (go_string (LoginHash u)))\<rparr>"

definition repoMock_WithDelete :: "UserRepository \<Rightarrow> UserRepository" where
  "repoMock_WithDelete b = b\<lparr>ur_Delete := (\<lambda>_ uuid.
     if uuid = keyDBFail then fail (ErrNew ''db error'')
     else if uuid = ''not-found'' then fail (Sentinel Model_ErrNotFound)
     else ret ())\<rparr>"

section \<open>The session manager double\<close>

definition newSessionMock :: SessionManager where
  "newSessionMock = \<lparr>sm_CreateSession = (\<lambda>_ _. unexpected_call), sm_RefreshSession = (\<lambda>_ _ _. unexpected_call),
     sm_ValidateAccessToken = (\<lambda>_ _. unexpected_call), sm_RevokeSession = (\<lambda>_ _. unexpected_call)\<rparr>"

definition sessionMock_WithCreateSession :: "SessionManager \<Rightarrow> SessionManager" where
  "sessionMock_WithCreateSession s = s\<lparr>sm_CreateSession := (\<lambda>_ userID.
     if userID = keyDummyUserID then ret (''valid-jwt'', Some (go_bytes ''valid-refresh''))
     else if userID = keySessionFail then fail (ErrNew ''create session error'')
     else ret (''valid-jwt'', Some (go_bytes ''valid-refresh'')))\<rparr>"

definition sessionMock_WithRevokeSession :: "SessionManager \<Rightarrow> SessionManager" where
  "sessionMock_WithRevokeSession s = s\<lparr>sm_RevokeSession := (\<lambda>_ refreshToken.
     if bytes_Equal refreshToken (go_bytes ''revoke-fail'') then fail (ErrNew ''revoke failed'') else ret ())\<rparr>"

section \<open>The service on its doubles\<close>

definition mock_auth :: "argon2_lib \<Rightarrow> AuthService" where
  "mock_auth A = \<lparr>as_repo = repoMock_WithFindByLogin A (repoMock_WithCreate newRepoMock),
     as_sessionManager = sessionMock_WithRevokeSession (sessionMock_WithCreateSession newSessionMock),
     as_secret = go_bytes dummySecret\<rparr>"

text \<open>What Argon2 promises for the parameters of the fixture.\<close>

definition argon_answers :: "argon2_lib \<Rightarrow> bool" where
  "argon_answers A \<longleftrightarrow> (\<forall>p. \<exists>k. argon2_IDKey A p (go_bytes ''salt'') TimeCost MemoryCost Threads Len = Ok k \<and> length k = 32)"

definition fixture_matches :: "argon2_lib \<Rightarrow> bytes \<Rightarrow> bool" where
  "fixture_matches A p \<longleftrightarrow>
     argon2_IDKey A p (go_bytes ''salt'') TimeCost MemoryCost Threads Len = fixturePasswordHash A"

lemma fixture_accepts:
  assumes "argon_answers A"
  shows "CompareHashAndPassword A (fixturePHC A) p =
    (if fixture_matches A p then Ok () else Err (ErrNew ''password is incorrect''))"
proof -
  from assms obtain h where h: "fixturePasswordHash A = Ok h" "length h = 32"
    by (auto simp: argon_answers_def fixturePasswordHash_def)
  from assms obtain k where k: "argon2_IDKey A p (go_bytes ''salt'') TimeCost MemoryCost Threads Len = Ok k"
    by (auto simp: argon_answers_def)
  show ?thesis
    using k by (simp add: fixturePHC_def h fixture_matches_def Compare_GeneratePHC_lemma Len_def)
qed

lemma Compare_empty: "CompareHashAndPassword A '''' p = Panic ''index out of range''"
  by (simp add: CompareHashAndPassword_def index_def)

abbreviation mock_tokens :: Tokens where
  "mock_tokens \<equiv> mk_Tokens ''valid-jwt'' (Some (go_bytes ''valid-refresh''))"

lemmas authMock_simps = mock_auth_def repoMock_WithFindByLogin_def repoMock_WithCreate_def newRepoMock_def
  newSessionMock_def sessionMock_WithCreateSession_def sessionMock_WithRevokeSession_def unexpected_call_def

text \<open>The row of the table for a login is picked by its keyed hash.  A login whose account has an empty
  password string makes \<open>Login\<close> panic in \<open>CompareHashAndPassword\<close>.\<close>

lemma login_on_doubles:
  assumes "argon_answers A" and "credentials (LoginRequest_GetAuthData r) = Some (l, p)"
  shows "fst (Login A (mock_auth A) c r w) =
    (let h = GenerateHMAC l (go_bytes dummySecret) in
     if h \<in> {fixtureLoginDBFail, fixtureLoginNewUser, fixtureLoginNotFound, fixtureLoginCreateFailed}
     then Err (StatusErr Unauthenticated ''failed to find user'')
     else if h = fixtureLoginAlreadyExists then Panic ''index out of range''
     else if h = fixtureLoginSessionFail
     then Err (if fixture_matches A p then StatusErr Internal ''failed to create session''
               else StatusErr Unauthenticated ''password format is wrong'')
     else if h = fixtureLoginSessionFailRegister then Err (StatusErr Unauthenticated ''failed to find user'')
     else if fixture_matches A p then Ok \<lparr>loginresp_Tokens = Some mock_tokens\<rparr>
     else Err (StatusErr Unauthenticated ''password format is wrong''))"
  unfolding Login_valid [OF assms(2)] Let_def
  by (simp add: authMock_simps keySessionFail_def keyDummyUserID_def fixture_accepts [OF assms(1)] Compare_empty call_def
      comp_simps with_timeout_def)

lemma logout_on_doubles:
  "fst (Logout (mock_auth A) c (Some \<lparr>logout_RefreshToken = t\<rparr>) w) =
    (case t of None \<Rightarrow> Err (StatusErr InvalidArgument ''request validation failed'')
     | Some x \<Rightarrow> if bytes_Equal (rt_RefreshToken x) (go_bytes ''revoke-fail'') then Err (StatusErr Internal ''logout failed'')
                 else Ok ())"
  by (cases t) (simp_all add: Logout_def LogoutRequest_GetRefreshToken_def RefreshToken_GetRefreshToken_def authMock_simps
      call_def comp_simps with_timeout_def)

lemma keys_differ: "keySessionFail \<noteq> keyDummyUserID"
  by (simp add: keySessionFail_def keyDummyUserID_def)

lemma digest_is_no_key: "go_string (GenerateHMAC l k) \<noteq> keySessionFail" "go_string (GenerateHMAC l k) \<noteq> keyDummyUserID"
proof -
  have "length (go_string (GenerateHMAC l k)) = 32" by (simp add: go_string_def GenerateHMAC_def length_hmac_Sum)
  then show "go_string (GenerateHMAC l k) \<noteq> keySessionFail" "go_string (GenerateHMAC l k) \<noteq> keyDummyUserID"
    by (auto simp: keySessionFail_def keyDummyUserID_def)
qed

lemma register_on_doubles:
  assumes "credentials (RegisterRequest_GetAuthData r) = Some (l, p)" and "is_Ok (fst (GenerateFromPassword A p w))"
  shows "fst (Register A (mock_auth A) c r w) =
    (let h = GenerateHMAC l (go_bytes dummySecret) in
     if h = fixtureLoginDBFail then Err (StatusErr Internal msgRegistrationFailed)
     else if h \<in> {fixtureLoginNewUser, fixtureLoginNotFound, fixtureLoginCreateFailed} \<or>
             h = fixtureLoginSessionFailRegister \<and> h \<notin> {fixtureLoginAlreadyExists, fixtureLoginSessionFail}
     then (if h \<in> {fixtureLoginCreateFailed, fixtureLoginSessionFailRegister}
           then Err (StatusErr Internal msgRegistrationFailed) else Ok \<lparr>registerresp_Tokens = Some mock_tokens\<rparr>)
     else Err (StatusErr AlreadyExists ''the username is already taken''))"
proof -
  obtain phc w1 where phc: "GenerateFromPassword A p w = (Ok phc, w1)"
    using assms(2) by (cases "GenerateFromPassword A p w") (auto simp: is_Ok_iff)
  define h where "h = GenerateHMAC l (go_bytes dummySecret)"
  have no: "go_string h \<noteq> keySessionFail" "go_string h \<noteq> keyDummyUserID" by (simp_all add: h_def digest_is_no_key)
  have new: "fst (register_new A (mock_auth A) c l p w) =
      (if h \<in> {fixtureLoginCreateFailed, fixtureLoginSessionFailRegister}
       then Err (StatusErr Internal msgRegistrationFailed) else Ok \<lparr>registerresp_Tokens = Some mock_tokens\<rparr>)"
    by (simp add: register_new_def phc h_def [symmetric] authMock_simps no keys_differ call_def comp_simps with_timeout_def)
  show ?thesis
    unfolding Register_valid [OF assms(1)] Let_def h_def [symmetric]
    using new by (simp add: mock_auth_def repoMock_WithFindByLogin_def h_def [symmetric] call_def comp_simps with_timeout_def)
qed

end
