(* ===== verification/Keeper_Doubles.thy ===== *)
theory Keeper_Doubles
  imports Keeper Session_Doubles
begin

text \<open>
  \<open>src/internal/service/server/keeper/mock_helpers.go\<close>: the repository doubles of the use case's
  tests, and the tables of \<open>keeper_test.go\<close> themselves, which the model passes in every world.  The
  last section shows in which respect the doubles differ from the repositories they stand for.
\<close>

definition dummyDataID :: DataID where
  "dummyDataID = ''dummyDataID''"

definition dummyError :: string where
  "dummyError = ''error''"

section \<open>Fake readers and callbacks\<close>

text \<open>\<open>io.ReadAll\<close> on a reader whose first \<open>Read\<close> returns no byte and the error \<open>e\<close>.\<close>

definition ReadAll_ending :: "goerr \<Rightarrow> (world, bytes) comp" where
  "ReadAll_ending e = (if e = Sentinel Io_EOF then ret [] else fail e)"

definition fakeOKReadCloser :: ReadCloser where
  "fakeOKReadCloser = \<lparr>rc_ReadAll = ReadAll_ending (Sentinel Io_EOF), rc_Close = None\<rparr>"

definition fakeReadErrorReadCloser :: ReadCloser where
  "fakeReadErrorReadCloser = \<lparr>rc_ReadAll = ReadAll_ending (ErrNew ''dummy read error''), rc_Close = None\<rparr>"

definition fakeCloseErrorReadCloser :: ReadCloser where
  "fakeCloseErrorReadCloser =
     \<lparr>rc_ReadAll = ReadAll_ending (Sentinel Io_EOF), rc_Close = Some (ErrNew ''dummy close error'')\<rparr>"

definition fakeOKCallback :: StreamCallback where
  "fakeOKCallback _ _ = ret ()"

definition fakeErrorCallback :: StreamCallback where
  "fakeErrorCallback _ _ = fail (ErrNew ''callback error'')"

section \<open>The object repository double\<close>

definition newObjectRepoMock :: ObjectRepo where
  "newObjectRepoMock = \<lparr>or_Put = (\<lambda>_ _ _ _ _. unexpected_call), or_Get = (\<lambda>_ _. unexpected_call),
     or_Delete = (\<lambda>_ _. unexpected_call)\<rparr>"

definition objectRepoMock_WithPut :: "ObjectRepo \<Rightarrow> ObjectRepo" where
  "objectRepoMock_WithPut b = b\<lparr>or_Put := (\<lambda>c meta r sz sha256.
     if MetaUserID meta = ''put-error-user'' then fail (ErrNew ''error1'')
     else if MetaUserID meta = ''create-and-delete-error-user'' then ret ''locator://break/object/repo''
     else ret ''dummy/locator'')\<rparr>"

definition objectRepoMock_WithDelete :: "ObjectRepo \<Rightarrow> ObjectRepo" where
  "objectRepoMock_WithDelete b = b\<lparr>or_Delete := (\<lambda>c loc.
     if loc = ''locator://break/object/repo'' then fail (ErrNew ''error2'') else ret ())\<rparr>"

definition objectRepoMock_WithGet :: "ObjectRepo \<Rightarrow> ObjectRepo" where
  "objectRepoMock_WithGet b = b\<lparr>or_Get := (\<lambda>c loc.
     if loc = ''brake://read/closer/read'' then ret fakeReadErrorReadCloser
     else if loc = ''brake://read/closer/close'' then ret fakeCloseErrorReadCloser
     else if loc = ''locator://error'' then fail (ErrNew dummyError)
     else ret fakeOKReadCloser)\<rparr>"

section \<open>The metadata repository double\<close>

definition newMetadataRepoMock :: MetadataRepo where
  "newMetadataRepoMock = \<lparr>mdr_Put = (\<lambda>_ _ _. unexpected_call), mdr_Get = (\<lambda>_ _. unexpected_call),
     mdr_ListByUser = (\<lambda>_ _. unexpected_call), mdr_Delete = (\<lambda>_ _. unexpected_call)\<rparr>"

definition metadataRepoMock_WithCreate :: "MetadataRepo \<Rightarrow> MetadataRepo" where
  "metadataRepoMock_WithCreate b = b\<lparr>mdr_Put := (\<lambda>c meta loc.
     if MetaUserID meta \<in> {''create-error-user'', ''create-and-delete-error-user''} then fail (ErrNew ''error3'')
     else ret dummyDataID)\<rparr>"

definition metadataRepoMock_WithDelete :: "MetadataRepo \<Rightarrow> MetadataRepo" where
  "metadataRepoMock_WithDelete b = b\<lparr>mdr_Delete := (\<lambda>c i.
     if i = ''break-metadataRepo'' then fail (ErrNew dummyError)
     else if i = ''break-objectRepo'' then ret ''locator://break/object/repo''
     else ret ''locator://dummy'')\<rparr>"

text \<open>\<open>model.Metadata{}\<close>.\<close>

definition empty_Metadata :: Metadata where
  "empty_Metadata = \<lparr>CreatedAt = zero_time, ChunkDesc = None, Description = '''', Name = '''', MetaUserID = '''',
     MetaDataType = '''', ID = ''''\<rparr>"

definition metadataRepoMock_WithGet :: "MetadataRepo \<Rightarrow> MetadataRepo" where
  "metadataRepoMock_WithGet b = b\<lparr>mdr_Get := (\<lambda>c i.
     if i = ''metadata-repo-error-user'' then fail (ErrNew dummyError)
     else ret (empty_Metadata\<lparr>ID := i\<rparr>,
       (if i = ''brake-object-repo-get'' then ''locator://error''
        else if i = ''brake-read'' then ''brake://read/closer/read''
        else if i = ''brake-close'' then ''brake://read/closer/close''
        else ''locator://ok'')))\<rparr>"

definition metadataRepoMock_WithListByUser :: "MetadataRepo \<Rightarrow> MetadataRepo" where
  "metadataRepoMock_WithListByUser b = b\<lparr>mdr_ListByUser := (\<lambda>c userID.
     if userID = ''ok-user''
     then ret [\<lparr>Locator = '''', Meta = empty_Metadata\<rparr>, \<lparr>Locator = '''', Meta = empty_Metadata\<rparr>]
     else if userID = ''brake-object-repo-get'' then ret [\<lparr>Locator = ''locator://error'', Meta = empty_Metadata\<rparr>]
     else fail (ErrNew dummyError))\<rparr>"

lemmas keeperMock_defs = newObjectRepoMock_def objectRepoMock_WithPut_def objectRepoMock_WithDelete_def
  objectRepoMock_WithGet_def newMetadataRepoMock_def metadataRepoMock_WithCreate_def metadataRepoMock_WithDelete_def
  metadataRepoMock_WithGet_def metadataRepoMock_WithListByUser_def unexpected_call_def fakeOKCallback_def
  fakeErrorCallback_def fakeOKReadCloser_def fakeReadErrorReadCloser_def fakeCloseErrorReadCloser_def ReadAll_ending_def

section \<open>The tables of the tests\<close>

abbreviation "bothMocks ob md \<equiv> NewService (ob newObjectRepoMock) (md newMetadataRepoMock)"

text \<open>A row is the service under test, the arguments, and the expectation: \<open>None\<close> for an error, the
  expected value otherwise.  The nil and the empty slice of two rows of the first table are both empty
  here; the nil object repository of \<open>TestService_List\<close> is a double without expectations.\<close>

fun meets :: "'a option \<Rightarrow> 'a result \<Rightarrow> bool" where
  "meets None r = (case r of Err _ \<Rightarrow> True | _ \<Rightarrow> False)"
| "meets (Some x) r = (r = Ok x)"

definition test_meta :: "time \<Rightarrow> DataType \<Rightarrow> Metadata option" where
  "test_meta t dt = Some (empty_Metadata\<lparr>CreatedAt := t, Name := ''data1'', Description := ''some data'', MetaDataType := dt\<rparr>)"

definition AddSealed_tests ::
  "time \<Rightarrow> (Service \<times> UserID \<times> Metadata option \<times> bytes \<times> DataID option) list" where
  "AddSealed_tests t =
     (let bytes = go_bytes ''some secret bytes''; meta = test_meta t DataTypeBinary in
     [(bothMocks id id, '''', None, [], None),
      (bothMocks id id, ''user1'', None, [], None),
      (bothMocks id id, ''user1'', meta, [], None),
      (bothMocks id id, ''user1'', meta, [], None),
      (bothMocks id id, ''user1'', test_meta t DataTypeUnspecified, bytes, None),
      (bothMocks objectRepoMock_WithPut id, ''put-error-user'', meta, bytes, None),
      (bothMocks (objectRepoMock_WithDelete \<circ> objectRepoMock_WithPut) metadataRepoMock_WithCreate,
         ''create-error-user'', meta, bytes, None),
      (bothMocks (objectRepoMock_WithDelete \<circ> objectRepoMock_WithPut) metadataRepoMock_WithCreate,
         ''create-and-delete-error-user'', meta, bytes, None),
      (bothMocks objectRepoMock_WithPut metadataRepoMock_WithCreate, ''user1'', meta, bytes, Some dummyDataID)])"

text \<open>A nil callback panics when it is called.\<close>

abbreviation nil_callback :: StreamCallback where
  "nil_callback \<equiv> \<lambda>_ _. panic nil_deref"

definition GetSealed_tests :: "(Service \<times> DataID \<times> StreamCallback \<times> unit option) list" where
  "GetSealed_tests =
     (let both = bothMocks objectRepoMock_WithGet metadataRepoMock_WithGet in
     [(bothMocks id id, '''', nil_callback, None),
      (bothMocks id metadataRepoMock_WithGet, ''metadata-repo-error-user'', nil_callback, None),
      (both, ''brake-object-repo-get'', nil_callback, None),
      (both, ''brake-read'', nil_callback, None),
      (both, ''brake-close'', nil_callback, None),
      (both, ''user-ok'', fakeErrorCallback, None),
      (both, ''user-ok'', fakeOKCallback, Some ())])"

definition List_tests :: "(Service \<times> UserID \<times> bool) list" where
  "List_tests =
     [(bothMocks id id, '''', False),
      (bothMocks id metadataRepoMock_WithListByUser, ''brake-repo-user'', False),
      (bothMocks id metadataRepoMock_WithListByUser, ''ok-user'', True)]"

definition Delete_tests :: "(Service \<times> DataID \<times> unit option) list" where
  "Delete_tests =
     [(bothMocks id id, '''', None),
      (bothMocks id metadataRepoMock_WithDelete, ''break-metadataRepo'', None),
      (bothMocks objectRepoMock_WithDelete metadataRepoMock_WithDelete, ''break-objectRepo'', None),
      (bothMocks objectRepoMock_WithDelete metadataRepoMock_WithDelete, ''ok-user'', Some ())]"

definition Sync_tests :: "(Service \<times> UserID \<times> SyncMode \<times> StreamCallback \<times> unit option) list" where
  "Sync_tests =
     (let both = bothMocks objectRepoMock_WithGet metadataRepoMock_WithListByUser;
          meta = bothMocks id metadataRepoMock_WithListByUser in
     [(bothMocks id id, '''', 0, nil_callback, None),
      (meta, ''brake-repo-user'', 0, nil_callback, None),
      (both, ''brake-object-repo-get'', SyncModeShort, nil_callback, None),
      (meta, ''ok-user'', 0, fakeOKCallback, None),
      (both, ''ok-user'', SyncModeShort, fakeErrorCallback, None),
      (meta, ''ok-user'', SyncModeFull, fakeOKCallback, None),
      (both, ''ok-user'', SyncModeShort, fakeOKCallback, Some ())])"

section \<open>The service passes its tests\<close>

lemmas test_simps = NewService_def keeperMock_defs call_def comp_simps with_timeout_def

lemma bytes_NewReader_Ok: "\<exists>r w'. bytes_NewReader bs w = (Ok r, w')"
  by (simp add: bytes_NewReader_def)

lemma AddSealed_tests_pass:
  "list_all (\<lambda>(s, u, m, bs, want). meets want (fst (AddSealed s context_Background u m bs w))) (AddSealed_tests t)"
proof -
  obtain r v where "bytes_NewReader (go_bytes ''some secret bytes'') w = (Ok r, v)" using bytes_NewReader_Ok by blast
  moreover have "go_bytes ''some secret bytes'' \<noteq> []" by (simp add: go_bytes_def)
  moreover have "DataTypeUnspecified \<notin> {DataTypeAuthenticationCredentials, DataTypeCard, DataTypeBinary}"
    by (simp add: DataTypeUnspecified_def DataTypeAuthenticationCredentials_def DataTypeCard_def DataTypeBinary_def)
  ultimately show ?thesis
    by (simp add: AddSealed_tests_def Let_def AddSealed_def undo_put_def test_meta_def test_simps)
qed

lemma GetSealed_tests_pass:
  "list_all (\<lambda>(s, i, cb, want). meets want (fst (GetSealed s context_Background i cb w))) GetSealed_tests"
  by (simp add: GetSealed_tests_def Let_def GetSealed_def getSealedHelper_def ret_join_def errors_Join_def
      map_filter_simps test_simps)

lemma List_tests_pass:
  "list_all (\<lambda>(s, u, nonempty). case fst (Service_List s context_Background u w) of
     Ok ls \<Rightarrow> nonempty \<and> ls \<noteq> [] | Err _ \<Rightarrow> \<not> nonempty | _ \<Rightarrow> False) List_tests"
  by (simp add: List_tests_def Service_List_def test_simps)

lemma Delete_tests_pass:
  "list_all (\<lambda>(s, i, want). meets want (fst (Service_Delete s context_Background i w))) Delete_tests"
  by (simp add: Delete_tests_def Service_Delete_def test_simps)

lemma Sync_tests_pass:
  "list_all (\<lambda>(s, u, mode, cb, want). meets want (fst (Service_Sync s context_Background u mode cb w))) Sync_tests"
  by (simp add: Sync_tests_def Let_def Service_Sync_def getSealedHelper_def ret_join_def errors_Join_def
      map_filter_simps SyncModeShort_def SyncModeFull_def test_simps)

text \<open>Every row of the tables of \<open>keeper_test.go\<close> holds of the use case on its doubles, in every world
  and at every time: the errors expected are returned, with the doubles that must not be called left
  alone, and the values expected are returned otherwise.\<close>

theorem keeper_tests_pass:
  "list_all (\<lambda>(s, u, m, bs, want). meets want (fst (AddSealed s context_Background u m bs w))) (AddSealed_tests t) \<and>
   list_all (\<lambda>(s, i, cb, want). meets want (fst (GetSealed s context_Background i cb w))) GetSealed_tests \<and>
   list_all (\<lambda>(s, u, nonempty). case fst (Service_List s context_Background u w) of
     Ok ls \<Rightarrow> nonempty \<and> ls \<noteq> [] | Err _ \<Rightarrow> \<not> nonempty | _ \<Rightarrow> False) List_tests \<and>
   list_all (\<lambda>(s, i, want). meets want (fst (Service_Delete s context_Background i w))) Delete_tests \<and>
   list_all (\<lambda>(s, u, mode, cb, want). meets want (fst (Service_Sync s context_Background u mode cb w))) Sync_tests"
  by (intro conjI AddSealed_tests_pass GetSealed_tests_pass List_tests_pass Delete_tests_pass Sync_tests_pass)

section \<open>Where the doubles differ from the repositories\<close>

text \<open>The locators the object double hands out belong to no storage of the router, so that the tests of
  the compensation and of \<open>Delete\<close> never show what the router does with a locator that was stored.\<close>

lemma double_locator_unknown:
  assumes "or_Put (objectRepoMock_WithPut b) c m r sz sha w = (Ok loc, w')"
  shows "\<exists>e. pickByLocator s loc = Err e"
  using assms
  by (auto simp: objectRepoMock_WithPut_def comp_simps pickByLocator_def strings_HasPrefix_def split: if_splits)

lemma double_is_no_object_repo: "\<not> object_repo (objectRepoMock_WithPut b) data"
proof
  assume "object_repo (objectRepoMock_WithPut b) data"
  moreover have "or_Put (objectRepoMock_WithPut b) context_Background empty_Metadata 0 0 [] w = (Ok ''dummy/locator'', w)"
    for w by (simp add: objectRepoMock_WithPut_def empty_Metadata_def comp_simps)
  ultimately have "strings_HasPrefix ''dummy/locator'' ''pg''" by (rule object_repo.put_locator)
  then show False by (simp add: strings_HasPrefix_def)
qed

end
