(* ===== verification/Keeper_Service_Doubles.thy ===== *)
theory Keeper_Service_Doubles
  imports Keeper_Service Keeper_Doubles
begin

text \<open>
  The doubles of the tests of the keeper's gRPC handlers, from \<open>src/internal/api/v1/mock_helpers.go\<close> and
  \<open>test-helpers.go\<close>: the use case double, the fake streams, and the tables of \<open>keeper_service_test.go\<close>,
  which the model passes.
\<close>

definition msgExpectedError :: string where "msgExpectedError = ''expected error''"
definition dummyID :: DataID where "dummyID = ''dummyUUID''"

section \<open>Fake streams\<close>

text \<open>The stream of \<open>Add\<close>.  A nil list of requests makes \<open>Recv\<close> fail; the response is an empty
  message.\<close>

record fakeAddStream =
  fas_ctx :: ctx
  fas_resp :: "unit option"
  fas_reqs :: "AddRequest list option"
  fas_i :: nat
  fas_sentClose :: bool

definition newFakeAddStream :: "ctx \<Rightarrow> AddRequest list option \<Rightarrow> fakeAddStream" where
  "newFakeAddStream c reqs = \<lparr>fas_ctx = c, fas_resp = None, fas_reqs = reqs, fas_i = 0, fas_sentClose = False\<rparr>"

definition fakeAddStream_Recv :: "fakeAddStream \<Rightarrow> (goerr + AddRequest) \<times> fakeAddStream" where
  "fakeAddStream_Recv f =
     (case fas_reqs f of
        None \<Rightarrow> (Inl (ErrNew ''[]requests is nil''), f)
      | Some reqs \<Rightarrow>
          if length reqs \<le> fas_i f then (Inl (Sentinel Io_EOF), f)
          else (Inr (reqs ! fas_i f), f\<lparr>fas_i := fas_i f + 1\<rparr>))"

definition fakeAddStream_SendAndClose :: "unit \<Rightarrow> fakeAddStream \<Rightarrow> goerr option \<times> fakeAddStream" where
  "fakeAddStream_SendAndClose resp f =
     (if fas_sentClose f then (Some (ErrNew ''SendAndClose called twice''), f)
      else (None, f\<lparr>fas_sentClose := True, fas_resp := Some resp\<rparr>))"

text \<open>What a receiving loop gets from the stream until its first error; the fuel is the number of
  requests.\<close>

fun recv_results :: "nat \<Rightarrow> fakeAddStream \<Rightarrow> (goerr + AddRequest) list" where
  "recv_results fuel f =
     (case fakeAddStream_Recv f of
        (Inl e, _) \<Rightarrow> [Inl e]
      | (Inr r, f') \<Rightarrow> Inr r # (case fuel of 0 \<Rightarrow> [] | Suc n \<Rightarrow> recv_results n f'))"

declare recv_results.simps [simp del]

lemma recv_results_from:
  assumes "fas_reqs f = Some reqs" and "fas_i f \<le> length reqs"
  shows "recv_results (length reqs - fas_i f) f = map Inr (drop (fas_i f) reqs) @ [Inl (Sentinel Io_EOF)]"
  using assms
proof (induction "length reqs - fas_i f" arbitrary: f)
  case 0
  then show ?case by (simp add: recv_results.simps fakeAddStream_Recv_def)
next
  case (Suc n)
  then have n: "length reqs - fas_i f = Suc n" "n = length reqs - Suc (fas_i f)" and i: "fas_i f < length reqs" by simp_all
  with Suc(3) Suc(1) [of "f\<lparr>fas_i := Suc (fas_i f)\<rparr>"] show ?case
    unfolding n(1) by (subst recv_results.simps) (simp add: fakeAddStream_Recv_def Cons_nth_drop_Suc [symmetric])
qed

text \<open>The fake delivers exactly its requests and then the end of the stream.\<close>

lemma recv_results_new:
  "recv_results (length reqs) (newFakeAddStream c (Some reqs)) = map Inr reqs @ [Inl (Sentinel Io_EOF)]"
  using recv_results_from [of "newFakeAddStream c (Some reqs)" reqs] by (simp add: newFakeAddStream_def)

lemma recv_results_nil: "recv_results n (newFakeAddStream c None) = [Inl (ErrNew ''[]requests is nil'')]"
  by (simp add: newFakeAddStream_def recv_results.simps fakeAddStream_Recv_def)

lemma recv_all_requests: "recv_all text_of (map Inr reqs @ [Inl (Sentinel Io_EOF)]) = Ok reqs"
  by (induction reqs) simp_all

text \<open>The streams of \<open>Get\<close> and \<open>Sync\<close> record what is sent.\<close>

record fakeSendStream =
  fss_ctx :: ctx
  responses :: "(pb_Metadata option \<times> Payload option) list"

definition newFakeGetStream :: "ctx \<Rightarrow> fakeSendStream" where
  "newFakeGetStream c = \<lparr>fss_ctx = c, responses = []\<rparr>"

definition newFakeSyncStream :: "ctx \<Rightarrow> fakeSendStream" where
  "newFakeSyncStream c = \<lparr>fss_ctx = c, responses = []\<rparr>"

definition fakeGetStream_Send :: "pb_Metadata option \<times> Payload option \<Rightarrow> fakeSendStream \<Rightarrow> goerr option \<times> fakeSendStream" where
  "fakeGetStream_Send msg f = (None, f\<lparr>responses := responses f @ [msg]\<rparr>)"

definition fakeSyncStream_Send :: "pb_Metadata option \<times> Payload option \<Rightarrow> fakeSendStream \<Rightarrow> goerr option \<times> fakeSendStream" where
  "fakeSyncStream_Send msg f = (None, f\<lparr>responses := responses f @ [msg]\<rparr>)"

text \<open>A world whose stream is such a fake: nothing sent fails, and what was sent is what the fake
  holds.  Sending keeps the world in step with the fake.\<close>

definition carries :: "fakeSendStream \<Rightarrow> world \<Rightarrow> bool" where
  "carries f w \<longleftrightarrow> sent w = responses f \<and> send_err w = (\<lambda>_. None)"

lemma fake_Send_simulates:
  assumes "carries f w"
  shows "stream_Send msg w = (Ok (), w\<lparr>sent := sent w @ [msg]\<rparr>)"
    and "carries (snd (fakeGetStream_Send msg f)) (w\<lparr>sent := sent w @ [msg]\<rparr>)"
    and "carries (snd (fakeSyncStream_Send msg f)) (w\<lparr>sent := sent w @ [msg]\<rparr>)"
  using assms by (simp_all add: carries_def stream_Send_def fakeGetStream_Send_def fakeSyncStream_Send_def)

section \<open>The use case double\<close>

definition newUseCaseMock :: KeeperUseCase where
  "newUseCaseMock = \<lparr>uc_AddSealed = (\<lambda>_ _ _ _. unexpected_call), uc_Delete = (\<lambda>_ _. unexpected_call),
     uc_GetSealed = (\<lambda>_ _ _. unexpected_call), uc_List = (\<lambda>_ _. unexpected_call), uc_Sync = (\<lambda>_ _ _ _. unexpected_call)\<rparr>"

definition useCaseMock_WithAddSealed :: "KeeperUseCase \<Rightarrow> KeeperUseCase" where
  "useCaseMock_WithAddSealed b = b\<lparr>uc_AddSealed := (\<lambda>c userID meta sealed.
     if userID = ''error'' then fail (ErrNew msgExpectedError) else ret dummyID)\<rparr>"

definition useCaseMock_WithDelete :: "KeeperUseCase \<Rightarrow> KeeperUseCase" where
  "useCaseMock_WithDelete b = b\<lparr>uc_Delete := (\<lambda>c i.
     if i = ''brake-delete'' then fail (ErrNew msgExpectedError) else ret ())\<rparr>"

text \<open>\<open>time.Parse(time.RFC3339, time.RFC3339)\<close> fails, as the layout \<open>Z07:00\<close> is no time zone, and
  returns the zero time; the code drops the error.\<close>

definition dummyTime :: time where
  "dummyTime = zero_time"

definition mock_meta :: Metadata where
  "mock_meta = empty_Metadata\<lparr>CreatedAt := dummyTime, Name := ''dummy name'', Description := ''dummy description'',
     ID := dummyID, MetaDataType := DataTypeUnspecified\<rparr>"

definition useCaseMock_WithGetSealed :: "KeeperUseCase \<Rightarrow> KeeperUseCase" where
  "useCaseMock_WithGetSealed b = b\<lparr>uc_GetSealed := (\<lambda>c i callback.
     if i = ''brake-get'' then fail (ErrNew msgExpectedError)
     else call (callback mock_meta (go_bytes ''dummy secret bytes'')) (wrapping ''callback failed'') ret)\<rparr>"

definition mock_listed :: "string \<Rightarrow> string \<Rightarrow> MetaLoc" where
  "mock_listed loc name = \<lparr>Locator = loc, Meta = empty_Metadata\<lparr>Name := name, ID := dummyID,
     MetaDataType := DataTypeUnspecified, Description := '''', CreatedAt := dummyTime\<rparr>\<rparr>"

definition useCaseMock_WithList :: "KeeperUseCase \<Rightarrow> KeeperUseCase" where
  "useCaseMock_WithList b = b\<lparr>uc_List := (\<lambda>c userID.
     if userID = ''error'' then fail (ErrNew msgExpectedError)
     else if userID = ''no-data'' then ret []
     else if userID = ''single-data'' then ret [mock_listed ''pg:/single-data/data1'' ''data1'']
     else if userID = ''multiple-data''
     then ret [mock_listed ''pg://multiple-data/data1'' ''data1'', mock_listed ''s3://multiple-data/data2'' ''data2'']
     else fail (ErrNew (''no such user: '' @ userID)))\<rparr>"

definition useCaseMock_WithSync :: "KeeperUseCase \<Rightarrow> KeeperUseCase" where
  "useCaseMock_WithSync b = b\<lparr>uc_Sync := (\<lambda>c userID mode callback.
     if userID = ''error'' then fail (ErrNew msgExpectedError)
     else if mode = SyncModeShort then call (callback mock_meta []) (wrapping ''callback failed'') ret
     else if mode = SyncModeFull
     then call (callback mock_meta (go_bytes ''dummy secret bytes'')) (wrapping ''callback failed'') ret
     else fail (ErrNew (''unknown  sync mode: '' @ itoa_int mode)))\<rparr>"

lemmas useCaseMock_defs = newUseCaseMock_def useCaseMock_WithAddSealed_def useCaseMock_WithDelete_def
  useCaseMock_WithGetSealed_def useCaseMock_WithList_def useCaseMock_WithSync_def unexpected_call_def


section \<open>The tables of the tests\<close>

text \<open>The context of a row: the value under the key of the user is absent, of another type, or a user.\<close>

definition test_ctx :: "ctx_value option \<Rightarrow> ctx" where
  "test_ctx v = context_Background\<lparr>user_value := v\<rparr>"

text \<open>The expected status code; \<open>None\<close> is \<open>codes.OK\<close>.\<close>

fun has_code :: "code option \<Rightarrow> 'a result \<Rightarrow> bool" where
  "has_code None r = is_Ok r"
| "has_code (Some cd) r = (case r of Err (StatusErr cd' _) \<Rightarrow> cd' = cd | _ \<Rightarrow> False)"

definition empty_pb :: pb_Metadata where
  "empty_pb = \<lparr>pb_DataType = None, pb_Id = None, pb_Name = None, pb_Description = None, pb_CreatedAt = None,
     pb_ChunkDesc = None\<rparr>"

definition add_request :: "pb_Metadata option \<Rightarrow> bytes option option \<Rightarrow> AddRequest" where
  "add_request m d = \<lparr>add_Metadata = m, add_Payload = map_option (\<lambda>x. \<lparr>SealedData = x\<rparr>) d\<rparr>"

definition named_pb :: "int \<Rightarrow> string \<Rightarrow> pb_Metadata" where
  "named_pb dt name = empty_pb\<lparr>pb_DataType := Some dt, pb_Name := Some name\<rparr>"

definition Add_tests :: "(ctx_value option \<times> AddRequest list option \<times> code option) list" where
  "Add_tests =
     (let user = Some (IsUserID ''userID''); bytes = Some (Some (go_bytes ''secret bytes'')) in
     [(None, None, Some Unauthenticated),
      (Some OtherType, None, Some Unauthenticated),
      (user, Some [], None),
      (user, None, Some InvalidArgument),
      (user, Some [add_request None bytes], Some InvalidArgument),
      (user, Some [add_request (Some (named_pb Metadata_DATA_TYPE_CARD ''nil payload'')) None], Some InvalidArgument),
      (user, Some [add_request (Some empty_pb) bytes], Some InvalidArgument),
      (user, Some [add_request (Some (named_pb Metadata_DATA_TYPE_AUTH ''nil sealed data'')) (Some None)], Some InvalidArgument),
      (Some (IsUserID ''error''), Some [add_request (Some (named_pb Metadata_DATA_TYPE_AUTH ''name0'')) bytes], Some Internal),
      (Some (IsUserID ''userOK''), Some [add_request (Some (named_pb Metadata_DATA_TYPE_AUTH ''name0'')) bytes], None)])"

definition KeeperDelete_tests :: "(ctx_value option \<times> DeleteRequest option \<times> code option) list" where
  "KeeperDelete_tests =
     (let named = Some \<lparr>delreq_Metadata = Some (named_pb Metadata_DATA_TYPE_AUTH ''error'')\<rparr> in
     [(None, None, Some InvalidArgument),
      (None, named, Some Unauthenticated),
      (Some OtherType, named, Some Unauthenticated),
      (Some (IsUserID ''userID''), Some \<lparr>delreq_Metadata = None\<rparr>, Some InvalidArgument),
      (Some (IsUserID ''brake-delete''), Some \<lparr>delreq_Metadata = Some (empty_pb\<lparr>pb_DataType := Some Metadata_DATA_TYPE_AUTH,
         pb_Id := Some ''brake-delete''\<rparr>)\<rparr>, Some Internal),
      (Some (IsUserID ''userOK''), Some \<lparr>delreq_Metadata = Some (named_pb Metadata_DATA_TYPE_AUTH ''name0'')\<rparr>, None)])"

definition correct_metadata :: "timestamp_lib \<Rightarrow> string \<Rightarrow> string \<Rightarrow> pb_Metadata option" where
  "correct_metadata T name desc = Some \<lparr>pb_DataType = Some Metadata_DATA_TYPE_UNSPECIFIED, pb_Id = Some dummyID,
     pb_Name = Some name, pb_Description = Some desc, pb_CreatedAt = Some (timestamppb_New T dummyTime), pb_ChunkDesc = None\<rparr>"

definition correct_response :: "timestamp_lib \<Rightarrow> bytes \<Rightarrow> pb_Metadata option \<times> Payload option" where
  "correct_response T data = (correct_metadata T ''dummy name'' ''dummy description'', Some \<lparr>SealedData = Some data\<rparr>)"

definition Get_tests ::
  "timestamp_lib \<Rightarrow> (ctx_value option \<times> GetRequest option \<times> code option \<times> (pb_Metadata option \<times> Payload option) list) list" where
  "Get_tests T =
     (let asked = Some \<lparr>getreq_Metadata = Some (empty_pb\<lparr>pb_Id := Some dummyID\<rparr>)\<rparr> in
     [(None, None, Some InvalidArgument, []),
      (None, asked, Some Unauthenticated, []),
      (Some OtherType, asked, Some Unauthenticated, []),
      (Some (IsUserID ''userID''), Some \<lparr>getreq_Metadata = None\<rparr>, Some InvalidArgument, []),
      (Some (IsUserID ''brake-get''), Some \<lparr>getreq_Metadata = Some (empty_pb\<lparr>pb_Id := Some ''brake-get''\<rparr>)\<rparr>, Some Internal, []),
      (Some (IsUserID ''userOK''), asked, None, [correct_response T (go_bytes ''dummy secret bytes'')])])"

definition KeeperList_tests ::
  "timestamp_lib \<Rightarrow> (ctx_value option \<times> code option \<times> pb_Metadata option list) list" where
  "KeeperList_tests T =
     [(None, Some Unauthenticated, []),
      (Some OtherType, Some Unauthenticated, []),
      (Some (IsUserID ''error''), Some Internal, []),
      (Some (IsUserID ''UNKNOWN''), Some Internal, []),
      (Some (IsUserID ''no-data''), None, []),
      (Some (IsUserID ''single-data''), None, [correct_metadata T ''data1'' '''']),
      (Some (IsUserID ''multiple-data''), None, [correct_metadata T ''data1'' '''', correct_metadata T ''data2'' ''''])]"

definition KeeperSync_tests ::
  "timestamp_lib \<Rightarrow> (ctx_value option \<times> SyncRequest option \<times> code option \<times> (pb_Metadata option \<times> Payload option) list) list" where
  "KeeperSync_tests T =
     (let short = Some \<lparr>sr_SyncMode = Some SYNC_MODE_SHORT\<rparr>; full = Some \<lparr>sr_SyncMode = Some SYNC_MODE_FULL\<rparr> in
     [(None, None, Some InvalidArgument, []),
      (None, full, Some Unauthenticated, []),
      (Some OtherType, short, Some Unauthenticated, []),
      (Some (IsUserID ''userID''), Some \<lparr>sr_SyncMode = Some SYNC_MODE_UNSPECIFIED\<rparr>, Some InvalidArgument, []),
      (Some (IsUserID ''error''), short, Some Internal, []),
      (Some (IsUserID ''userOK''), short, None, [correct_response T []]),
      (Some (IsUserID ''userOK''), full, None, [correct_response T (go_bytes ''dummy secret bytes'')])])"

section \<open>The handlers pass their tests\<close>

text \<open>One call of \<open>Add\<close> on a fake stream, with the response the stream holds at the end.\<close>

definition run_Add ::
  "(goerr \<Rightarrow> string) \<Rightarrow> timestamp_lib \<Rightarrow> fakeAddStream \<Rightarrow> world \<Rightarrow> unit result \<times> unit option" where
  "run_Add text_of T f w =
     (let recvs = recv_results (case fas_reqs f of None \<Rightarrow> 0 | Some reqs \<Rightarrow> length reqs) f;
          (close, f') = fakeAddStream_SendAndClose () f;
          r = fst (KeeperGRPC_Add text_of T (useCaseMock_WithAddSealed newUseCaseMock) (fas_ctx f) recvs close w)
      in (r, if is_Ok r then fas_resp f' else fas_resp f))"

lemma newFakeAddStream_simps [simp]:
  "fas_ctx (newFakeAddStream c reqs) = c" "fas_reqs (newFakeAddStream c reqs) = reqs" "fas_resp (newFakeAddStream c reqs) = None"
  "fst (fakeAddStream_SendAndClose () (newFakeAddStream c reqs)) = None"
  "fas_resp (snd (fakeAddStream_SendAndClose () (newFakeAddStream c reqs))) = Some ()"
  by (simp_all add: newFakeAddStream_def fakeAddStream_SendAndClose_def)

lemma run_Add_new:
  "run_Add text_of T (newFakeAddStream c reqs) w =
    (let r = fst (KeeperGRPC_Add text_of T (useCaseMock_WithAddSealed newUseCaseMock) c
           (case reqs of None \<Rightarrow> [Inl (ErrNew ''[]requests is nil'')] | Some rs \<Rightarrow> map Inr rs @ [Inl (Sentinel Io_EOF)]) None w)
     in (r, if is_Ok r then Some () else None))"
  by (cases reqs) (simp_all add: run_Add_def recv_results_nil recv_results_new Let_def split_beta)

lemmas keeper_test_simps = test_ctx_def context_Background_def ctx_UserID_def with_user_def useCaseMock_defs call_def
  comp_simps with_timeout_def

lemma Add_tests_pass:
  "list_all (\<lambda>(v, reqs, cd). case run_Add text_of T (newFakeAddStream (test_ctx v) reqs) w of
     (r, resp) \<Rightarrow> has_code cd r \<and> (resp = Some ()) = (cd = None)) Add_tests"
  by (simp add: Add_tests_def Let_def run_Add_new KeeperGRPC_Add_def add_request_def AddRequest_GetMetadata_def
      AddRequest_GetPayload_def Payload_GetSealedData_def FromProtoMetadata_def Metadata_GetDataType_def named_pb_def empty_pb_def
      Metadata_DATA_TYPE_CARD_def Metadata_DATA_TYPE_AUTH_def Metadata_DATA_TYPE_UNSPECIFIED_def Metadata_DATA_TYPE_BINARY_def
      keeper_test_simps)

lemma KeeperDelete_tests_pass:
  "list_all (\<lambda>(v, req, cd). has_code cd (fst (KeeperGRPC_Delete (useCaseMock_WithDelete newUseCaseMock) (test_ctx v) req w)))
     KeeperDelete_tests"
  by (simp add: KeeperDelete_tests_def Let_def KeeperGRPC_Delete_def DeleteRequest_GetMetadata_def Metadata_GetId_def
      named_pb_def empty_pb_def keeper_test_simps)

lemma response_mock: "response T mock_meta data = correct_response T data"
  by (simp add: response_def correct_response_def correct_metadata_def ToProtoMetadata_def mock_meta_def empty_Metadata_def
      DataTypeUnspecified_def DataTypeAuthenticationCredentials_def DataTypeCard_def DataTypeBinary_def)

lemma Get_tests_pass:
  assumes "carries (newFakeGetStream c) w"
  shows "list_all (\<lambda>(v, req, cd, out).
     case KeeperGRPC_Get T (useCaseMock_WithGetSealed newUseCaseMock) (test_ctx v) req w of
       (r, w') \<Rightarrow> has_code cd r \<and> sent w' = out) (Get_tests T)"
  using assms fake_Send_simulates(1) [OF assms]
  by (simp add: Get_tests_def Let_def KeeperGRPC_Get_def GetRequest_GetMetadata_def Metadata_GetId_def empty_pb_def
      response_mock dummyID_def carries_def newFakeGetStream_def keeper_test_simps)

lemma KeeperList_tests_pass:
  "list_all (\<lambda>(v, cd, out). case fst (KeeperGRPC_List T (useCaseMock_WithList newUseCaseMock) (test_ctx v) w) of
     r \<Rightarrow> has_code cd r \<and> (case r of Ok resp \<Rightarrow> list_Metadata resp = out | _ \<Rightarrow> out = [])) (KeeperList_tests T)"
  by (simp add: KeeperList_tests_def KeeperGRPC_List_def ToProtoMetadata_def mock_listed_def correct_metadata_def
      empty_Metadata_def DataTypeUnspecified_def DataTypeAuthenticationCredentials_def DataTypeCard_def DataTypeBinary_def
      keeper_test_simps)

lemma KeeperSync_tests_pass:
  assumes "carries (newFakeSyncStream c) w"
  shows "list_all (\<lambda>(v, req, cd, out).
     case KeeperGRPC_Sync T (useCaseMock_WithSync newUseCaseMock) (test_ctx v) req w of
       (r, w') \<Rightarrow> has_code cd r \<and> sent w' = out) (KeeperSync_tests T)"
  using assms fake_Send_simulates(1) [OF assms]
  by (simp add: KeeperSync_tests_def Let_def KeeperGRPC_Sync_def SyncRequest_GetSyncMode_def SYNC_MODE_SHORT_def
      SYNC_MODE_FULL_def SYNC_MODE_UNSPECIFIED_def SyncModeShort_def SyncModeFull_def
      response_mock carries_def newFakeSyncStream_def keeper_test_simps)



end
