(* ===== verification/Sha256_Vector.thy ===== *)
theory Sha256_Vector
  imports Sha256
begin

text \<open>
  The one-block message of FIPS 180-4, \<open>abc\<close>, evaluated in the kernel: the constants and the rounds of
  \<open>Sha256\<close> give the digest of the standard.  The schedule and the rounds are evaluated in pieces.
\<close>

definition abc :: bytes where
  "abc = [0x61, 0x62, 0x63]"

definition abc_words :: "w32 list" where
  "abc_words =
     [1633837952, 0, 0, 0, 0, 0, 0, 0, 0, 0, 0, 0, 0, 0, 0, 24, 1633837952, 983040, 2108187653,
      1610613702, 1050508152, 25426944, 316456923, 3806512014, 3357629466, 3073800610,
      3854317833, 845560923, 2636160359, 3968280267, 1881225380, 3552024379, 2482346367,
      996719219, 2952069057, 4043988066, 176896406, 1924104970, 2483675966, 610538786,
      2672279444, 4037431130, 1042573945, 657669027, 206005234, 2215296807, 2049510749,
      106709978, 4215179723, 3430291419, 3118885940, 2845390439, 2226839261, 3256115900,
      344409900, 2987358873, 4015503821, 3957764664, 2682456414, 2025622859, 2755645205,
      1720397816, 4004225740, 313650667]"

lemma abc_schedule: "rev (schedule 48 (rev [1633837952, 0, 0, 0, 0, 0, 0, 0, 0, 0, 0, 0, 0, 0, 0, 24])) = abc_words"
  unfolding abc_words_def by code_simp

lemma abc_rounds_0:
  "foldl round256 [1779033703, 3144134277, 1013904242, 2773480762, 1359893119, 2600822924, 528734635,
                   1541459225]
      (zip [1116352408, 1899447441, 3049323471, 3921009573, 961987163, 1508970993, 2453635748,
           2870763221, 3624381080, 310598401, 607225278, 1426881987, 1925078388, 2162078206,
           2614888103, 3248222580]
        [1633837952, 0, 0, 0, 0, 0, 0, 0, 0, 0, 0, 0, 0, 0, 0, 24]) =
      [2969183118, 3227803614, 3643992854, 2274437520, 123276749, 194179596, 1952073950, 509051416]"
  by code_simp

lemma abc_rounds_1:
  "foldl round256 [2969183118, 3227803614, 3643992854, 2274437520, 123276749, 194179596, 1952073950, 509051416]
      (zip [3835390401, 4022224774, 264347078, 604807628, 770255983, 1249150122, 1555081692,
           1996064986, 2554220882, 2821834349, 2952996808, 3210313671, 3336571891, 3584528711,
           113926993, 338241895]
        [1633837952, 983040, 2108187653, 1610613702, 1050508152, 25426944, 316456923, 3806512014,
         3357629466, 3073800610, 3854317833, 845560923, 2636160359, 3968280267, 1881225380,
         3552024379]) =
      [1941126133, 3935906338, 2684750640, 909411017, 3126399250, 17410874, 2917635127, 1628611511]"
  by code_simp

lemma abc_rounds_2:
  "foldl round256 [1941126133, 3935906338, 2684750640, 909411017, 3126399250, 17410874, 2917635127, 1628611511]
      (zip [666307205, 773529912, 1294757372, 1396182291, 1695183700, 1986661051, 2177026350,
           2456956037, 2730485921, 2820302411, 3259730800, 3345764771, 3516065817, 3600352804,
           4094571909, 275423344]
        [2482346367, 996719219, 2952069057, 4043988066, 176896406, 1924104970, 2483675966,
         610538786, 2672279444, 4037431130, 1042573945, 657669027, 206005234, 2215296807,
         2049510749, 106709978]) =
      [1098003085, 2706117808, 1923828625, 643991573, 4274981830, 3581645993, 3077922209,
       2819559920]"
  by code_simp

lemma abc_rounds_3:
  "foldl round256 [1098003085, 2706117808, 1923828625, 643991573, 4274981830, 3581645993, 3077922209,
                   2819559920]
      (zip [430227734, 506948616, 659060556, 883997877, 958139571, 1322822218, 1537002063, 1747873779,
           1955562222, 2024104815, 2227730452, 2361852424, 2428436474, 2756734187, 3204031479,
           3329325298]
        [4215179723, 3430291419, 3118885940, 2845390439, 2226839261, 3256115900, 344409900,
         2987358873, 4015503821, 3957764664, 2682456414, 2025622859, 2755645205, 1720397816,
         4004225740, 313650667]) =
      [1349398616, 3550093669, 80891244, 3093179625, 1593118500, 4212265488, 2492278198, 2518632596]"
  by code_simp

lemma foldl_zip_append:
  "length ks = length ws \<Longrightarrow> foldl f s (zip (ks @ ks') (ws @ ws')) = foldl f (foldl f s (zip ks ws)) (zip ks' ws')"
  by simp

lemma K256_split: "K256 =
      [1116352408, 1899447441, 3049323471, 3921009573, 961987163, 1508970993, 2453635748,
        2870763221, 3624381080, 310598401, 607225278, 1426881987, 1925078388, 2162078206,
        2614888103, 3248222580] @
      [3835390401, 4022224774, 264347078, 604807628, 770255983, 1249150122, 1555081692,
        1996064986, 2554220882, 2821834349, 2952996808, 3210313671, 3336571891, 3584528711,
        113926993, 338241895] @
      [666307205, 773529912, 1294757372, 1396182291, 1695183700, 1986661051, 2177026350,
        2456956037, 2730485921, 2820302411, 3259730800, 3345764771, 3516065817, 3600352804,
        4094571909, 275423344] @
      [430227734, 506948616, 659060556, 883997877, 958139571, 1322822218, 1537002063, 1747873779,
        1955562222, 2024104815, 2227730452, 2361852424, 2428436474, 2756734187, 3204031479,
        3329325298]"
  by (simp add: K256_def)

lemma abc_words_split: "abc_words =
      [1633837952, 0, 0, 0, 0, 0, 0, 0, 0, 0, 0, 0, 0, 0, 0, 24] @
      [1633837952, 983040, 2108187653, 1610613702, 1050508152, 25426944, 316456923, 3806512014,
        3357629466, 3073800610, 3854317833, 845560923, 2636160359, 3968280267, 1881225380,
        3552024379] @
      [2482346367, 996719219, 2952069057, 4043988066, 176896406, 1924104970, 2483675966,
        610538786, 2672279444, 4037431130, 1042573945, 657669027, 206005234, 2215296807,
        2049510749, 106709978] @
      [4215179723, 3430291419, 3118885940, 2845390439, 2226839261, 3256115900, 344409900,
        2987358873, 4015503821, 3957764664, 2682456414, 2025622859, 2755645205, 1720397816,
        4004225740, 313650667]"
  by (simp add: abc_words_def)

lemma abc_rounds: "foldl round256 H256 (zip K256 abc_words) =
      [1349398616, 3550093669, 80891244, 3093179625, 1593118500, 4212265488, 2492278198, 2518632596]"
  unfolding K256_split abc_words_split H256_def
  by (simp only: foldl_zip_append list.size abc_rounds_0 abc_rounds_1 abc_rounds_2 abc_rounds_3)

lemma abc_block: "words_of_bytes (pad256 abc) = [1633837952, 0, 0, 0, 0, 0, 0, 0, 0, 0, 0, 0, 0, 0, 0, 24]"
  by code_simp

theorem sha256_abc:
  "sha256_Sum256 abc =
     [186, 120, 22, 191, 143, 1, 207, 234, 65, 65, 64, 222, 93, 174, 34, 35, 176, 3, 97, 163,
      150, 23, 122, 156, 180, 16, 255, 97, 242, 0, 21, 173]"
proof -
  have p: "length (pad256 abc) = 64" by code_simp
  have "block256 H256 (pad256 abc) =
      [3128432319, 2399260650, 1094795486, 1571693091, 2953011619, 2518121116, 3021012833,
       4060091821]"
    unfolding block256_def Let_def abc_block abc_schedule abc_rounds by (simp add: H256_def)
  with p have blk: "blocks (length (pad256 abc) div 64) H256 (pad256 abc) =
      [3128432319, 2399260650, 1094795486, 1571693091, 2953011619, 2518121116, 3021012833,
       4060091821]"
    by (simp add: take_all)
  show ?thesis unfolding sha256_Sum256_def Let_def blk by code_simp
qed

end
