(* ===== verification/Spec2Isabelle.thy ===== *)
theory Spec2Isabelle
  imports Server_Main Concurrent_Server Auth_Doubles Keeper_Service_Doubles Sha256_Vector
begin

text \<open>
  A model of the server of GophKeeper, a store for sealed secrets behind a gRPC interface
  (\<open>src/\<close>, written in Go), with the theorems that say what it does.

  \<^bold>\<open>The program.\<close>  \<open>cmd/server/main.go\<close> reads the settings (\<open>pkg/config\<close>), connects
  to PostgreSQL and applies the migrations (\<open>internal/service/server/dbmanager\<close>), wires the
  repositories and services and serves gRPC until a signal arrives (\<open>internal/api\<close>).  A unary
  call first passes the interceptor, which validates the access token and puts the user into the
  context.  The handlers (\<open>internal/api/v1\<close>) convert messages
  (\<open>internal/adapters/grpc/metadata\<close>) and call the keeper use case
  (\<open>internal/service/server/keeper\<close>), the user repository or the session manager
  (\<open>pkg/session\<close> over \<open>pkg/tokens\<close> and \<open>pkg/hash\<close>).  The keeper stores the
  content of an object through the router (\<open>internal/repo/router\<close>) and its metadata through
  the metadata repository; all repositories (\<open>internal/repo/db\<close>) run SQL statements under the
  retry loop of \<open>common.go\<close>.

  \<^bold>\<open>State and effects.\<close>  A function with effects is a computation on a \<open>world\<close>
  (\<open>Go_Prelude\<close>, \<open>Go_Env\<close>, \<open>Pg_Store\<close>): the tables of the migrations, an open
  transaction, the clock, the random source, the ids the database will generate, the outcome of the
  coming round trips (a reply, a lost request, a lost reply, each after some time), the readers and
  what was sent on the stream.  Its result is a value, an error, a panic or no return at all, so every
  early return, panic and endless loop of the source is a value of the model.  Error values keep the
  structure that \<open>errors.Is\<close> and \<open>errors.As\<close> inspect.  Integers of a fixed width are words
  or are cut to their width where they can overflow.

  \<^bold>\<open>Theories, in the order of the imports.\<close>
    \<^item> \<open>Go_Prelude\<close>, \<open>Go_Env\<close>, \<open>Go_Strings\<close>: the part of Go and its library in use,
      and the rules by which invariants (\<open>keeps\<close>), frame conditions (\<open>frames\<close>) and
      termination (\<open>total\<close>) pass through calls.
    \<^item> \<open>Base64\<close>, \<open>Sha256\<close>, \<open>Sha256_Vector\<close>, \<open>Hash\<close>: \<open>pkg/hash\<close>, on executable SHA-256, HMAC
      and base64; Argon2 is a parameter.  The digest agrees with the test vector of the standard;
      password strings round trip; the exchanged costs are shown.
    \<^item> \<open>Model\<close>, \<open>Proto\<close>, \<open>Converter\<close>: \<open>internal/model\<close> with contexts and their
      deadlines, the protobuf messages with nil receivers, and the conversions between them.
    \<^item> \<open>Pg_Store\<close>, \<open>Pg_Invariant\<close>, \<open>Db_Common\<close>: every statement of
      \<open>internal/repo/db/internal/sqlc\<close> as a function on tables with their keys, references and
      cascades; the integrity \<open>wf_tables\<close> and that each statement preserves it; the pool, the
      transaction and the retry loop, with the equivalence of the loop and a reference definition.
    \<^item> \<open>User_Repo\<close>, \<open>Token_Repo\<close>, \<open>Metadata_Repo\<close>, \<open>Sealed_Repo\<close>,
      \<open>Router\<close>: the repositories.  Each has a locale with the contract its clients rely on
      (\<open>user_repository\<close>, \<open>refresh_token_storage\<close>, \<open>metadata_repo\<close>,
      \<open>object_repo\<close>, \<open>routed_storage\<close>) over an abstract state (accounts, tokens held, a
      catalog, contents by locator) and an interpretation on the model's own definitions.
    \<^item> \<open>Jwt_Tokens\<close>, \<open>Session\<close>, \<open>Auth_Service\<close>: tokens, sessions and the handlers
      \<open>Login\<close>, \<open>Logout\<close> and \<open>Register\<close> (locales \<open>session_manager\<close> and
      \<open>auth_storage\<close>).
    \<^item> \<open>Keeper\<close>, \<open>Keeper_Service\<close>: the use case over any storage (locale
      \<open>keeper_storage\<close>, interpreted for the database alone and for the router of the server) and
      its gRPC handlers over any use case (locale \<open>keeper_use_case\<close>).  The locale
      \<open>answering_storage\<close> adds that the storage answers; then every operation returns.
    \<^item> \<open>Vault\<close>: the specification of the keeper as an abstract machine on catalogs
      (\<open>vault_step\<close>) and the simulation: every run of the service is a run of the machine, and a
      stream of additions is a run that adds a prefix of its requests.
    \<^item> \<open>Programs\<close>, \<open>Repo_Programs\<close>: the same code as programs, sequences of atomic actions that others can
      interrupt, down to the attempts of a query; run without interruption each is its original
      (\<open>run_simps\<close>).  The rules by which a program keeps an invariant whatever others do
      (\<open>guarantees\<close>) and by which it commits to an outcome in one of its actions (\<open>commits\<close>).
    \<^item> \<open>Linearizability\<close>: concurrent calls of the keeper (\<open>concurrent_run\<close>) against a vault that takes each
      call in one step (\<open>atomic_run\<close>).  The locales \<open>object_programs\<close> and \<open>metadata_programs\<close> say what
      the repositories promise to concurrent callers, \<open>keeper_programs\<close> has the operations over them;
      they are interpreted for the database and for the router of the server.
    \<^item> \<open>Status_Codes\<close>: the handlers fail with a gRPC status only.
    \<^item> \<open>Config\<close>, \<open>Dbmanager\<close>, \<open>Api\<close>, \<open>Server_Main\<close>: settings, start-up, the
      interceptor, the wiring, the running server as the step relation \<open>server_step\<close>,
      \<open>Stop\<close> with its goroutine as \<open>stop_step\<close> and \<open>run\<close> as \<open>run_step\<close>.
    \<^item> \<open>Concurrent_Server\<close>: the server with a goroutine per call as the step relation \<open>live_step\<close>, of which
      \<open>server_step\<close> is the case that nobody interrupts.
    \<^item> \<open>Session_Doubles\<close>, \<open>Keeper_Doubles\<close>, \<open>Auth_Doubles\<close>, \<open>Keeper_Service_Doubles\<close>: the doubles,
      fixtures and fake streams of the repository's tests (\<open>mock_helpers.go\<close>, \<open>test-helpers.go\<close>) as
      values of the interfaces, and the tables of \<open>keeper_test.go\<close> and \<open>keeper_service_test.go\<close>.

  \<^bold>\<open>What the theorems show.\<close>  Storage: what \<open>Put\<close> writes for an existing object is what
  \<open>Get\<close> reads, a synchronisation streams exactly the catalog of the user, catalog operations
  refine an abstract catalog, every history of concurrent calls of the service is one of the abstract
  vault, up to attempts whose replies were lost, in which one user's calls leave the catalog entries of
  the others alone, and yet an object added through the service
  cannot be read back, since its content is filed under the id the client sent, which may be that of
  another user's object.  Sessions: the life of access and
  refresh tokens, revocation and rotation, and from a login to the calls its tokens admit.  Retries: when the loop succeeds and how it meets the two-second timeouts.  Server:
  every state it reaches, however its calls interleave, is intact; a fresh server stays empty, for the
  search for a user always fails; streams are never authenticated; a call without an authorization header ends the process;
  every error a client sees is a status.
  Termination is proved for every operation of the keeper (\<open>service_returns\<close>), and that the copying
  loop runs on for size zero (\<open>sealed_put_zero_hangs\<close>).  Tests: the model passes the tables of the
  repository's tests, which shows that it agrees with the code where the authors fixed its behaviour;
  the doubles also show what the tests cannot see, such as locators the router would refuse.

  \<^bold>\<open>Loops and bounds.\<close>  The retry loop is a \<open>function\<close> with a measure: at most four
  attempts.  The copying loop of \<open>Put\<close> may not end and is a \<open>partial_function (option)\<close>;
  not returning is the result \<open>Hang\<close>.  All other loops of the program are structural.  Only the reading of
  a fake stream (\<open>recv_results\<close>) takes fuel: the number of its requests, which is enough, since each
  call of \<open>Recv\<close> takes one.

  \<^bold>\<open>Parameters.\<close>  Third-party code is an argument: Argon2, JWT, UUID parsing and printing,
  protobuf timestamps, pgxpool and golang-migrate, the environment parser, TLS, the listener and the
  texts of errors.  What is assumed of it is a named hypothesis, such as \<open>jwt_verifies\<close>, which the
  witnesses satisfy with a concrete function.

  \<^bold>\<open>Simplifications.\<close>  Handlers interleave between their actions; one attempt of a query, a statement or
  the transaction of \<open>putLogic\<close>, is one action, since that transaction only inserts rows and locks the
  rows they refer to.  Between two actions everything outside the database may change, so the clock and
  the stream of one handler are not told from those of another.  A pool is the database itself; connections are not
  counted, and \<open>DBManager.Close\<close> does not wait for those in use.  A text column takes every string; a
  NUL byte, which PostgreSQL rejects, is not special.  A double does not check at the end of a test that
  its expectations were met.

  \<^bold>\<open>Not modelled.\<close>  Logging and the query tracer, which have no effect on what is modelled;
  the stubs, descriptors and reflection code that protoc generates; the plumbing of sqlc; the embedding of
  the SQL files; the mocks that mockery generates, of which a double here is the behaviour; the stream
  methods of the fakes that do nothing and that no handler calls; the agent, of which the repository has
  the messages only.
\<close>

end
